theory Spec2Isabelle
  imports Complex_Main "HOL-Library.Multiset"
begin
section \<open>Strings, numbers and the regular expressions of advisor.js\<close>

text \<open>
  JavaScript strings are modelled as \<^typ>\<open>string\<close> over ASCII: \<open>toLowerCase\<close> maps
  \<open>A\<close>..\<open>Z\<close>, \<open>\w\<close> is \<open>[A-Za-z0-9_]\<close>, \<open>\d\<close> is \<open>[0-9]\<close> and \<open>\s\<close> is tab, line feed,
  vertical tab, form feed, carriage return and space. Town Hall levels and counts are
  \<^typ>\<open>nat\<close>. A score is a \<open>num\<close> (below): a finite number, an infinity or \<open>NaN\<close>.
  The entries of an embedding are finite numbers.
\<close>

definition toLowerChar :: "char \<Rightarrow> char" where
  "toLowerChar c =
     (case map_of (zip ''ABCDEFGHIJKLMNOPQRSTUVWXYZ'' ''abcdefghijklmnopqrstuvwxyz'') c of
        Some l \<Rightarrow> l
      | None \<Rightarrow> c)"

definition toLowerCase :: "string \<Rightarrow> string" where
  "toLowerCase s = map toLowerChar s"

definition isDigit :: "char \<Rightarrow> bool" where
  "isDigit c = (c \<in> set ''0123456789'')"

definition isSpace :: "char \<Rightarrow> bool" where
  "isSpace c = (c \<in> set [CHR 0x09, CHR 0x0A, CHR 0x0B, CHR 0x0C, CHR 0x0D, CHR '' ''])"

definition isWordChar :: "char \<Rightarrow> bool" where
  "isWordChar c =
     (c \<in> set ''abcdefghijklmnopqrstuvwxyzABCDEFGHIJKLMNOPQRSTUVWXYZ0123456789_'')"

text \<open>\<open>t.startsWith(p)\<close> and \<open>s.includes(t)\<close> (substring test).\<close>

fun startsWith :: "string \<Rightarrow> string \<Rightarrow> bool" where
  "startsWith s [] = True"
| "startsWith [] (p # ps) = False"
| "startsWith (c # cs) (p # ps) = (c = p \<and> startsWith cs ps)"

fun includesStr :: "string \<Rightarrow> string \<Rightarrow> bool" where
  "includesStr [] t = (t = [])"
| "includesStr (c # cs) t = (startsWith (c # cs) t \<or> includesStr cs t)"

text \<open>\<open>s.split(/\s+/)\<close>: a run of white space separates two pieces; a leading or trailing
  run leaves an empty piece at that end, and the empty string splits into one empty piece.\<close>

fun splitWs :: "string \<Rightarrow> string list" where
  "splitWs [] = [[]]"
| "splitWs (c # cs) =
     (if isSpace c then
        (case cs of
           [] \<Rightarrow> [] # splitWs cs
         | d # ds \<Rightarrow> if isSpace d then splitWs cs else [] # splitWs cs)
      else
        (case splitWs cs of
           [] \<Rightarrow> [[c]]
         | w # ws \<Rightarrow> (c # w) # ws))"

text \<open>The pattern \<open>/th\s*(\d+)|town\s*hall\s*(\d+)/i\<close>. \<open>stripPrefixCI p s\<close> matches the
  lower-case literal \<open>p\<close> at the start of \<open>s\<close> ignoring case and returns the rest;
  \<open>digitsAfterSpaces\<close> is \<open>\s*(\d+)\<close>, both greedy. \<open>thMatch\<close> returns the captured
  digits (\<open>thMatch[1] || thMatch[2]\<close>) of the leftmost match, the first alternative
  tried first at each position, or \<open>None\<close> for \<open>null\<close>.\<close>

fun stripPrefixCI :: "string \<Rightarrow> string \<Rightarrow> string option" where
  "stripPrefixCI [] s = Some s"
| "stripPrefixCI (p # ps) [] = None"
| "stripPrefixCI (p # ps) (c # cs) = (if toLowerChar c = p then stripPrefixCI ps cs else None)"

definition digitsAfterSpaces :: "string \<Rightarrow> string option" where
  "digitsAfterSpaces s =
     (let ds = takeWhile isDigit (dropWhile isSpace s)
      in if ds = [] then None else Some ds)"

definition thMatchAt :: "string \<Rightarrow> string option" where
  "thMatchAt s =
     (case (case stripPrefixCI ''th'' s of
              None \<Rightarrow> None
            | Some r \<Rightarrow> digitsAfterSpaces r) of
        Some ds \<Rightarrow> Some ds
      | None \<Rightarrow>
          (case stripPrefixCI ''town'' s of
             None \<Rightarrow> None
           | Some r \<Rightarrow>
               (case stripPrefixCI ''hall'' (dropWhile isSpace r) of
                  None \<Rightarrow> None
                | Some r' \<Rightarrow> digitsAfterSpaces r')))"

fun thMatch :: "string \<Rightarrow> string option" where
  "thMatch [] = None"
| "thMatch (c # cs) =
     (case thMatchAt (c # cs) of
        Some ds \<Rightarrow> Some ds
      | None \<Rightarrow> thMatch cs)"

text \<open>\<open>parseInt(ds, 10)\<close> on a string of digits, and the decimal text of a number as a
  template literal prints it.\<close>

definition digitVal :: "char \<Rightarrow> nat" where
  "digitVal c = (case map_of (zip ''0123456789'' [0, 1, 2, 3, 4, 5, 6, 7, 8, 9]) c of
                   Some v \<Rightarrow> v
                 | None \<Rightarrow> 0)"

definition parseInt :: "string \<Rightarrow> nat" where
  "parseInt ds = foldl (\<lambda>n c. 10 * n + digitVal c) 0 ds"

fun showNat :: "nat \<Rightarrow> string" where
  "showNat n =
     (if n < 10 then [''0123456789'' ! n]
      else showNat (n div 10) @ [''0123456789'' ! (n mod 10)])"

section \<open>Numbers\<close>

text \<open>
  A JavaScript number as the scoring code meets it: a finite number, \<open>Infinity\<close>,
  \<open>-Infinity\<close> or \<open>NaN\<close>. \<open>NaN\<close> arises when an array is read beyond its end
  (\<open>undefined\<close> in arithmetic), from \<open>Infinity - Infinity\<close>, \<open>Infinity / Infinity\<close>,
  \<open>0 * Infinity\<close> and \<open>0 / 0\<close>, and propagates through every operation; every comparison
  with \<open>NaN\<close> is false. A finite result is kept exact (rounding is not modelled); a
  result beyond \<open>Number.MAX_VALUE\<close> in magnitude overflows to an infinity. The sign of
  a zero is not modelled.
\<close>

datatype num = Num real | PosInf | NegInf | NaN

definition maxValue :: real where
  "maxValue = 2 ^ 1024 - 2 ^ 971"

definition overflow :: "real \<Rightarrow> num" where
  "overflow x = (if x > maxValue then PosInf else if x < - maxValue then NegInf else Num x)"

fun numAdd :: "num \<Rightarrow> num \<Rightarrow> num" where
  "numAdd (Num a) (Num b) = overflow (a + b)"
| "numAdd NaN b = NaN"
| "numAdd a NaN = NaN"
| "numAdd PosInf NegInf = NaN"
| "numAdd NegInf PosInf = NaN"
| "numAdd PosInf b = PosInf"
| "numAdd a PosInf = PosInf"
| "numAdd NegInf b = NegInf"
| "numAdd a NegInf = NegInf"

fun numMinus :: "num \<Rightarrow> num \<Rightarrow> num" where
  "numMinus (Num a) (Num b) = overflow (a - b)"
| "numMinus NaN b = NaN"
| "numMinus a NaN = NaN"
| "numMinus PosInf PosInf = NaN"
| "numMinus NegInf NegInf = NaN"
| "numMinus PosInf b = PosInf"
| "numMinus a PosInf = NegInf"
| "numMinus NegInf b = NegInf"
| "numMinus a NegInf = PosInf"

text \<open>An infinity times or divided by a finite number or an infinity of the given
  sign.\<close>

definition signedInf :: "bool \<Rightarrow> num" where
  "signedInf positive = (if positive then PosInf else NegInf)"

fun numTimes :: "num \<Rightarrow> num \<Rightarrow> num" where
  "numTimes (Num a) (Num b) = overflow (a * b)"
| "numTimes NaN b = NaN"
| "numTimes a NaN = NaN"
| "numTimes PosInf (Num b) = (if b = 0 then NaN else signedInf (b > 0))"
| "numTimes NegInf (Num b) = (if b = 0 then NaN else signedInf (b < 0))"
| "numTimes (Num a) PosInf = (if a = 0 then NaN else signedInf (a > 0))"
| "numTimes (Num a) NegInf = (if a = 0 then NaN else signedInf (a < 0))"
| "numTimes PosInf PosInf = PosInf"
| "numTimes PosInf NegInf = NegInf"
| "numTimes NegInf PosInf = NegInf"
| "numTimes NegInf NegInf = PosInf"

fun numDiv :: "num \<Rightarrow> num \<Rightarrow> num" where
  "numDiv (Num a) (Num b) =
     (if b = 0 then (if a = 0 then NaN else signedInf (a > 0)) else overflow (a / b))"
| "numDiv NaN b = NaN"
| "numDiv a NaN = NaN"
| "numDiv PosInf (Num b) = signedInf (b \<ge> 0)"
| "numDiv NegInf (Num b) = signedInf (b < 0)"
| "numDiv (Num a) b = Num 0"
| "numDiv a b = NaN"

text \<open>\<open>Math.sqrt(a)\<close> and \<open>Math.max(a, b)\<close>.\<close>

fun numSqrt :: "num \<Rightarrow> num" where
  "numSqrt (Num a) = (if a < 0 then NaN else Num (sqrt a))"
| "numSqrt PosInf = PosInf"
| "numSqrt a = NaN"

fun numMax :: "num \<Rightarrow> num \<Rightarrow> num" where
  "numMax (Num a) (Num b) = Num (max a b)"
| "numMax NaN b = NaN"
| "numMax a NaN = NaN"
| "numMax PosInf b = PosInf"
| "numMax a PosInf = PosInf"
| "numMax NegInf b = b"
| "numMax a NegInf = a"

text \<open>\<open>a > b\<close>.\<close>

fun numGreater :: "num \<Rightarrow> num \<Rightarrow> bool" where
  "numGreater (Num a) (Num b) = (a > b)"
| "numGreater NaN b = False"
| "numGreater a NaN = False"
| "numGreater a PosInf = False"
| "numGreater PosInf b = True"
| "numGreater NegInf b = False"
| "numGreater a NegInf = True"

text \<open>What raises in the modelled code: the rejected call to the embedding service, and
  the \<open>TypeError\<close> of reading a property of \<open>undefined\<close>.\<close>

datatype error = EmbeddingServiceFailure | TypeError

section \<open>Keyword extraction\<close>

definition stopwords :: "string list" where
  "stopwords =
     [''a'', ''about'', ''an'', ''and'', ''are'', ''as'', ''at'', ''be'', ''by'', ''for'', ''from'', ''how'',
      ''i'', ''in'', ''is'', ''it'', ''of'', ''on'', ''or'', ''that'', ''the'', ''this'', ''to'', ''was'',
      ''what'', ''when'', ''where'', ''who'', ''will'', ''with'', ''the'', ''can'', ''you'', ''me'', ''my'',
      ''should'', ''would'', ''could'', ''need'', ''regarding'', ''regarding'', ''tell'']"

definition cocTerms :: "string list" where
  "cocTerms = [''th'', ''war'', ''coc'']"

definition cleanQuery :: "string \<Rightarrow> string" where
  "cleanQuery query = filter (\<lambda>c. isWordChar c \<or> isSpace c) (toLowerCase query)"

definition addCocTerm :: "string \<Rightarrow> string list \<Rightarrow> string \<Rightarrow> string list" where
  "addCocTerm cleanedQuery keywords term =
     (if includesStr cleanedQuery term \<and> term \<notin> set keywords
      then keywords @ [term] else keywords)"

definition extractKeywords :: "string \<Rightarrow> string list" where
  "extractKeywords query =
     (let cleanedQuery = cleanQuery query;
          words = splitWs cleanedQuery;
          keywords = filter (\<lambda>word. length word > 2 \<and> word \<notin> set stopwords) words;
          keywords = foldl (addCocTerm cleanedQuery) keywords cocTerms
      in case thMatch query of
           None \<Rightarrow> keywords
         | Some thLevel \<Rightarrow>
             if thLevel \<notin> set keywords
             then keywords @ [''th'' @ thLevel, ''townhall'' @ thLevel]
             else keywords)"

section \<open>Documents and scored candidates\<close>

text \<open>
  A document of the corpus, as \<open>embeddings.json\<close> holds it, and the two fields that
  retrieval adds to it: \<open>similarity\<close> and \<open>keywordScore\<close> are \<open>None\<close> where the
  JavaScript object has no such property. \<open>name\<close> and \<open>type\<close> may be missing.
\<close>

record metadata =
  md_id :: string
  md_name :: "string option"
  md_type :: "string option"
  md_category :: string

record doc =
  content :: string
  metadata :: metadata
  embedding :: "real list"
  similarity :: "num option"
  keywordScore :: "nat option"

text \<open>\<open>doc.similarity\<close> and \<open>doc.keywordScore\<close> read in arithmetic: a missing
  property is \<open>undefined\<close>, which is \<open>NaN\<close> there. (\<open>keywordScore\<close> is only read right
  after it has been set.)\<close>

definition similarityOf :: "doc \<Rightarrow> num" where
  "similarityOf d = (case similarity d of Some s \<Rightarrow> s | None \<Rightarrow> NaN)"

definition keywordScoreOf :: "doc \<Rightarrow> nat" where
  "keywordScoreOf d = (case keywordScore d of Some k \<Rightarrow> k | None \<Rightarrow> 0)"

text \<open>\<open>xs.sort((a, b) => b.similarity - a.similarity)\<close>. \<open>similarityOrder a b\<close> is the
  comparator's value; \<open>b\<close> goes before \<open>a\<close> where it is greater than 0, and a \<open>NaN\<close>
  counts as \<open>+0\<close>. The sort is a stable insertion sort driven by that test, the
  elements read through \<open>deref\<close> (see \<open>pushIfNew\<close> below). Where every key is a finite
  number, this is the order of any stable sort, as \<open>Array.prototype.sort\<close> is:
  descending, equal keys in their given order. Where a key is \<open>NaN\<close> or missing, the
  comparator is not consistent and ECMAScript leaves the order to the implementation;
  the model then fixes this one.\<close>

definition similarityOrder :: "doc \<Rightarrow> doc \<Rightarrow> num" where
  "similarityOrder a b = numMinus (similarityOf b) (similarityOf a)"

fun insertBySimilarity :: "('a \<Rightarrow> doc) \<Rightarrow> 'a \<Rightarrow> 'a list \<Rightarrow> 'a list" where
  "insertBySimilarity deref x [] = [x]"
| "insertBySimilarity deref x (y # ys) =
     (if numGreater (similarityOrder (deref x) (deref y)) (Num 0)
      then y # insertBySimilarity deref x ys
      else x # y # ys)"

definition sortBySimilarityWith :: "('a \<Rightarrow> doc) \<Rightarrow> 'a list \<Rightarrow> 'a list" where
  "sortBySimilarityWith deref xs = foldr (insertBySimilarity deref) xs []"

definition sortBySimilarity :: "doc list \<Rightarrow> doc list" where
  "sortBySimilarity xs = sortBySimilarityWith (\<lambda>d. d) xs"

text \<open>\<open>matches.sort((a, b) => b.keywordScore - a.keywordScore)\<close>: the scores are
  integers, so this is the stable descending sort.\<close>

definition sortByKeywordScore :: "doc list \<Rightarrow> doc list" where
  "sortByKeywordScore xs = sort_key (\<lambda>d. - int (keywordScoreOf d)) xs"

text \<open>The dedup key \<open>(metadata.id, metadata.category)\<close> and the loop body
  \<open>if (!results.some(doc => same key as match)) results.push(match)\<close>. The elements of
  \<open>results\<close> are read through \<open>deref\<close>: the identity for objects held by value, the
  store for references to corpus objects.\<close>

definition sameKey :: "doc \<Rightarrow> doc \<Rightarrow> bool" where
  "sameKey d m =
     (md_id (metadata d) = md_id (metadata m) \<and>
      md_category (metadata d) = md_category (metadata m))"

definition pushIfNew :: "('a \<Rightarrow> doc) \<Rightarrow> 'a list \<Rightarrow> 'a \<Rightarrow> 'a list" where
  "pushIfNew deref results m =
     (if list_ex (\<lambda>d. sameKey (deref d) (deref m)) results then results else results @ [m])"

text \<open>The key as a pair, and the keys of a list in order, for stating that a list has
  no two entries with the same key.\<close>

definition docKey :: "doc \<Rightarrow> string \<times> string" where
  "docKey d = (md_id (metadata d), md_category (metadata d))"

definition keysOf :: "('a \<Rightarrow> doc) \<Rightarrow> 'a list \<Rightarrow> (string \<times> string) list" where
  "keysOf deref xs = map (\<lambda>x. docKey (deref x)) xs"

section \<open>Similarity engine\<close>

text \<open>\<open>v[i]\<close> read in arithmetic: beyond the end of the array it is \<open>undefined\<close>, which
  is \<open>NaN\<close> there. \<open>sumProducts n xs ys\<close> is the variable that starts at 0 and to which
  \<open>xs[i] * ys[i]\<close> is added for \<open>i = 0, ..., n - 1\<close>, in that order. All the loops of
  \<open>cosineSimilarity\<close> run over the indices of \<open>vecA\<close>, so on a \<open>vecB\<close> shorter than
  \<open>vecA\<close> the dot product and \<open>magB\<close> are \<open>NaN\<close>, and so is the result unless \<open>magA\<close> is
  0; and where a sum of squares overflows, the magnitude is \<open>Infinity\<close>.\<close>

definition elemAt :: "real list \<Rightarrow> nat \<Rightarrow> num" where
  "elemAt v i = (if i < length v then Num (v ! i) else NaN)"

definition sumProducts :: "nat \<Rightarrow> real list \<Rightarrow> real list \<Rightarrow> num" where
  "sumProducts n xs ys =
     foldl (\<lambda>acc i. numAdd acc (numTimes (elemAt xs i) (elemAt ys i))) (Num 0) [0..<n]"

definition cosineSimilarity :: "real list \<Rightarrow> real list \<Rightarrow> num" where
  "cosineSimilarity vecA vecB =
     (let dotProduct = sumProducts (length vecA) vecA vecB;
          magA = numSqrt (sumProducts (length vecA) vecA vecA);
          magB = numSqrt (sumProducts (length vecA) vecB vecB)
      in if magA = Num 0 \<or> magB = Num 0 then Num 0
         else numDiv dotProduct (numTimes magA magB))"

definition truthy :: "string option \<Rightarrow> bool" where
  "truthy v = (case v of None \<Rightarrow> False | Some s \<Rightarrow> s \<noteq> [])"

definition keywordScoreStep :: "doc \<Rightarrow> nat \<Rightarrow> string \<Rightarrow> nat" where
  "keywordScoreStep d score keyword =
     (let score = (if includesStr (toLowerCase (content d)) (toLowerCase keyword)
                   then score + 1 else score);
          score = (case md_name (metadata d) of
                     None \<Rightarrow> score
                   | Some n \<Rightarrow>
                       if n \<noteq> [] \<and> includesStr (toLowerCase n) (toLowerCase keyword)
                       then score + 2 else score);
          score = (case md_type (metadata d) of
                     None \<Rightarrow> score
                   | Some t \<Rightarrow>
                       if t \<noteq> [] \<and> toLowerCase t = toLowerCase keyword
                       then score + 3 else score)
      in score)"

definition findKeywordMatches :: "string list \<Rightarrow> doc list \<Rightarrow> nat \<Rightarrow> doc list" where
  "findKeywordMatches keywords embeddings topK =
     (let keywordScores =
            map (\<lambda>d. d\<lparr>keywordScore := Some (foldl (keywordScoreStep d) 0 keywords)\<rparr>) embeddings;
          matches = filter (\<lambda>d. keywordScoreOf d > 0) keywordScores
      in take topK (sortByKeywordScore matches))"

definition findSimilarDocuments :: "real list \<Rightarrow> doc list \<Rightarrow> nat \<Rightarrow> doc list" where
  "findSimilarDocuments queryEmbedding embeddings topK =
     (let similarities =
            map (\<lambda>d. d\<lparr>similarity := Some (cosineSimilarity queryEmbedding (embedding d))\<rparr>)
              embeddings
      in take topK (sortBySimilarity similarities))"

section \<open>Diversity selector\<close>

text \<open>\<open>maxSimilarityToSelected\<close> after the loop over \<open>selected\<close> (all of them documents
  here), and the score \<open>lambda * doc.similarity - (1 - lambda) * maxSimilarityToSelected\<close>.\<close>

definition maxSimilarityToSelected :: "doc \<Rightarrow> doc list \<Rightarrow> num" where
  "maxSimilarityToSelected d selected =
     foldl (\<lambda>m selectedDoc. numMax m (cosineSimilarity (embedding d) (embedding selectedDoc)))
       (Num 0) selected"

definition mmrScore :: "real \<Rightarrow> doc list \<Rightarrow> doc \<Rightarrow> num" where
  "mmrScore lambda selected d =
     numMinus (numTimes (Num lambda) (similarityOf d))
       (numTimes (numMinus (Num 1) (Num lambda)) (maxSimilarityToSelected d selected))"

text \<open>The inner \<open>for\<close> loop over \<open>remaining\<close>. The pair \<open>(bestScore, bestIndex)\<close> starts
  as \<open>(-Infinity, -1)\<close>, the index \<open>-1\<close> being \<open>None\<close> here. A score replaces the best
  one only when \<open>mmrScore > bestScore\<close>: the first of several equal scores stays, and a
  score that is \<open>NaN\<close> or \<open>-Infinity\<close> never replaces the initial pair, so when every
  score is one of these the loop ends with \<open>bestIndex = -1\<close>.\<close>

fun bestFrom :: "(doc \<Rightarrow> num) \<Rightarrow> nat \<Rightarrow> num \<times> nat option \<Rightarrow> doc list
                 \<Rightarrow> num \<times> nat option" where
  "bestFrom score i best [] = best"
| "bestFrom score i (bestScore, bestIndex) (d # ds) =
     bestFrom score (Suc i)
       (if numGreater (score d) bestScore then (score d, Some i) else (bestScore, bestIndex))
       ds"

text \<open>\<open>remaining.splice(i, 1)\<close> for an index \<open>i\<close>; \<open>remaining.splice(-1, 1)\<close> removes the
  last element, which is \<open>butlast\<close>.\<close>

definition splice1 :: "nat \<Rightarrow> 'a list \<Rightarrow> 'a list" where
  "splice1 i xs = take i xs @ drop (Suc i) xs"

lemma bestFrom_index:
  "bestFrom score i best ds = (s, Some k) \<Longrightarrow>
   (case snd best of None \<Rightarrow> True | Some j \<Rightarrow> j < i) \<Longrightarrow> k < i + length ds"
proof (induction ds arbitrary: i best)
  case Nil
  then show ?case by (auto split: option.splits)
next
  case (Cons d ds)
  obtain bestScore bestIndex where best: "best = (bestScore, bestIndex)"
    by (cases best)
  let ?best = "if numGreater (score d) bestScore then (score d, Some i)
               else (bestScore, bestIndex)"
  from Cons.prems(1) have b: "bestFrom score (Suc i) ?best ds = (s, Some k)"
    by (simp add: best)
  have "case snd ?best of None \<Rightarrow> True | Some j \<Rightarrow> j < Suc i"
    using Cons.prems(2) by (auto simp: best split: option.splits)
  from Cons.IH [OF b this] show ?case by simp
qed

text \<open>The \<open>while\<close> loop. \<open>selected\<close> may hold \<open>undefined\<close> (\<open>None\<close>): with
  \<open>bestIndex = -1\<close> the source pushes \<open>remaining[-1]\<close>, which is \<open>undefined\<close>, and
  \<open>splice(-1, 1)\<close> removes the last remaining document. If the loop then runs once
  more, the first pass over \<open>selected\<close> reads \<open>selectedDoc.embedding\<close> of that
  \<open>undefined\<close> and raises \<open>TypeError\<close>.\<close>

function mmrLoop ::
  "real \<Rightarrow> nat \<Rightarrow> doc option list \<Rightarrow> doc list \<Rightarrow> error + doc option list" where
  "mmrLoop lambda topK selected remaining =
     (if length selected < topK \<and> remaining \<noteq> [] then
        (case those selected of
           None \<Rightarrow> Inl TypeError
         | Some selectedDocs \<Rightarrow>
             (case bestFrom (mmrScore lambda selectedDocs) 0 (NegInf, None) remaining of
                (bestScore, None) \<Rightarrow>
                  mmrLoop lambda topK (selected @ [None]) (butlast remaining)
              | (bestScore, Some bestIndex) \<Rightarrow>
                  mmrLoop lambda topK (selected @ [Some (remaining ! bestIndex)])
                    (splice1 bestIndex remaining)))
      else Inr selected)"
  by pat_completeness auto
termination
proof (relation "measure (\<lambda>(lambda, topK, selected, remaining). length remaining)")
  show "wf (measure (\<lambda>(lambda, topK, selected, remaining). length remaining))"
    by simp
next
  fix lambda :: real and topK :: nat and selected :: "doc option list"
    and remaining :: "doc list"
  assume "length selected < topK \<and> remaining \<noteq> []"
  then show "((lambda, topK, selected @ [None], butlast remaining),
              (lambda, topK, selected, remaining))
             \<in> measure (\<lambda>(lambda, topK, selected, remaining). length remaining)"
    by simp
next
  fix lambda :: real and topK :: nat and selected :: "doc option list"
    and remaining selectedDocs :: "doc list"
    and bestScore :: num and found :: "nat option" and bestIndex :: nat
  assume "(bestScore, found) =
          bestFrom (mmrScore lambda selectedDocs) 0 (NegInf, None) remaining"
    and "found = Some bestIndex"
  then have "bestIndex < length remaining"
    using bestFrom_index [of "mmrScore lambda selectedDocs" 0 "(NegInf, None)" remaining
        bestScore bestIndex]
    by simp
  then show "((lambda, topK, selected @ [Some (remaining ! bestIndex)],
               splice1 bestIndex remaining),
              (lambda, topK, selected, remaining))
             \<in> measure (\<lambda>(lambda, topK, selected, remaining). length remaining)"
    by (simp add: splice1_def)
qed

declare mmrLoop.simps [simp del]

text \<open>The result is the returned array, whose entries are documents or \<open>undefined\<close>,
  or the error raised. (\<open>candidates[0]\<close> of an empty array would be \<open>undefined\<close>; the
  array is not empty there, being longer than \<open>topK\<close>.)\<close>

definition applyMMR ::
  "doc list \<Rightarrow> real list \<Rightarrow> nat \<Rightarrow> real \<Rightarrow> error + doc option list" where
  "applyMMR candidates queryEmbedding topK lambda =
     (if length candidates \<le> topK then Inr (map Some candidates)
      else
        (case sortBySimilarity candidates of
           [] \<Rightarrow> mmrLoop lambda topK [None] []
         | first # remaining \<Rightarrow> mmrLoop lambda topK [Some first] remaining))"

text \<open>The entries of a returned array that are documents.\<close>

fun definedEntries :: "'a option list \<Rightarrow> 'a list" where
  "definedEntries [] = []"
| "definedEntries (None # xs) = definedEntries xs"
| "definedEntries (Some x # xs) = x # definedEntries xs"

section \<open>The corpus as a store of objects\<close>

text \<open>
  The corpus array holds references to document objects, and \<open>retrieveContext\<close>
  writes to some of them. A reference is an address; the store maps each address to the
  object's current fields. Objects created during a call (the spread copies of
  \<open>findSimilarDocuments\<close> and \<open>findKeywordMatches\<close>) are referenced from one list
  only and are held by value.
\<close>

type_synonym ref = nat

type_synonym store = "ref \<Rightarrow> doc"

section \<open>Level-scoped filter\<close>

definition mentionsExact :: "nat \<Rightarrow> doc \<Rightarrow> bool" where
  "mentionsExact thLevel d =
     (let c = toLowerCase (content d)
      in includesStr c (''th'' @ showNat thLevel) \<or>
         includesStr c (''town hall '' @ showNat thLevel) \<or>
         includesStr c (''townhall '' @ showNat thLevel) \<or>
         includesStr c (''th '' @ showNat thLevel))"

definition mentionsNearby :: "nat \<Rightarrow> doc \<Rightarrow> bool" where
  "mentionsNearby thLevel d =
     (let c = toLowerCase (content d)
      in includesStr c (''th'' @ showNat (thLevel - 1)) \<or>
         includesStr c (''th'' @ showNat (thLevel + 1)) \<or>
         includesStr c (''town hall '' @ showNat (thLevel - 1)) \<or>
         includesStr c (''town hall '' @ showNat (thLevel + 1)))"

definition exactMatches :: "store \<Rightarrow> nat \<Rightarrow> ref list \<Rightarrow> ref list" where
  "exactMatches h thLevel embeddings = filter (\<lambda>r. mentionsExact thLevel (h r)) embeddings"

definition nearbyMatches :: "store \<Rightarrow> nat \<Rightarrow> ref list \<Rightarrow> ref list" where
  "nearbyMatches h thLevel embeddings = filter (\<lambda>r. mentionsNearby thLevel (h r)) embeddings"

definition combinedMatches :: "store \<Rightarrow> nat \<Rightarrow> ref list \<Rightarrow> ref list" where
  "combinedMatches h thLevel embeddings =
     foldl (pushIfNew h) (exactMatches h thLevel embeddings) (nearbyMatches h thLevel embeddings)"

text \<open>\<open>thLevel\<close> is \<open>None\<close> for \<open>undefined\<close>; \<open>!thLevel\<close> also holds for the number 0,
  so \<open>thLevel - 1\<close> is only computed for a positive level.\<close>

definition filterByTownHallLevel :: "store \<Rightarrow> nat option \<Rightarrow> ref list \<Rightarrow> ref list" where
  "filterByTownHallLevel h thLevel embeddings =
     (case thLevel of
        None \<Rightarrow> embeddings
      | Some t \<Rightarrow>
          if t = 0 then embeddings
          else if length (exactMatches h t embeddings) \<ge> 5 then exactMatches h t embeddings
          else if length (combinedMatches h t embeddings) \<ge> 5 then combinedMatches h t embeddings
          else embeddings)"

section \<open>Query interpreter\<close>

record queryParams =
  townHallLevel :: "nat option"
  targetTH :: "nat option"
  itemType :: "string option"
  focus :: "string option"
  attackType :: "string option"
  focusTroop :: "string option"
  purpose :: "string option"
  baseType :: "string option"
  resourceType :: "string option"
  goal :: "string option"

record queryAnalysis =
  intent :: string
  params :: queryParams

text \<open>\<open>const params = {}\<close>: no property is present.\<close>

definition emptyParams :: queryParams where
  "emptyParams =
     \<lparr>townHallLevel = None, targetTH = None, itemType = None, focus = None,
      attackType = None, focusTroop = None, purpose = None, baseType = None,
      resourceType = None, goal = None\<rparr>"

definition troops :: "string list" where
  "troops =
     [''barbarian'', ''archer'', ''giant'', ''goblin'', ''wall breaker'',
      ''balloon'', ''wizard'', ''healer'', ''dragon'', ''pekka'', ''baby dragon'',
      ''miner'', ''electro dragon'', ''yeti'', ''dragon rider'', ''hog rider'',
      ''valkyrie'', ''golem'', ''witch'', ''lava hound'', ''bowler'', ''ice golem'',
      ''headhunter'']"

text \<open>The four conditions of the cascade, on the lower-cased query.\<close>

definition isUpgradeQuery :: "string \<Rightarrow> bool" where
  "isUpgradeQuery lowerQuery =
     (includesStr lowerQuery ''upgrade'' \<or>
      includesStr lowerQuery ''priority'' \<or>
      includesStr lowerQuery ''what should i upgrade'' \<or>
      includesStr lowerQuery ''upgrade first'' \<or>
      includesStr lowerQuery ''upgrade next'' \<or>
      includesStr lowerQuery ''what to upgrade'' \<or>
      (includesStr lowerQuery ''max'' \<and> includesStr lowerQuery ''first'') \<or>
      (includesStr lowerQuery ''focus'' \<and> includesStr lowerQuery ''upgrade''))"

definition isAttackQuery :: "string \<Rightarrow> bool" where
  "isAttackQuery lowerQuery =
     (includesStr lowerQuery ''attack'' \<or>
      includesStr lowerQuery ''strategy'' \<or>
      includesStr lowerQuery ''army'' \<or>
      includesStr lowerQuery ''raid'' \<or>
      includesStr lowerQuery ''war attack'' \<or>
      includesStr lowerQuery ''attack plan'' \<or>
      includesStr lowerQuery ''composition'' \<or>
      includesStr lowerQuery ''how to beat'' \<or>
      includesStr lowerQuery ''how to attack'' \<or>
      includesStr lowerQuery ''best troops for'' \<or>
      includesStr lowerQuery ''troop comp'')"

definition isBaseQuery :: "string \<Rightarrow> bool" where
  "isBaseQuery lowerQuery =
     (includesStr lowerQuery ''base'' \<or>
      includesStr lowerQuery ''layout'' \<or>
      includesStr lowerQuery ''design'' \<or>
      includesStr lowerQuery ''village layout'' \<or>
      includesStr lowerQuery ''base plan'' \<or>
      includesStr lowerQuery ''defense layout'' \<or>
      includesStr lowerQuery ''base design'' \<or>
      includesStr lowerQuery ''village setup'' \<or>
      includesStr lowerQuery ''how to build'' \<or>
      (includesStr lowerQuery ''arrange'' \<and> includesStr lowerQuery ''defense'') \<or>
      (includesStr lowerQuery ''place'' \<and> includesStr lowerQuery ''building''))"

definition isResourceQuery :: "string \<Rightarrow> bool" where
  "isResourceQuery lowerQuery =
     (includesStr lowerQuery ''resource'' \<or>
      includesStr lowerQuery ''gold'' \<or>
      includesStr lowerQuery ''elixir'' \<or>
      includesStr lowerQuery ''dark elixir'' \<or>
      includesStr lowerQuery ''save'' \<or>
      includesStr lowerQuery ''spend'' \<or>
      includesStr lowerQuery ''economy'' \<or>
      includesStr lowerQuery ''farm'' \<or>
      includesStr lowerQuery ''loot'' \<or>
      includesStr lowerQuery ''best way to get'' \<or>
      includesStr lowerQuery ''how to get more'')"

text \<open>The bodies of the four branches: each takes the parameters collected so far and
  returns them with the properties the branch assigns.\<close>

definition upgradeParams :: "string \<Rightarrow> queryParams \<Rightarrow> queryParams" where
  "upgradeParams lowerQuery ps =
     (let ps =
            (if includesStr lowerQuery ''troop'' \<or> includesStr lowerQuery ''army''
             then ps\<lparr>itemType := Some ''troop''\<rparr>
             else if includesStr lowerQuery ''spell'' then ps\<lparr>itemType := Some ''spell''\<rparr>
             else if includesStr lowerQuery ''hero'' then ps\<lparr>itemType := Some ''hero''\<rparr>
             else if includesStr lowerQuery ''defense'' \<or>
                     includesStr lowerQuery ''building'' \<or>
                     includesStr lowerQuery ''structure'' \<or>
                     includesStr lowerQuery ''tower'' \<or>
                     includesStr lowerQuery ''cannon'' \<or>
                     includesStr lowerQuery ''mortar''
             then ps\<lparr>itemType := Some ''defense''\<rparr>
             else ps)
      in if includesStr lowerQuery ''offense'' \<or>
            includesStr lowerQuery ''attack'' \<or>
            includesStr lowerQuery ''troop'' \<or>
            includesStr lowerQuery ''spell'' \<or>
            includesStr lowerQuery ''army''
         then ps\<lparr>focus := Some ''offense''\<rparr>
         else if includesStr lowerQuery ''defense'' \<or>
                 includesStr lowerQuery ''defend'' \<or>
                 includesStr lowerQuery ''wall'' \<or>
                 includesStr lowerQuery ''protect''
         then ps\<lparr>focus := Some ''defense''\<rparr>
         else ps)"

text \<open>\<open>for (const troop of troops) if (lowerQuery.includes(troop)) { ...; break; }\<close>.\<close>

fun scanTroops :: "string \<Rightarrow> string list \<Rightarrow> string option" where
  "scanTroops lowerQuery [] = None"
| "scanTroops lowerQuery (troop # rest) =
     (if includesStr lowerQuery troop then Some troop else scanTroops lowerQuery rest)"

definition attackParams :: "string \<Rightarrow> queryParams \<Rightarrow> queryParams" where
  "attackParams lowerQuery ps =
     (let ps =
            (if includesStr lowerQuery ''air'' \<or>
                includesStr lowerQuery ''dragon'' \<or>
                includesStr lowerQuery ''balloon'' \<or>
                includesStr lowerQuery ''hound''
             then ps\<lparr>attackType := Some ''air''\<rparr>
             else if includesStr lowerQuery ''ground'' \<or>
                     includesStr lowerQuery ''hog'' \<or>
                     includesStr lowerQuery ''giant'' \<or>
                     includesStr lowerQuery ''golem'' \<or>
                     includesStr lowerQuery ''pekka'' \<or>
                     includesStr lowerQuery ''barbarian'' \<or>
                     includesStr lowerQuery ''archer''
             then ps\<lparr>attackType := Some ''ground''\<rparr>
             else ps);
          ps = (case scanTroops lowerQuery troops of
                  None \<Rightarrow> ps
                | Some troop \<Rightarrow> ps\<lparr>focusTroop := Some troop\<rparr>)
      in if includesStr lowerQuery ''farm'' \<or> includesStr lowerQuery ''loot''
         then ps\<lparr>purpose := Some ''farming''\<rparr>
         else if includesStr lowerQuery ''war'' \<or> includesStr lowerQuery ''clan war''
         then ps\<lparr>purpose := Some ''war''\<rparr>
         else if includesStr lowerQuery ''trophy'' \<or> includesStr lowerQuery ''push''
         then ps\<lparr>purpose := Some ''trophy''\<rparr>
         else ps)"

definition baseParams :: "string \<Rightarrow> queryParams \<Rightarrow> queryParams" where
  "baseParams lowerQuery ps =
     (if includesStr lowerQuery ''farm'' \<or> includesStr lowerQuery ''loot''
      then ps\<lparr>baseType := Some ''farming''\<rparr>
      else if includesStr lowerQuery ''war'' \<or> includesStr lowerQuery ''clan war''
      then ps\<lparr>baseType := Some ''war''\<rparr>
      else if includesStr lowerQuery ''trophy'' \<or> includesStr lowerQuery ''push''
      then ps\<lparr>baseType := Some ''trophy''\<rparr>
      else if includesStr lowerQuery ''hybrid'' then ps\<lparr>baseType := Some ''hybrid''\<rparr>
      else ps)"

definition resourceParams :: "string \<Rightarrow> queryParams \<Rightarrow> queryParams" where
  "resourceParams lowerQuery ps =
     (let ps =
            (if includesStr lowerQuery ''gold'' then ps\<lparr>resourceType := Some ''gold''\<rparr>
             else if includesStr lowerQuery ''elixir'' \<and> includesStr lowerQuery ''dark''
             then ps\<lparr>resourceType := Some ''dark_elixir''\<rparr>
             else if includesStr lowerQuery ''elixir'' then ps\<lparr>resourceType := Some ''elixir''\<rparr>
             else if includesStr lowerQuery ''gem'' then ps\<lparr>resourceType := Some ''gems''\<rparr>
             else ps)
      in if includesStr lowerQuery ''save'' \<or> includesStr lowerQuery ''store''
         then ps\<lparr>goal := Some ''saving''\<rparr>
         else if includesStr lowerQuery ''farm'' \<or>
                 includesStr lowerQuery ''collect'' \<or>
                 includesStr lowerQuery ''get''
         then ps\<lparr>goal := Some ''farming''\<rparr>
         else if includesStr lowerQuery ''spend'' \<or> includesStr lowerQuery ''use''
         then ps\<lparr>goal := Some ''spending''\<rparr>
         else ps)"

definition analyzeQuery :: "string \<Rightarrow> queryAnalysis" where
  "analyzeQuery query =
     (let lowerQuery = toLowerCase query;
          ps = (case thMatch lowerQuery of
                  None \<Rightarrow> emptyParams
                | Some ds \<Rightarrow> emptyParams\<lparr>townHallLevel := Some (parseInt ds)\<rparr>)
      in if isUpgradeQuery lowerQuery
         then \<lparr>intent = ''upgrade_priority'', params = upgradeParams lowerQuery ps\<rparr>
         else if isAttackQuery lowerQuery
         then \<lparr>intent = ''attack_strategy'', params = attackParams lowerQuery ps\<rparr>
         else if isBaseQuery lowerQuery
         then \<lparr>intent = ''base_design'', params = baseParams lowerQuery ps\<rparr>
         else if isResourceQuery lowerQuery
         then \<lparr>intent = ''resource_management'', params = resourceParams lowerQuery ps\<rparr>
         else \<lparr>intent = ''general'', params = ps\<rparr>)"

section \<open>Hybrid retriever\<close>

text \<open>\<open>if (doc.similarity === undefined) doc.similarity = cosineSimilarity(...)\<close> on one
  object, and the same loop over references into the store, which changes the objects
  the corpus array points to.\<close>

definition fillSimilarity :: "real list \<Rightarrow> doc \<Rightarrow> doc" where
  "fillSimilarity queryEmbedding d =
     (if similarity d = None
      then d\<lparr>similarity := Some (cosineSimilarity queryEmbedding (embedding d))\<rparr>
      else d)"

definition fillStore :: "real list \<Rightarrow> store \<Rightarrow> ref list \<Rightarrow> store" where
  "fillStore queryEmbedding h refs =
     foldl (\<lambda>h r. h(r := fillSimilarity queryEmbedding (h r))) h refs"

definition sortRefsBySimilarity :: "store \<Rightarrow> ref list \<Rightarrow> ref list" where
  "sortRefsBySimilarity h refs = sortBySimilarityWith h refs"

text \<open>Lines 541-559: the semantic matches, then each keyword match whose key is new,
  then a similarity for every candidate that has none.\<close>

definition combineResults :: "real list \<Rightarrow> doc list \<Rightarrow> doc list \<Rightarrow> doc list" where
  "combineResults queryEmbedding semanticMatches keywordMatches =
     map (fillSimilarity queryEmbedding)
       (foldl (pushIfNew (\<lambda>d. d)) semanticMatches keywordMatches)"

text \<open>The body shared by the two intent branches (lines 566-593 and 597-624):
  \<open>matches\<close> is the filter predicate and \<open>n\<close> the slice length. The matching
  references come from \<open>filteredEmbeddings\<close>; the loop writes their similarity into the
  store; the \<open>n\<close> best are pushed, as the objects the store now holds, unless their key
  is present.\<close>

definition mergeTop ::
  "real list \<Rightarrow> (doc \<Rightarrow> bool) \<Rightarrow> nat \<Rightarrow> ref list \<Rightarrow> doc list \<Rightarrow> store \<Rightarrow> doc list \<times> store" where
  "mergeTop queryEmbedding matches n filteredEmbeddings filtered h =
     (let typeMatches = filter (\<lambda>r. matches (h r)) filteredEmbeddings
      in if length typeMatches > 0 then
           (let h' = fillStore queryEmbedding h typeMatches;
                topTypeMatches = take n (sortRefsBySimilarity h' typeMatches)
            in (foldl (pushIfNew (\<lambda>d. d)) filtered (map h' topTypeMatches), h'))
         else (filtered, h))"

definition typeMatch :: "string \<Rightarrow> doc \<Rightarrow> bool" where
  "typeMatch wanted d =
     (md_type (metadata d) = Some wanted \<or>
      includesStr (toLowerCase (content d)) wanted)"

definition troopMatch :: "string \<Rightarrow> doc \<Rightarrow> bool" where
  "troopMatch wanted d =
     ((case md_name (metadata d) of
         None \<Rightarrow> False
       | Some n \<Rightarrow> n \<noteq> [] \<and> includesStr (toLowerCase n) wanted) \<or>
      includesStr (toLowerCase (content d)) wanted)"

text \<open>Lines 532-625: the candidate list handed to \<open>applyMMR\<close>, and the store after
  the writes.\<close>

definition gatherCandidates ::
  "real list \<Rightarrow> string \<Rightarrow> queryAnalysis \<Rightarrow> store \<Rightarrow> ref list \<Rightarrow> doc list \<times> store" where
  "gatherCandidates queryEmbedding query queryAnalysis h filteredEmbeddings =
     (let keywords = extractKeywords query;
          semanticMatches = findSimilarDocuments queryEmbedding (map h filteredEmbeddings) 7;
          keywordMatches = findKeywordMatches keywords (map h filteredEmbeddings) 7;
          combinedResults = combineResults queryEmbedding semanticMatches keywordMatches;
          filtered = combinedResults
      in if intent queryAnalysis = ''upgrade_priority'' \<and> truthy (itemType (params queryAnalysis))
         then (case itemType (params queryAnalysis) of
                 None \<Rightarrow> (filtered, h)
               | Some t \<Rightarrow> mergeTop queryEmbedding (typeMatch t) 3 filteredEmbeddings filtered h)
         else if intent queryAnalysis = ''attack_strategy'' \<and>
                 truthy (focusTroop (params queryAnalysis))
         then (case focusTroop (params queryAnalysis) of
                 None \<Rightarrow> (filtered, h)
               | Some t \<Rightarrow> mergeTop queryEmbedding (troopMatch t) 2 filteredEmbeddings filtered h)
         else (filtered, h))"

text \<open>\<open>queryAnalysis.params.townHallLevel || queryAnalysis.params.targetTH\<close>.\<close>

definition thLevelOf :: "queryParams \<Rightarrow> nat option" where
  "thLevelOf ps =
     (case townHallLevel ps of
        None \<Rightarrow> targetTH ps
      | Some n \<Rightarrow> if n \<noteq> 0 then Some n else targetTH ps)"

text \<open>\<open>generateQueryEmbedding\<close> is the call to the embedding service, a parameter here:
  it answers with a vector or fails, and a failure rejects the whole call before any
  candidate is computed. The result is the returned list and the store the call leaves
  behind, or the error with which the call ends.\<close>

definition retrieveContext ::
  "(string \<Rightarrow> error + real list) \<Rightarrow> string \<Rightarrow> queryAnalysis \<Rightarrow> store \<Rightarrow> ref list
     \<Rightarrow> error + (doc option list \<times> store)" where
  "retrieveContext generateQueryEmbedding query queryAnalysis h embeddings =
     (let thLevel = thLevelOf (params queryAnalysis);
          filteredEmbeddings = filterByTownHallLevel h thLevel embeddings
      in case generateQueryEmbedding query of
           Inl e \<Rightarrow> Inl e
         | Inr queryEmbedding \<Rightarrow>
             (case gatherCandidates queryEmbedding query queryAnalysis h filteredEmbeddings of
                (filtered, h') \<Rightarrow>
                  (case applyMMR filtered queryEmbedding 5 (7 / 10) of
                     Inl e \<Rightarrow> Inl e
                   | Inr diverseResults \<Rightarrow> Inr (diverseResults, h'))))"

section \<open>Context assembler\<close>

text \<open>\<open>s.trim()\<close>, \<open>parts.join(sep)\<close>, \<open>s.replace(/_/g, ' ')\<close>, and the two forms of
  \<open>value || 'default'\<close> that the templates use: a number (0 is falsy) and a string (the
  empty string is falsy).\<close>

definition trim :: "string \<Rightarrow> string" where
  "trim s = rev (dropWhile isSpace (rev (dropWhile isSpace s)))"

fun join :: "string \<Rightarrow> string list \<Rightarrow> string" where
  "join sep [] = []"
| "join sep [x] = x"
| "join sep (x # y # ys) = x @ sep @ join sep (y # ys)"

definition replaceUnderscores :: "string \<Rightarrow> string" where
  "replaceUnderscores s = map (\<lambda>c. if c = CHR ''_'' then CHR '' '' else c) s"

definition natOr :: "nat option \<Rightarrow> string \<Rightarrow> string" where
  "natOr v dflt = (case v of None \<Rightarrow> dflt | Some n \<Rightarrow> if n \<noteq> 0 then showNat n else dflt)"

definition strOr :: "string option \<Rightarrow> string \<Rightarrow> string" where
  "strOr v dflt = (case v of None \<Rightarrow> dflt | Some s \<Rightarrow> if s \<noteq> [] then s else dflt)"

text \<open>\<open>${v ? `label${v}` : ''}\<close>.\<close>

definition optLine :: "string \<Rightarrow> string option \<Rightarrow> string" where
  "optLine label v = (case v of None \<Rightarrow> [] | Some s \<Rightarrow> if s \<noteq> [] then label @ s else [])"

text \<open>One excerpt, \<open>index\<close> counting from 0, and the excerpts joined by an empty line.\<close>

definition formatDoc :: "nat \<Rightarrow> doc \<Rightarrow> string" where
  "formatDoc index d =
     ''[Document '' @ showNat (index + 1) @ ''] '' @
     (case md_name (metadata d) of
        None \<Rightarrow> []
      | Some n \<Rightarrow> if n \<noteq> [] then n @ '': '' else []) @
     trim (content d)"

definition contextInfo :: "doc list \<Rightarrow> string" where
  "contextInfo contextDocs =
     join ''\<newline>\<newline>'' (map (\<lambda>(index, d). formatDoc index d) (enumerate 0 contextDocs))"

text \<open>The instruction block of each intent.\<close>

definition upgradeInstructions :: "queryParams \<Rightarrow> string" where
  "upgradeInstructions ps =
     (''\<newline>'' @
      ''    - Focus on providing upgrade priority recommendations\<newline>'' @
      ''    - Consider the player's Town Hall level ('' @
      natOr (townHallLevel ps) ''unknown'' @
      '')\<newline>'' @
      ''    - Prioritize items that will have the biggest impact on gameplay\<newline>'' @
      ''    - Provide a clear ordering of what to upgrade first, second, etc.\<newline>'' @
      ''    - Consider both offensive and defensive upgrades\<newline>'' @
      ''    - Mention specific unit levels and building levels where appropriate\<newline>'' @
      ''    - Consider resource constraints (gold vs. elixir vs. dark elixir)\<newline>'' @
      ''    - Specify which laboratory upgrades are most valuable\<newline>'' @
      ''    '') @
     (if focus ps = Some ''offense'' then
        ''\<newline>'' @
        ''      - Focus specifically on offensive upgrades (troops, spells, heroes, army buildings)\<newline>'' @
        ''      - Prioritize units that are versatile across multiple attack strategies\<newline>'' @
        ''      ''
      else if focus ps = Some ''defense'' then
        ''\<newline>'' @
        ''      - Focus specifically on defensive upgrades (defensive buildings, traps, walls)\<newline>'' @
        ''      - Prioritize defenses that protect against common attack strategies\<newline>'' @
        ''      ''
      else [])"

definition attackInstructions :: "queryParams \<Rightarrow> string" where
  "attackInstructions ps =
     (''\<newline>'' @
      ''    - Recommend a specific, detailed attack strategy\<newline>'' @
      ''    - Include army composition with specific troop counts\<newline>'' @
      ''    - Explain the deployment order and timing\<newline>'' @
      ''    - Mention which spells to use and when\<newline>'' @
      ''    - Consider the target Town Hall level ('' @
      natOr (targetTH ps) ''unknown'' @
      '')\<newline>'' @
      ''    - Explain how to handle common base layouts\<newline>'' @
      ''    - Include hero usage recommendations\<newline>'' @
      ''    - Mention potential backup plans if parts of the attack fail\<newline>'' @
      ''    '') @
     (if attackType ps = Some ''air'' then
        ''\<newline>'' @
        ''      - Focus on air-based strategies\<newline>'' @
        ''      - Explain how to handle air defenses and air bombs\<newline>'' @
        ''      ''
      else if attackType ps = Some ''ground'' then
        ''\<newline>'' @
        ''      - Focus on ground-based strategies\<newline>'' @
        ''      - Explain how to handle walls, traps, and splash damage\<newline>'' @
        ''      ''
      else []) @
     (if purpose ps = Some ''farming'' then
        ''\<newline>'' @
        ''      - Optimize for resource collection rather than total destruction\<newline>'' @
        ''      - Consider army training costs and time\<newline>'' @
        ''      ''
      else if purpose ps = Some ''war'' then
        ''\<newline>'' @
        ''      - Optimize for 3-star attacks\<newline>'' @
        ''      - Assume time is not a constraint for training\<newline>'' @
        ''      ''
      else if purpose ps = Some ''trophy'' then
        ''\<newline>'' @
        ''      - Optimize for securing at least 2 stars consistently\<newline>'' @
        ''      - Balance army training time and effectiveness\<newline>'' @
        ''      ''
      else [])"

definition baseInstructions :: "queryParams \<Rightarrow> string" where
  "baseInstructions ps =
     ''\<newline>'' @
     ''    - Provide base design principles for a '' @
     strOr (baseType ps) ''general'' @
     '' base\<newline>'' @
     ''    - Consider Town Hall level '' @
     natOr (townHallLevel ps) ''unknown'' @
     ''\<newline>'' @
     ''    - Explain the placement of key defenses\<newline>'' @
     ''    - Discuss wall arrangement and compartments\<newline>'' @
     ''    - Mention trap placement with specific locations\<newline>'' @
     ''    - Explain how to protect key buildings (Town Hall, resource storages, etc.)\<newline>'' @
     ''    - Provide a logical layout sequence or zones\<newline>'' @
     ''    - Explain how the design counters common attack strategies\<newline>'' @
     ''    ''"

definition resourceInstructions :: "queryParams \<Rightarrow> string" where
  "resourceInstructions ps =
     ''\<newline>'' @
     ''    - Provide advice on '' @
     strOr (goal ps) ''managing'' @
     '' '' @
     strOr (resourceType ps) ''resources'' @
     ''\<newline>'' @
     ''    - Consider the player's Town Hall level ('' @
     natOr (townHallLevel ps) ''unknown'' @
     '')\<newline>'' @
     ''    - Suggest specific farming strategies if appropriate\<newline>'' @
     ''    - Explain upgrade priority from a resource efficiency perspective\<newline>'' @
     ''    - Provide tips for protecting resources from raids\<newline>'' @
     ''    - Mention ways to maximize resource production\<newline>'' @
     ''    - Suggest the best leagues or trophy ranges for resource collection\<newline>'' @
     ''    ''"

definition intentInstructions :: "queryAnalysis \<Rightarrow> string" where
  "intentInstructions queryAnalysis =
     (if intent queryAnalysis = ''upgrade_priority''
      then upgradeInstructions (params queryAnalysis)
      else if intent queryAnalysis = ''attack_strategy''
      then attackInstructions (params queryAnalysis)
      else if intent queryAnalysis = ''base_design''
      then baseInstructions (params queryAnalysis)
      else if intent queryAnalysis = ''resource_management''
      then resourceInstructions (params queryAnalysis)
      else [])"

text \<open>The prompt template up to the excerpts, and from the excerpts on.\<close>

definition promptHeader :: "string \<Rightarrow> queryAnalysis \<Rightarrow> string" where
  "promptHeader query queryAnalysis =
     ''\<newline>'' @
     ''You are a Clash of Clans Strategy Advisor, knowledgeable about all aspects of the game including troops, buildings, spells, attack strategies, and base designs across all Town Hall levels.\<newline>'' @
     ''\<newline>'' @
     ''USER QUERY: \"'' @
     query @
     ''\"\<newline>'' @
     ''\<newline>'' @
     ''QUERY ANALYSIS:\<newline>'' @
     ''- Intent: '' @
     replaceUnderscores (intent queryAnalysis) @
     ''\<newline>'' @
     ''- Town Hall Level: '' @
     natOr (thLevelOf (params queryAnalysis)) ''Unknown'' @
     ''\<newline>'' @
     optLine ''- Focus Troop: '' (focusTroop (params queryAnalysis)) @
     ''\<newline>'' @
     optLine ''- Attack Type: '' (attackType (params queryAnalysis)) @
     ''\<newline>'' @
     optLine ''- Base Type: '' (baseType (params queryAnalysis)) @
     ''\<newline>'' @
     optLine ''- Item Type: '' (itemType (params queryAnalysis)) @
     ''\<newline>'' @
     ''\<newline>'' @
     ''RELEVANT CLASH OF CLANS INFORMATION:\<newline>''"

definition promptFooter :: "queryAnalysis \<Rightarrow> string" where
  "promptFooter queryAnalysis =
     ''\<newline>'' @
     ''\<newline>'' @
     ''INSTRUCTIONS:\<newline>'' @
     ''Please provide a comprehensive, accurate response to help the player with their question. Your response should be structured, helpful, and directly address their specific query.\<newline>'' @
     ''\<newline>'' @
     intentInstructions queryAnalysis @
     ''\<newline>'' @
     ''\<newline>'' @
     ''IMPORTANT GUIDELINES:\<newline>'' @
     ''- Use the provided context information, but don't just repeat it verbatim\<newline>'' @
     ''- If the context doesn't fully address the query, use your knowledge of Clash of Clans\<newline>'' @
     ''- Be specific and detailed in your recommendations\<newline>'' @
     ''- Always cite your sources when providing specific information (e.g., [Document X])\<newline>'' @
     ''- Only mention troops, spells, buildings, and features that exist in Clash of Clans\<newline>'' @
     ''- If you're unsure about any information, acknowledge the limitations\<newline>'' @
     ''- Present your response in a clear, structured format with headings and lists where appropriate\<newline>'' @
     ''- Focus on practical advice that can be implemented immediately\<newline>'' @
     ''\<newline>'' @
     ''Based on the user's query and available context, provide your most helpful response now.\<newline>''"

definition generateAdvisorPrompt :: "string \<Rightarrow> queryAnalysis \<Rightarrow> doc list \<Rightarrow> string" where
  "generateAdvisorPrompt query queryAnalysis contextDocs =
     promptHeader query queryAnalysis @ contextInfo contextDocs @ promptFooter queryAnalysis"

section \<open>The claims' own readings\<close>

text \<open>
  Definitions that follow the wording of a claim rather than the source, for comparison
  with the source's function. \<open>focusUnit_spec\<close>: of the unit names present in the text,
  the one whose first occurrence starts earliest (\<open>indexOfStr\<close> is \<open>text.indexOf(name)\<close>).
\<close>

fun indexOfStr :: "string \<Rightarrow> string \<Rightarrow> nat option" where
  "indexOfStr [] t = (if t = [] then Some 0 else None)"
| "indexOfStr (c # cs) t =
     (if startsWith (c # cs) t then Some 0 else map_option Suc (indexOfStr cs t))"

fun earliestFrom :: "string \<Rightarrow> (nat \<times> string) option \<Rightarrow> string list \<Rightarrow> (nat \<times> string) option" where
  "earliestFrom text best [] = best"
| "earliestFrom text best (name # names) =
     earliestFrom text
       (case indexOfStr text name of
          None \<Rightarrow> best
        | Some i \<Rightarrow>
            (case best of
               None \<Rightarrow> Some (i, name)
             | Some (j, n) \<Rightarrow> if i < j then Some (i, name) else Some (j, n)))
       names"

definition focusUnit_spec :: "string \<Rightarrow> string list \<Rightarrow> string option" where
  "focusUnit_spec text names = map_option snd (earliestFrom text None names)"

text \<open>\<open>topKBySimilarity\<close>: the top K by similarity alone, that is, sort the scored
  documents by descending similarity and keep the first K, as \<open>findSimilarDocuments\<close>
  does with \<open>sort\<close> and \<open>slice(0, topK)\<close>.\<close>

definition topKBySimilarity :: "nat \<Rightarrow> doc list \<Rightarrow> doc list" where
  "topKBySimilarity topK scored = take topK (sortBySimilarity scored)"

text \<open>\<open>hybridResults\<close> names the merged semantic and keyword results of lines 537-559
  over a list of documents. \<open>mergeTop_spec\<close> is the boost in the claim's words: from
  \<open>pool\<close>, take the matching documents, rank them by cosine similarity to the query
  embedding, keep the top \<open>n\<close> and push each one whose \<open>(id, category)\<close> key is not yet
  present. \<open>boostedCandidates_spec\<close> applies it for the two intents: 3 documents
  matching the item type, or 2 matching the focus troop.\<close>

definition hybridResults :: "real list \<Rightarrow> string \<Rightarrow> doc list \<Rightarrow> doc list" where
  "hybridResults queryEmbedding query docs =
     combineResults queryEmbedding (findSimilarDocuments queryEmbedding docs 7)
       (findKeywordMatches (extractKeywords query) docs 7)"

definition mergeTop_spec ::
  "real list \<Rightarrow> (doc \<Rightarrow> bool) \<Rightarrow> nat \<Rightarrow> doc list \<Rightarrow> doc list \<Rightarrow> doc list" where
  "mergeTop_spec queryEmbedding matches n pool results =
     foldl (pushIfNew (\<lambda>d. d)) results
       (topKBySimilarity n
          (map (\<lambda>d. d\<lparr>similarity := Some (cosineSimilarity queryEmbedding (embedding d))\<rparr>)
             (filter matches pool)))"

definition boostedCandidates_spec ::
  "real list \<Rightarrow> queryAnalysis \<Rightarrow> doc list \<Rightarrow> doc list \<Rightarrow> doc list" where
  "boostedCandidates_spec queryEmbedding queryAnalysis pool results =
     (if intent queryAnalysis = ''upgrade_priority'' \<and> truthy (itemType (params queryAnalysis))
      then (case itemType (params queryAnalysis) of
              None \<Rightarrow> results
            | Some t \<Rightarrow> mergeTop_spec queryEmbedding (typeMatch t) 3 pool results)
      else if intent queryAnalysis = ''attack_strategy'' \<and>
              truthy (focusTroop (params queryAnalysis))
      then (case focusTroop (params queryAnalysis) of
              None \<Rightarrow> results
            | Some t \<Rightarrow> mergeTop_spec queryEmbedding (troopMatch t) 2 pool results)
      else results)"

text \<open>The number of members of the union of exact and nearby matches, deduplicated by
  \<open>(id, category)\<close>: the number of distinct keys among them.\<close>

definition dedupUnionSize_spec :: "store \<Rightarrow> nat \<Rightarrow> ref list \<Rightarrow> nat" where
  "dedupUnionSize_spec h thLevel embeddings =
     length (remdups (keysOf h (exactMatches h thLevel embeddings @
                                nearbyMatches h thLevel embeddings)))"

text \<open>A finite number (\<open>Number.isFinite\<close>). A candidate carries a numeric similarity:
  the property is present and is a finite number; \<open>similarityValue\<close> is that number.\<close>

definition isFiniteNumber :: "num \<Rightarrow> bool" where
  "isFiniteNumber x = (case x of Num r \<Rightarrow> \<bar>r\<bar> \<le> maxValue | _ \<Rightarrow> False)"

definition hasNumericSimilarity :: "doc \<Rightarrow> bool" where
  "hasNumericSimilarity d =
     (case similarity d of Some s \<Rightarrow> isFiniteNumber s | None \<Rightarrow> False)"

definition similarityValue :: "doc \<Rightarrow> real" where
  "similarityValue d = (case similarity d of Some (Num s) \<Rightarrow> s | _ \<Rightarrow> 0)"

text \<open>The sum of the squares of a vector's entries, and the sum of \<open>xs[i] * ys[i]\<close>
  over \<open>i < n\<close>, as real numbers.\<close>

definition sumSquares :: "real list \<Rightarrow> real" where
  "sumSquares v = sum_list (map (\<lambda>x. x * x) v)"

definition dotUpTo :: "nat \<Rightarrow> real list \<Rightarrow> real list \<Rightarrow> real" where
  "dotUpTo n xs ys = (\<Sum>i<n. xs ! i * ys ! i)"

text \<open>The cosine similarity of every two embeddings of the list is a finite number,
  as it is when all embeddings have one length and no sum of squares overflows
  (\<open>cosinesNumeric_same_dimension\<close> below).\<close>

definition cosinesNumeric :: "doc list \<Rightarrow> bool" where
  "cosinesNumeric ds =
     list_all (\<lambda>a. list_all (\<lambda>b. isFiniteNumber (cosineSimilarity (embedding a) (embedding b)))
                 ds) ds"

text \<open>Every similarity that a retrieval call reads or computes is a finite number:
  the similarity a corpus document already carries, if any, the cosine of the query
  embedding and each document embedding, and the cosine of every two document
  embeddings.\<close>

definition corpusNumeric :: "real list \<Rightarrow> store \<Rightarrow> ref list \<Rightarrow> bool" where
  "corpusNumeric queryEmbedding h embeddings =
     list_all
       (\<lambda>r. (case similarity (h r) of None \<Rightarrow> True | Some s \<Rightarrow> isFiniteNumber s) \<and>
            isFiniteNumber (cosineSimilarity queryEmbedding (embedding (h r))) \<and>
            list_all
              (\<lambda>r'. isFiniteNumber (cosineSimilarity (embedding (h r)) (embedding (h r'))))
              embeddings)
       embeddings"

text \<open>A list in descending order of similarity.\<close>

definition descending :: "doc list \<Rightarrow> bool" where
  "descending ds = sorted_wrt (\<lambda>a b. similarityValue b \<le> similarityValue a) ds"

section \<open>Example data\<close>

text \<open>Documents for the concrete instances below: identifier, text, type and similarity
  vary; the embedding is the unit vector \<open>[1, 0]\<close> of a two-dimensional corpus.\<close>

definition exampleDoc :: "string \<Rightarrow> string \<Rightarrow> string option \<Rightarrow> num option \<Rightarrow> doc" where
  "exampleDoc i c ty s =
     \<lparr>content = c,
      metadata = \<lparr>md_id = i, md_name = None, md_type = ty, md_category = ''basic_info''\<rparr>,
      embedding = [1, 0], similarity = s, keywordScore = None\<rparr>"

text \<open>A candidate whose embedding has one dimension, for lists whose other candidates
  have two.\<close>

definition shortDoc :: doc where
  "shortDoc = (exampleDoc ''a'' ''x'' None (Some (Num 1)))\<lparr>embedding := [1]\<rparr>"

text \<open>A store whose objects at the addresses \<open>0, 1, ...\<close> are the given documents.\<close>

definition storeOf :: "doc list \<Rightarrow> store" where
  "storeOf ds = (\<lambda>r. if r < length ds then ds ! r else exampleDoc [] [] None None)"

text \<open>A corpus of six documents in which the first two share their key: four mention
  Town Hall 9, the fifth mentions Town Hall 10, the sixth neither.\<close>

definition duplicateKeyCorpus :: "doc list" where
  "duplicateKeyCorpus =
     [exampleDoc ''1'' ''TH9 walls'' None None, exampleDoc ''1'' ''TH9 cannon'' None None,
      exampleDoc ''2'' ''TH9 mortar'' None None, exampleDoc ''3'' ''TH9 traps'' None None,
      exampleDoc ''4'' ''th10 army'' None None, exampleDoc ''5'' ''Barracks'' None None]"

text \<open>A corpus of six documents: five mention Town Hall 9, the sixth is the only one of
  type \<open>troop\<close> and does not mention it.\<close>

definition exampleCorpus :: "doc list" where
  "exampleCorpus =
     [exampleDoc ''1'' ''TH9 walls'' None None, exampleDoc ''2'' ''TH9 cannon'' None None,
      exampleDoc ''3'' ''TH9 mortar'' None None, exampleDoc ''4'' ''TH9 traps'' None None,
      exampleDoc ''5'' ''TH9 storage'' None None,
      exampleDoc ''6'' ''Barracks'' (Some ''troop'') None]"

section \<open>Properties of keyword extraction\<close>

lemma addCocTerm_mono: "set keywords \<subseteq> set (addCocTerm c keywords t)"
  by (auto simp: addCocTerm_def)

lemma addCocTerm_adds: "includesStr c t \<Longrightarrow> t \<in> set (addCocTerm c keywords t)"
  by (auto simp: addCocTerm_def)

lemma cocTerms_fold:
  "includesStr c t \<Longrightarrow> t \<in> set cocTerms \<Longrightarrow> t \<in> set (foldl (addCocTerm c) keywords cocTerms)"
  using addCocTerm_mono addCocTerm_adds
  by (auto simp: cocTerms_def) blast+

lemma extractKeywords_keeps_cocTerm:
  assumes "t \<in> set cocTerms" and "includesStr (cleanQuery query) t"
  shows "t \<in> set (extractKeywords query)"
proof -
  let ?kw = "foldl (addCocTerm (cleanQuery query))
               (filter (\<lambda>word. length word > 2 \<and> word \<notin> set stopwords)
                  (splitWs (cleanQuery query))) cocTerms"
  have "t \<in> set ?kw" using assms by (rule cocTerms_fold[rotated])
  then show ?thesis
    by (auto simp: extractKeywords_def Let_def split: option.splits)
qed

text \<open>
  Claim C10. Whenever the cleaned query (lower-cased, with every character that is
  neither a word character nor white space removed) contains \<open>th\<close> as a substring,
  the token \<open>th\<close> is among the extracted keywords, and likewise for \<open>war\<close> and
  \<open>coc\<close>: the allow-list is tested by substring containment on the whole cleaned
  query, not against the words the query splits into.
\<close>

theorem extractKeywords_cocTerms_by_substring:
  "(includesStr (cleanQuery query) ''th'' \<longrightarrow> ''th'' \<in> set (extractKeywords query)) \<and>
   (includesStr (cleanQuery query) ''war'' \<longrightarrow> ''war'' \<in> set (extractKeywords query)) \<and>
   (includesStr (cleanQuery query) ''coc'' \<longrightarrow> ''coc'' \<in> set (extractKeywords query))"
  using extractKeywords_keeps_cocTerm [of _ query] by (simp add: cocTerms_def)

text \<open>The query \<open>the other award\<close> has no word \<open>th\<close> or \<open>war\<close>, yet both tokens are
  extracted: \<open>th\<close> occurs inside \<open>other\<close> and \<open>war\<close> inside \<open>award\<close>.\<close>

theorem extractKeywords_cocTerms_by_substring_witness:
  "includesStr (cleanQuery ''the other award'') ''th'' \<and>
   includesStr (cleanQuery ''the other award'') ''war'' \<and>
   ''th'' \<notin> set (splitWs (cleanQuery ''the other award'')) \<and>
   ''war'' \<notin> set (splitWs (cleanQuery ''the other award'')) \<and>
   ''th'' \<in> set (extractKeywords ''the other award'') \<and>
   ''war'' \<in> set (extractKeywords ''the other award'')"
  using extractKeywords_cocTerms_by_substring [of "''the other award''"]
  by (simp add: cleanQuery_def toLowerCase_def toLowerChar_def isWordChar_def isSpace_def)

section \<open>Properties of the query interpreter\<close>

lemma scanTroops_None: "scanTroops lq ts = None \<longleftrightarrow> (\<forall>t\<in>set ts. \<not> includesStr lq t)"
  by (induction ts) auto

lemma scanTroops_Some:
  "scanTroops lq ts = Some t \<longleftrightarrow>
   (\<exists>i<length ts. ts ! i = t \<and> includesStr lq t \<and> (\<forall>j<i. \<not> includesStr lq (ts ! j)))"
proof (induction ts)
  case Nil
  then show ?case by simp
next
  case (Cons a ts)
  show ?case
  proof (cases "includesStr lq a")
    case True
    then show ?thesis
      by (auto intro: exI[of _ 0]) (metis not_gr_zero nth_Cons_0)
  next
    case False
    have "(\<exists>i<length (a # ts). (a # ts) ! i = t \<and> includesStr lq t \<and> (\<forall>j<i. \<not> includesStr lq ((a # ts) ! j)))
        \<longleftrightarrow> (\<exists>i<length ts. ts ! i = t \<and> includesStr lq t \<and> (\<forall>j<i. \<not> includesStr lq (ts ! j)))"
      (is "?L \<longleftrightarrow> ?R")
    proof
      assume ?L
      then obtain i where i: "i < length (a # ts)" "(a # ts) ! i = t" "includesStr lq t"
        "\<forall>j<i. \<not> includesStr lq ((a # ts) ! j)" by blast
      with False obtain k where k: "i = Suc k" by (cases i) auto
      have "\<forall>j<k. \<not> includesStr lq (ts ! j)"
      proof (intro allI impI)
        fix j assume "j < k"
        then have "Suc j < i" using k by simp
        with i(4) have "\<not> includesStr lq ((a # ts) ! Suc j)" by blast
        then show "\<not> includesStr lq (ts ! j)" by simp
      qed
      with i k show ?R by auto
    next
      assume ?R
      then obtain i where i: "i < length ts" "ts ! i = t" "includesStr lq t"
        "\<forall>j<i. \<not> includesStr lq (ts ! j)" by blast
      have "\<forall>j<Suc i. \<not> includesStr lq ((a # ts) ! j)"
      proof (intro allI impI)
        fix j assume "j < Suc i"
        then show "\<not> includesStr lq ((a # ts) ! j)"
          using False i(4) by (cases j) auto
      qed
      with i show ?L by (intro exI[of _ "Suc i"]) auto
    qed
    with False Cons.IH show ?thesis by simp
  qed
qed

lemma focusTroop_attack:
  "focusTroop (attackParams lq ps) = (case scanTroops lq troops of None \<Rightarrow> focusTroop ps | Some t \<Rightarrow> Some t)"
  by (simp add: attackParams_def Let_def split: option.splits)

lemma analyzeQuery_attack_focusTroop:
  assumes "intent (analyzeQuery query) = ''attack_strategy''"
  shows "focusTroop (params (analyzeQuery query)) = scanTroops (toLowerCase query) troops"
  using assms
  by (auto simp: analyzeQuery_def Let_def focusTroop_attack emptyParams_def split: option.splits if_splits)

lemma upgradeParams_frame:
  "townHallLevel (upgradeParams lq ps) = townHallLevel ps"
  "targetTH (upgradeParams lq ps) = targetTH ps"
  "attackType (upgradeParams lq ps) = attackType ps"
  "focusTroop (upgradeParams lq ps) = focusTroop ps"
  "purpose (upgradeParams lq ps) = purpose ps"
  "baseType (upgradeParams lq ps) = baseType ps"
  "resourceType (upgradeParams lq ps) = resourceType ps"
  "goal (upgradeParams lq ps) = goal ps"
  by (simp_all add: upgradeParams_def Let_def)

lemma attackParams_frame:
  "townHallLevel (attackParams lq ps) = townHallLevel ps"
  "targetTH (attackParams lq ps) = targetTH ps"
  "itemType (attackParams lq ps) = itemType ps"
  "focus (attackParams lq ps) = focus ps"
  "baseType (attackParams lq ps) = baseType ps"
  "resourceType (attackParams lq ps) = resourceType ps"
  "goal (attackParams lq ps) = goal ps"
  by (simp_all add: attackParams_def Let_def split: option.splits)

lemma baseParams_frame:
  "townHallLevel (baseParams lq ps) = townHallLevel ps"
  "targetTH (baseParams lq ps) = targetTH ps"
  "itemType (baseParams lq ps) = itemType ps"
  "focus (baseParams lq ps) = focus ps"
  "attackType (baseParams lq ps) = attackType ps"
  "focusTroop (baseParams lq ps) = focusTroop ps"
  "purpose (baseParams lq ps) = purpose ps"
  "resourceType (baseParams lq ps) = resourceType ps"
  "goal (baseParams lq ps) = goal ps"
  by (simp_all add: baseParams_def)

lemma resourceParams_frame:
  "townHallLevel (resourceParams lq ps) = townHallLevel ps"
  "targetTH (resourceParams lq ps) = targetTH ps"
  "itemType (resourceParams lq ps) = itemType ps"
  "focus (resourceParams lq ps) = focus ps"
  "attackType (resourceParams lq ps) = attackType ps"
  "focusTroop (resourceParams lq ps) = focusTroop ps"
  "purpose (resourceParams lq ps) = purpose ps"
  "baseType (resourceParams lq ps) = baseType ps"
  by (simp_all add: resourceParams_def Let_def)

lemmas params_frame =
  upgradeParams_frame attackParams_frame baseParams_frame resourceParams_frame

lemma analyzeQuery_intent:
  "intent (analyzeQuery query) =
     (if isUpgradeQuery (toLowerCase query) then ''upgrade_priority''
      else if isAttackQuery (toLowerCase query) then ''attack_strategy''
      else if isBaseQuery (toLowerCase query) then ''base_design''
      else if isResourceQuery (toLowerCase query) then ''resource_management''
      else ''general'')"
  by (simp add: analyzeQuery_def Let_def)

lemma analyzeQuery_params:
  "params (analyzeQuery query) =
     (let lq = toLowerCase query;
          ps = (case thMatch lq of None \<Rightarrow> emptyParams
                | Some ds \<Rightarrow> emptyParams\<lparr>townHallLevel := Some (parseInt ds)\<rparr>)
      in if isUpgradeQuery lq then upgradeParams lq ps
         else if isAttackQuery lq then attackParams lq ps
         else if isBaseQuery lq then baseParams lq ps
         else if isResourceQuery lq then resourceParams lq ps
         else ps)"
  by (simp add: analyzeQuery_def Let_def)

lemma initial_params:
  "targetTH (case m of None \<Rightarrow> emptyParams | Some ds \<Rightarrow> emptyParams\<lparr>townHallLevel := Some (f ds)\<rparr>) = None"
  "itemType (case m of None \<Rightarrow> emptyParams | Some ds \<Rightarrow> emptyParams\<lparr>townHallLevel := Some (f ds)\<rparr>) = None"
  "focus (case m of None \<Rightarrow> emptyParams | Some ds \<Rightarrow> emptyParams\<lparr>townHallLevel := Some (f ds)\<rparr>) = None"
  "attackType (case m of None \<Rightarrow> emptyParams | Some ds \<Rightarrow> emptyParams\<lparr>townHallLevel := Some (f ds)\<rparr>) = None"
  "focusTroop (case m of None \<Rightarrow> emptyParams | Some ds \<Rightarrow> emptyParams\<lparr>townHallLevel := Some (f ds)\<rparr>) = None"
  "purpose (case m of None \<Rightarrow> emptyParams | Some ds \<Rightarrow> emptyParams\<lparr>townHallLevel := Some (f ds)\<rparr>) = None"
  "baseType (case m of None \<Rightarrow> emptyParams | Some ds \<Rightarrow> emptyParams\<lparr>townHallLevel := Some (f ds)\<rparr>) = None"
  "resourceType (case m of None \<Rightarrow> emptyParams | Some ds \<Rightarrow> emptyParams\<lparr>townHallLevel := Some (f ds)\<rparr>) = None"
  "goal (case m of None \<Rightarrow> emptyParams | Some ds \<Rightarrow> emptyParams\<lparr>townHallLevel := Some (f ds)\<rparr>) = None"
  "townHallLevel (case m of None \<Rightarrow> emptyParams | Some ds \<Rightarrow> emptyParams\<lparr>townHallLevel := Some (f ds)\<rparr>) = map_option f m"
  by (simp_all add: emptyParams_def split: option.splits)

lemma analyzeQuery_townHallLevel:
  "townHallLevel (params (analyzeQuery query)) = map_option parseInt (thMatch (toLowerCase query))"
  "targetTH (params (analyzeQuery query)) = None"
  by (simp_all add: analyzeQuery_params Let_def params_frame initial_params)

lemma analyzeQuery_foreign_params:
  "intent (analyzeQuery query) \<noteq> ''upgrade_priority'' \<Longrightarrow>
     itemType (params (analyzeQuery query)) = None \<and> focus (params (analyzeQuery query)) = None"
  "intent (analyzeQuery query) \<noteq> ''attack_strategy'' \<Longrightarrow>
     attackType (params (analyzeQuery query)) = None \<and>
     focusTroop (params (analyzeQuery query)) = None \<and>
     purpose (params (analyzeQuery query)) = None"
  "intent (analyzeQuery query) \<noteq> ''base_design'' \<Longrightarrow> baseType (params (analyzeQuery query)) = None"
  "intent (analyzeQuery query) \<noteq> ''resource_management'' \<Longrightarrow>
     resourceType (params (analyzeQuery query)) = None \<and> goal (params (analyzeQuery query)) = None"
  by (simp_all add: analyzeQuery_intent analyzeQuery_params Let_def params_frame initial_params
      split: if_splits)

lemma own_params_absent:
  "\<not> (includesStr lq ''troop'' \<or> includesStr lq ''army'' \<or> includesStr lq ''spell'' \<or>
      includesStr lq ''hero'' \<or> includesStr lq ''defense'' \<or> includesStr lq ''building'' \<or>
      includesStr lq ''structure'' \<or> includesStr lq ''tower'' \<or> includesStr lq ''cannon'' \<or>
      includesStr lq ''mortar'') \<Longrightarrow> itemType (upgradeParams lq ps) = itemType ps"
  "\<not> (includesStr lq ''offense'' \<or> includesStr lq ''attack'' \<or> includesStr lq ''troop'' \<or>
      includesStr lq ''spell'' \<or> includesStr lq ''army'' \<or> includesStr lq ''defense'' \<or>
      includesStr lq ''defend'' \<or> includesStr lq ''wall'' \<or> includesStr lq ''protect'')
   \<Longrightarrow> focus (upgradeParams lq ps) = focus ps"
  "\<not> (includesStr lq ''air'' \<or> includesStr lq ''dragon'' \<or> includesStr lq ''balloon'' \<or>
      includesStr lq ''hound'' \<or> includesStr lq ''ground'' \<or> includesStr lq ''hog'' \<or>
      includesStr lq ''giant'' \<or> includesStr lq ''golem'' \<or> includesStr lq ''pekka'' \<or>
      includesStr lq ''barbarian'' \<or> includesStr lq ''archer'')
   \<Longrightarrow> attackType (attackParams lq ps) = attackType ps"
  "scanTroops lq troops = None \<Longrightarrow> focusTroop (attackParams lq ps) = focusTroop ps"
  "\<not> (includesStr lq ''farm'' \<or> includesStr lq ''loot'' \<or> includesStr lq ''war'' \<or>
      includesStr lq ''clan war'' \<or> includesStr lq ''trophy'' \<or> includesStr lq ''push'')
   \<Longrightarrow> purpose (attackParams lq ps) = purpose ps"
  "\<not> (includesStr lq ''farm'' \<or> includesStr lq ''loot'' \<or> includesStr lq ''war'' \<or>
      includesStr lq ''clan war'' \<or> includesStr lq ''trophy'' \<or> includesStr lq ''push'' \<or>
      includesStr lq ''hybrid'')
   \<Longrightarrow> baseType (baseParams lq ps) = baseType ps"
  "\<not> (includesStr lq ''gold'' \<or> includesStr lq ''elixir'' \<or> includesStr lq ''gem'')
   \<Longrightarrow> resourceType (resourceParams lq ps) = resourceType ps"
  "\<not> (includesStr lq ''save'' \<or> includesStr lq ''store'' \<or> includesStr lq ''farm'' \<or>
      includesStr lq ''collect'' \<or> includesStr lq ''get'' \<or> includesStr lq ''spend'' \<or>
      includesStr lq ''use'')
   \<Longrightarrow> goal (resourceParams lq ps) = goal ps"
  by (simp_all add: upgradeParams_def attackParams_def baseParams_def resourceParams_def Let_def
      split: option.splits)

lemma analyzeQuery_field_cases:
  "f (params (analyzeQuery query)) =
     (let lq = toLowerCase query;
          ps = (case thMatch lq of None \<Rightarrow> emptyParams
                | Some ds \<Rightarrow> emptyParams\<lparr>townHallLevel := Some (parseInt ds)\<rparr>)
      in if isUpgradeQuery lq then f (upgradeParams lq ps)
         else if isAttackQuery lq then f (attackParams lq ps)
         else if isBaseQuery lq then f (baseParams lq ps)
         else if isResourceQuery lq then f (resourceParams lq ps)
         else f ps)"
  by (simp add: analyzeQuery_params Let_def)

text \<open>
  Claim C7. \<open>analyzeQuery\<close> is a total function of the query string (no branch of the
  source throws). The intent is decided by the ordered cascade on the lower-cased text:
  the upgrade-priority test first, then attack-strategy, base-design and
  resource-management, the first that holds winning and \<open>general\<close> left when none
  holds. A parameter with no signal in the text is absent: the Town Hall level when the
  pattern does not match, \<open>targetTH\<close> always, the parameters of another intent's
  branch, and each parameter when none of its own keywords occurs.
\<close>

theorem analyzeQuery_cascade:
  "(let lq = toLowerCase query; ps = params (analyzeQuery query)
    in intent (analyzeQuery query) =
         (if isUpgradeQuery lq then ''upgrade_priority''
          else if isAttackQuery lq then ''attack_strategy''
          else if isBaseQuery lq then ''base_design''
          else if isResourceQuery lq then ''resource_management''
          else ''general'') \<and>
       (thMatch lq = None \<longrightarrow> townHallLevel ps = None) \<and>
       targetTH ps = None \<and>
       (intent (analyzeQuery query) \<noteq> ''upgrade_priority'' \<longrightarrow>
          itemType ps = None \<and> focus ps = None) \<and>
       (intent (analyzeQuery query) \<noteq> ''attack_strategy'' \<longrightarrow>
          attackType ps = None \<and> focusTroop ps = None \<and> purpose ps = None) \<and>
       (intent (analyzeQuery query) \<noteq> ''base_design'' \<longrightarrow> baseType ps = None) \<and>
       (intent (analyzeQuery query) \<noteq> ''resource_management'' \<longrightarrow>
          resourceType ps = None \<and> goal ps = None) \<and>
       (\<not> (includesStr lq ''troop'' \<or> includesStr lq ''army'' \<or> includesStr lq ''spell'' \<or>
           includesStr lq ''hero'' \<or> includesStr lq ''defense'' \<or> includesStr lq ''building'' \<or>
           includesStr lq ''structure'' \<or> includesStr lq ''tower'' \<or> includesStr lq ''cannon'' \<or>
           includesStr lq ''mortar'') \<longrightarrow> itemType ps = None) \<and>
       (\<not> (includesStr lq ''offense'' \<or> includesStr lq ''attack'' \<or> includesStr lq ''troop'' \<or>
           includesStr lq ''spell'' \<or> includesStr lq ''army'' \<or> includesStr lq ''defense'' \<or>
           includesStr lq ''defend'' \<or> includesStr lq ''wall'' \<or> includesStr lq ''protect'')
        \<longrightarrow> focus ps = None) \<and>
       (\<not> (includesStr lq ''air'' \<or> includesStr lq ''dragon'' \<or> includesStr lq ''balloon'' \<or>
           includesStr lq ''hound'' \<or> includesStr lq ''ground'' \<or> includesStr lq ''hog'' \<or>
           includesStr lq ''giant'' \<or> includesStr lq ''golem'' \<or> includesStr lq ''pekka'' \<or>
           includesStr lq ''barbarian'' \<or> includesStr lq ''archer'')
        \<longrightarrow> attackType ps = None) \<and>
       (list_all (\<lambda>troop. \<not> includesStr lq troop) troops \<longrightarrow> focusTroop ps = None) \<and>
       (\<not> (includesStr lq ''farm'' \<or> includesStr lq ''loot'' \<or> includesStr lq ''war'' \<or>
           includesStr lq ''clan war'' \<or> includesStr lq ''trophy'' \<or> includesStr lq ''push'')
        \<longrightarrow> purpose ps = None) \<and>
       (\<not> (includesStr lq ''farm'' \<or> includesStr lq ''loot'' \<or> includesStr lq ''war'' \<or>
           includesStr lq ''clan war'' \<or> includesStr lq ''trophy'' \<or> includesStr lq ''push'' \<or>
           includesStr lq ''hybrid'')
        \<longrightarrow> baseType ps = None) \<and>
       (\<not> (includesStr lq ''gold'' \<or> includesStr lq ''elixir'' \<or> includesStr lq ''gem'')
        \<longrightarrow> resourceType ps = None) \<and>
       (\<not> (includesStr lq ''save'' \<or> includesStr lq ''store'' \<or> includesStr lq ''farm'' \<or>
           includesStr lq ''collect'' \<or> includesStr lq ''get'' \<or> includesStr lq ''spend'' \<or>
           includesStr lq ''use'')
        \<longrightarrow> goal ps = None))"
proof -
  let ?lq = "toLowerCase query"
  let ?ps = "params (analyzeQuery query)"
  have none: "scanTroops ?lq troops = None" if "list_all (\<lambda>troop. \<not> includesStr ?lq troop) troops"
    using that by (simp add: scanTroops_None list_all_iff)
  have a: "itemType ?ps = None"
    if "\<not> (includesStr ?lq ''troop'' \<or> includesStr ?lq ''army'' \<or> includesStr ?lq ''spell'' \<or>
           includesStr ?lq ''hero'' \<or> includesStr ?lq ''defense'' \<or> includesStr ?lq ''building'' \<or>
           includesStr ?lq ''structure'' \<or> includesStr ?lq ''tower'' \<or> includesStr ?lq ''cannon'' \<or>
           includesStr ?lq ''mortar'')"
    using own_params_absent(1) [OF that]
    by (simp add: analyzeQuery_field_cases [of itemType] Let_def params_frame initial_params)
  have b: "focus ?ps = None"
    if "\<not> (includesStr ?lq ''offense'' \<or> includesStr ?lq ''attack'' \<or> includesStr ?lq ''troop'' \<or>
           includesStr ?lq ''spell'' \<or> includesStr ?lq ''army'' \<or> includesStr ?lq ''defense'' \<or>
           includesStr ?lq ''defend'' \<or> includesStr ?lq ''wall'' \<or> includesStr ?lq ''protect'')"
    using own_params_absent(2) [OF that]
    by (simp add: analyzeQuery_field_cases [of focus] Let_def params_frame initial_params)
  have c: "attackType ?ps = None"
    if "\<not> (includesStr ?lq ''air'' \<or> includesStr ?lq ''dragon'' \<or> includesStr ?lq ''balloon'' \<or>
           includesStr ?lq ''hound'' \<or> includesStr ?lq ''ground'' \<or> includesStr ?lq ''hog'' \<or>
           includesStr ?lq ''giant'' \<or> includesStr ?lq ''golem'' \<or> includesStr ?lq ''pekka'' \<or>
           includesStr ?lq ''barbarian'' \<or> includesStr ?lq ''archer'')"
    using own_params_absent(3) [OF that]
    by (simp add: analyzeQuery_field_cases [of attackType] Let_def params_frame initial_params)
  have d: "focusTroop ?ps = None" if "list_all (\<lambda>troop. \<not> includesStr ?lq troop) troops"
    using own_params_absent(4) [OF none [OF that]]
    by (simp add: analyzeQuery_field_cases [of focusTroop] Let_def params_frame initial_params)
  have e: "purpose ?ps = None"
    if "\<not> (includesStr ?lq ''farm'' \<or> includesStr ?lq ''loot'' \<or> includesStr ?lq ''war'' \<or>
           includesStr ?lq ''clan war'' \<or> includesStr ?lq ''trophy'' \<or> includesStr ?lq ''push'')"
    using own_params_absent(5) [OF that]
    by (simp add: analyzeQuery_field_cases [of purpose] Let_def params_frame initial_params)
  have f: "baseType ?ps = None"
    if "\<not> (includesStr ?lq ''farm'' \<or> includesStr ?lq ''loot'' \<or> includesStr ?lq ''war'' \<or>
           includesStr ?lq ''clan war'' \<or> includesStr ?lq ''trophy'' \<or> includesStr ?lq ''push'' \<or>
           includesStr ?lq ''hybrid'')"
    using own_params_absent(6) [OF that]
    by (simp add: analyzeQuery_field_cases [of baseType] Let_def params_frame initial_params)
  have g: "resourceType ?ps = None"
    if "\<not> (includesStr ?lq ''gold'' \<or> includesStr ?lq ''elixir'' \<or> includesStr ?lq ''gem'')"
    using own_params_absent(7) [OF that]
    by (simp add: analyzeQuery_field_cases [of resourceType] Let_def params_frame initial_params)
  have h: "goal ?ps = None"
    if "\<not> (includesStr ?lq ''save'' \<or> includesStr ?lq ''store'' \<or> includesStr ?lq ''farm'' \<or>
           includesStr ?lq ''collect'' \<or> includesStr ?lq ''get'' \<or> includesStr ?lq ''spend'' \<or>
           includesStr ?lq ''use'')"
    using own_params_absent(8) [OF that]
    by (simp add: analyzeQuery_field_cases [of goal] Let_def params_frame initial_params)
  have th: "thMatch ?lq = None \<longrightarrow> townHallLevel ?ps = None"
    by (simp add: analyzeQuery_townHallLevel)
  show ?thesis
    unfolding Let_def
    using analyzeQuery_intent [of query] th analyzeQuery_townHallLevel(2) [of query]
      analyzeQuery_foreign_params [of query] a b c d e f g h
    by blast
qed

theorem analyzeQuery_cascade_witness:
  "intent (analyzeQuery ''hello there'') = ''general'' \<and>
   params (analyzeQuery ''hello there'') = emptyParams \<and>
   thMatch (toLowerCase ''hello there'') = None \<and>
   list_all (\<lambda>troop. \<not> includesStr (toLowerCase ''hello there'') troop) troops"
  using analyzeQuery_cascade [of "''hello there''"] by code_simp

text \<open>
  Claim C8, as stated: among the unit names present in the query, the one occurring
  first in the text becomes \<open>focusTroop\<close>. The source scans the list \<open>troops\<close> in its
  own order and stops at the first name the text includes, so for
  \<open>archer and barbarian attack\<close> it chooses \<open>barbarian\<close>, the first in the list,
  although \<open>archer\<close> comes first in the text.
\<close>

theorem focusTroop_first_in_text_counterexample:
  "intent (analyzeQuery ''archer and barbarian attack'') = ''attack_strategy'' \<and>
   focusTroop (params (analyzeQuery ''archer and barbarian attack'')) = Some ''barbarian'' \<and>
   focusUnit_spec (toLowerCase ''archer and barbarian attack'') troops = Some ''archer''"
  by code_simp

text \<open>
  Claim C8, amended. When the intent is attack-strategy, \<open>focusTroop\<close> is the first
  name of the list \<open>troops\<close>, in list order, that the lower-cased query includes, wherever
  in the text it occurs; it is absent when the query includes no name of the list.
\<close>

theorem focusTroop_first_in_list:
  assumes "intent (analyzeQuery query) = ''attack_strategy''"
  shows "(case focusTroop (params (analyzeQuery query)) of
            None \<Rightarrow> list_all (\<lambda>troop. \<not> includesStr (toLowerCase query) troop) troops
          | Some t \<Rightarrow>
              (\<exists>i<length troops. troops ! i = t \<and> includesStr (toLowerCase query) t \<and>
                 (\<forall>j<i. \<not> includesStr (toLowerCase query) (troops ! j))))"
proof -
  have eq: "focusTroop (params (analyzeQuery query)) = scanTroops (toLowerCase query) troops"
    by (rule analyzeQuery_attack_focusTroop [OF assms])
  show ?thesis
  proof (cases "scanTroops (toLowerCase query) troops")
    case None
    then have "list_all (\<lambda>troop. \<not> includesStr (toLowerCase query) troop) troops"
      by (simp add: scanTroops_None list_all_iff)
    then show ?thesis by (simp add: eq None)
  next
    case (Some t)
    then have "\<exists>i<length troops. troops ! i = t \<and> includesStr (toLowerCase query) t \<and>
                 (\<forall>j<i. \<not> includesStr (toLowerCase query) (troops ! j))"
      by (simp add: scanTroops_Some)
    then show ?thesis by (simp add: eq Some)
  qed
qed

theorem focusTroop_first_in_list_witness:
  "intent (analyzeQuery ''archer and barbarian attack'') = ''attack_strategy'' \<and>
   (\<exists>i<length troops. troops ! i = ''barbarian'' \<and>
      includesStr (toLowerCase ''archer and barbarian attack'') ''barbarian'' \<and>
      (\<forall>j<i. \<not> includesStr (toLowerCase ''archer and barbarian attack'') (troops ! j)))"
proof -
  have i: "intent (analyzeQuery ''archer and barbarian attack'') = ''attack_strategy''"
    by code_simp
  have f: "focusTroop (params (analyzeQuery ''archer and barbarian attack'')) = Some ''barbarian''"
    by code_simp
  show ?thesis
    using i focusTroop_first_in_list [OF i] by (simp add: f)
qed

section \<open>Properties of numbers\<close>

lemma maxValue_ge: "4 \<le> maxValue"
proof -
  have "(2::real) ^ 1024 = 2 ^ 971 * 2 ^ 53" by (simp add: power_add [symmetric])
  then have "maxValue = 2 ^ 971 * (2 ^ 53 - 1)" by (simp add: maxValue_def algebra_simps)
  moreover have "(1::real) \<le> 2 ^ 971" by simp
  moreover have "(4::real) \<le> 2 ^ 53 - 1" by simp
  ultimately show ?thesis
    using mult_mono [of 1 "2 ^ 971" 4 "2 ^ 53 - 1 :: real"] by simp
qed

lemma overflow_finite: "\<bar>x\<bar> \<le> maxValue \<Longrightarrow> overflow x = Num x"
  by (auto simp: overflow_def)

lemma overflow_small: "\<bar>x\<bar> \<le> 4 \<Longrightarrow> overflow x = Num x"
  using maxValue_ge by (intro overflow_finite) linarith

lemma overflow_not_NaN: "overflow x \<noteq> NaN"
  by (simp add: overflow_def)

lemma overflow_Num: "overflow x = Num y \<Longrightarrow> y = x \<and> \<bar>x\<bar> \<le> maxValue"
  by (auto simp: overflow_def split: if_splits)

lemma numGreater_overflow_0: "numGreater (overflow x) (Num 0) \<longleftrightarrow> x > 0"
  using maxValue_ge by (auto simp: overflow_def)

lemma isFiniteNumber_Num: "isFiniteNumber x \<longleftrightarrow> (\<exists>r. x = Num r \<and> \<bar>r\<bar> \<le> maxValue)"
  by (cases x) (simp_all add: isFiniteNumber_def)

lemma isFiniteNumber_numMax:
  "isFiniteNumber a \<Longrightarrow> isFiniteNumber b \<Longrightarrow> isFiniteNumber (numMax a b)"
  by (auto simp: isFiniteNumber_Num max_def)

lemma isFiniteNumber_0: "isFiniteNumber (Num 0)"
  using maxValue_ge by (simp add: isFiniteNumber_def)

section \<open>Properties of the similarity engine\<close>

lemma sumProducts_0: "sumProducts 0 xs ys = Num 0"
  by (simp add: sumProducts_def)

lemma sumProducts_Suc:
  "sumProducts (Suc n) xs ys =
     numAdd (sumProducts n xs ys) (numTimes (elemAt xs n) (elemAt ys n))"
  by (simp add: sumProducts_def)

lemma cosineSimilarity_unit: "cosineSimilarity [1, 0] [1, 0] = Num 1"
  by (simp add: cosineSimilarity_def sumProducts_0 sumProducts_Suc elemAt_def overflow_small)

lemma cosineSimilarity_short_1: "cosineSimilarity [1, 0] [1] = NaN"
  by (simp add: cosineSimilarity_def sumProducts_0 sumProducts_Suc elemAt_def overflow_small)

lemma cosineSimilarity_short_2: "cosineSimilarity [1] [1, 0] = Num 1"
  by (simp add: cosineSimilarity_def sumProducts_0 sumProducts_Suc elemAt_def overflow_small)

lemma cosinesNumeric_iff:
  "cosinesNumeric ds \<longleftrightarrow>
   (\<forall>a\<in>set ds. \<forall>b\<in>set ds. isFiniteNumber (cosineSimilarity (embedding a) (embedding b)))"
  by (simp add: cosinesNumeric_def list_all_iff)

lemma cs_step:
  fixes a b A B D :: real
  assumes "D\<^sup>2 \<le> A * B" and "0 \<le> A" and "0 \<le> B"
  shows "(D + a * b)\<^sup>2 \<le> (A + a * a) * (B + b * b)"
proof -
  have "(2 * (a * b) * D)\<^sup>2 = 4 * ((a * b)\<^sup>2) * D\<^sup>2"
    by (simp add: power2_eq_square algebra_simps)
  also have "\<dots> \<le> 4 * ((a * b)\<^sup>2) * (A * B)"
    using assms(1) by (intro mult_left_mono) simp_all
  also have "\<dots> \<le> 4 * ((a * b)\<^sup>2) * (A * B) + (A * (b * b) - (a * a) * B)\<^sup>2"
    by simp
  also have "\<dots> = (A * (b * b) + (a * a) * B)\<^sup>2"
    by (simp add: power2_eq_square algebra_simps)
  finally have "(2 * (a * b) * D)\<^sup>2 \<le> (A * (b * b) + (a * a) * B)\<^sup>2" .
  moreover have "0 \<le> A * (b * b) + (a * a) * B"
    using assms(2,3) by simp
  ultimately have "2 * (a * b) * D \<le> A * (b * b) + (a * a) * B"
    by (rule power2_le_imp_le)
  moreover have "(D + a * b)\<^sup>2 = D\<^sup>2 + 2 * (a * b) * D + (a * b) * (a * b)"
    by (simp add: power2_eq_square algebra_simps)
  moreover have "(A + a * a) * (B + b * b) =
                 A * B + (A * (b * b) + (a * a) * B) + (a * b) * (a * b)"
    by (simp add: algebra_simps)
  ultimately show ?thesis using assms(1) by linarith
qed

lemma dotUpTo_0: "dotUpTo 0 xs ys = 0"
  by (simp add: dotUpTo_def)

lemma dotUpTo_Suc: "dotUpTo (Suc n) xs ys = dotUpTo n xs ys + xs ! n * ys ! n"
  by (simp add: dotUpTo_def)

lemma dotUpTo_self_nonneg: "0 \<le> dotUpTo n xs xs"
  by (simp add: dotUpTo_def sum_nonneg)

lemma dotUpTo_self_mono: "k \<le> n \<Longrightarrow> dotUpTo k xs xs \<le> dotUpTo n xs xs"
  unfolding dotUpTo_def by (rule sum_mono2) auto

lemma cauchy_schwarz: "(dotUpTo n xs ys)\<^sup>2 \<le> dotUpTo n xs xs * dotUpTo n ys ys"
proof (induction n)
  case 0
  then show ?case by (simp add: dotUpTo_0)
next
  case (Suc n)
  then show ?case
    using cs_step [of "dotUpTo n xs ys" "dotUpTo n xs xs" "dotUpTo n ys ys" "xs ! n" "ys ! n"]
    by (simp add: dotUpTo_Suc dotUpTo_self_nonneg)
qed

lemma abs_dotUpTo:
  "\<bar>dotUpTo n xs ys\<bar> \<le> sqrt (dotUpTo n xs xs) * sqrt (dotUpTo n ys ys)"
proof -
  have "\<bar>dotUpTo n xs ys\<bar> = sqrt ((dotUpTo n xs ys)\<^sup>2)" by simp
  also have "\<dots> \<le> sqrt (dotUpTo n xs xs * dotUpTo n ys ys)"
    using cauchy_schwarz by (rule real_sqrt_le_mono)
  also have "\<dots> = sqrt (dotUpTo n xs xs) * sqrt (dotUpTo n ys ys)"
    by (rule real_sqrt_mult)
  finally show ?thesis .
qed

lemma sqrt_product_bound:
  fixes A B M :: real
  assumes "0 \<le> A" and "A \<le> M" and "0 \<le> B" and "B \<le> M"
  shows "sqrt A * sqrt B \<le> M"
proof -
  have "sqrt A \<le> sqrt M" and "sqrt B \<le> sqrt M" using assms by simp_all
  then have "sqrt A * sqrt B \<le> sqrt M * sqrt M"
    using assms(1,3) by (intro mult_mono) simp_all
  also have "\<dots> = M" using assms(1,2) by simp
  finally show ?thesis .
qed

lemma abs_dotUpTo_bound:
  assumes "k \<le> n" and "dotUpTo n xs xs \<le> M" and "dotUpTo n ys ys \<le> M"
  shows "\<bar>dotUpTo k xs ys\<bar> \<le> M"
proof -
  have "\<bar>dotUpTo k xs ys\<bar> \<le> sqrt (dotUpTo k xs xs) * sqrt (dotUpTo k ys ys)"
    by (rule abs_dotUpTo)
  also have "\<dots> \<le> M"
    using assms dotUpTo_self_mono [OF assms(1), of xs] dotUpTo_self_mono [OF assms(1), of ys]
    by (intro sqrt_product_bound) (simp_all add: dotUpTo_self_nonneg)
  finally show ?thesis .
qed

lemma abs_term_bound:
  assumes "i < n" and "dotUpTo n xs xs \<le> M" and "dotUpTo n ys ys \<le> M"
  shows "\<bar>xs ! i * ys ! i\<bar> \<le> M"
proof -
  have "xs ! i * ys ! i = dotUpTo (Suc i) xs ys - dotUpTo i xs ys"
    by (simp add: dotUpTo_Suc)
  have x: "xs ! i * xs ! i \<le> dotUpTo n xs xs"
  proof -
    have "xs ! i * xs ! i \<le> dotUpTo (Suc i) xs xs"
      using dotUpTo_self_nonneg [of i xs] by (simp add: dotUpTo_Suc)
    also have "\<dots> \<le> dotUpTo n xs xs" using assms(1) by (intro dotUpTo_self_mono) simp
    finally show ?thesis .
  qed
  have y: "ys ! i * ys ! i \<le> dotUpTo n ys ys"
  proof -
    have "ys ! i * ys ! i \<le> dotUpTo (Suc i) ys ys"
      using dotUpTo_self_nonneg [of i ys] by (simp add: dotUpTo_Suc)
    also have "\<dots> \<le> dotUpTo n ys ys" using assms(1) by (intro dotUpTo_self_mono) simp
    finally show ?thesis .
  qed
  have "\<bar>xs ! i * ys ! i\<bar> = sqrt (xs ! i * xs ! i) * sqrt (ys ! i * ys ! i)"
    by (simp add: abs_mult)
  also have "\<dots> \<le> M"
    using x y assms(2,3) by (intro sqrt_product_bound) simp_all
  finally show ?thesis .
qed

lemma sumProducts_exact:
  assumes "n \<le> length xs" and "n \<le> length ys"
    and "dotUpTo n xs xs \<le> maxValue" and "dotUpTo n ys ys \<le> maxValue"
  shows "k \<le> n \<Longrightarrow> sumProducts k xs ys = Num (dotUpTo k xs ys)"
proof (induction k)
  case 0
  then show ?case by (simp add: sumProducts_0 dotUpTo_0)
next
  case (Suc k)
  then have k: "k < n" by simp
  have t: "\<bar>xs ! k * ys ! k\<bar> \<le> maxValue"
    using k assms(3,4) by (rule abs_term_bound)
  have s: "\<bar>dotUpTo (Suc k) xs ys\<bar> \<le> maxValue"
    using Suc.prems assms(3,4) by (rule abs_dotUpTo_bound)
  have "sumProducts (Suc k) xs ys =
        numAdd (Num (dotUpTo k xs ys)) (numTimes (Num (xs ! k)) (Num (ys ! k)))"
    using Suc k assms(1,2) by (simp add: sumProducts_Suc elemAt_def)
  also have "\<dots> = overflow (dotUpTo k xs ys + xs ! k * ys ! k)"
    using t by (simp add: overflow_finite)
  also have "\<dots> = Num (dotUpTo (Suc k) xs ys)"
    using s by (simp add: dotUpTo_Suc overflow_finite)
  finally show ?case .
qed

lemma cosineSimilarity_finite:
  assumes "length a \<le> length b"
    and "dotUpTo (length a) a a \<le> maxValue" and "dotUpTo (length a) b b \<le> maxValue"
  shows "isFiniteNumber (cosineSimilarity a b)"
proof -
  let ?n = "length a"
  let ?A = "dotUpTo ?n a a" and ?B = "dotUpTo ?n b b" and ?D = "dotUpTo ?n a b"
  have d: "sumProducts ?n a b = Num ?D"
    using sumProducts_exact [of ?n a b ?n] assms by simp
  have ma: "sumProducts ?n a a = Num ?A"
    using sumProducts_exact [of ?n a a ?n] assms by simp
  have mb: "sumProducts ?n b b = Num ?B"
    using sumProducts_exact [of ?n b b ?n] assms by simp
  have nn: "0 \<le> ?A" "0 \<le> ?B" by (rule dotUpTo_self_nonneg)+
  show ?thesis
  proof (cases "sqrt ?A = 0 \<or> sqrt ?B = 0")
    case True
    then have "cosineSimilarity a b = Num 0"
      using nn by (auto simp: cosineSimilarity_def d ma mb Let_def)
    then show ?thesis by (simp add: isFiniteNumber_0)
  next
    case False
    define P where "P = sqrt ?A * sqrt ?B"
    have pos: "0 < P" using False nn by (simp add: P_def zero_less_mult_iff)
    have p: "\<bar>P\<bar> \<le> maxValue"
      using sqrt_product_bound [OF nn(1) assms(2) nn(2) assms(3)] pos by (simp add: P_def)
    have dp: "\<bar>?D\<bar> \<le> P" unfolding P_def by (rule abs_dotUpTo)
    have "\<bar>?D / P\<bar> = \<bar>?D\<bar> / P" using pos by (simp only: abs_divide abs_of_pos)
    also have "\<dots> \<le> 1" using dp pos by (simp only: divide_le_eq_1_pos)
    finally have q1: "\<bar>?D / P\<bar> \<le> 1" .
    then have q: "\<bar>?D / P\<bar> \<le> maxValue" using maxValue_ge by linarith
    have magA: "numSqrt (sumProducts ?n a a) = Num (sqrt ?A)" using nn(1) by (simp add: ma)
    have magB: "numSqrt (sumProducts ?n b b) = Num (sqrt ?B)" using nn(2) by (simp add: mb)
    have prod: "numTimes (Num (sqrt ?A)) (Num (sqrt ?B)) = Num P"
      using p by (simp add: overflow_finite P_def)
    have quot: "numDiv (Num ?D) (Num P) = Num (?D / P)"
      using pos q by (simp add: overflow_finite)
    have z: "\<not> (Num (sqrt ?A) = Num 0 \<or> Num (sqrt ?B) = Num 0)"
      using False by simp
    have "cosineSimilarity a b = Num (?D / P)"
      unfolding cosineSimilarity_def Let_def d magA magB
      by (simp only: z if_False prod quot)
    then show ?thesis using q by (simp add: isFiniteNumber_def)
  qed
qed

lemma dotUpTo_sumSquares: "dotUpTo (length v) v v = sumSquares v"
proof -
  have "sumSquares v = (\<Sum>i = 0..<length (map (\<lambda>x. x * x) v). map (\<lambda>x. x * x) v ! i)"
    unfolding sumSquares_def by (rule sum_list_sum_nth)
  also have "\<dots> = (\<Sum>i<length v. v ! i * v ! i)"
    by (simp add: atLeast0LessThan)
  finally show ?thesis by (simp add: dotUpTo_def)
qed

lemma cosinesNumeric_same_dimension:
  assumes "\<forall>d\<in>set ds. length (embedding d) = n \<and> sumSquares (embedding d) \<le> maxValue"
  shows "cosinesNumeric ds"
proof -
  have "isFiniteNumber (cosineSimilarity (embedding a) (embedding b))"
    if a: "a \<in> set ds" and b: "b \<in> set ds" for a b
  proof -
    have la: "length (embedding a) = n" and lb: "length (embedding b) = n"
      using assms a b by simp_all
    have "dotUpTo (length (embedding a)) (embedding a) (embedding a) \<le> maxValue"
      unfolding dotUpTo_sumSquares using assms a by simp
    moreover have "dotUpTo (length (embedding b)) (embedding b) (embedding b) \<le> maxValue"
      unfolding dotUpTo_sumSquares using assms b by simp
    then have "dotUpTo (length (embedding a)) (embedding b) (embedding b) \<le> maxValue"
      by (simp only: la lb)
    moreover have "length (embedding a) \<le> length (embedding b)" by (simp only: la lb)
    ultimately show ?thesis by (intro cosineSimilarity_finite)
  qed
  then show ?thesis by (simp add: cosinesNumeric_iff)
qed

section \<open>Properties of the similarity sort\<close>

lemma mset_insertBySimilarity:
  "mset (insertBySimilarity deref x xs) = add_mset x (mset xs)"
  by (induction xs) simp_all

lemma mset_sortBySimilarityWith: "mset (sortBySimilarityWith deref xs) = mset xs"
  by (induction xs) (simp_all add: sortBySimilarityWith_def mset_insertBySimilarity)

lemma set_sortBySimilarityWith: "set (sortBySimilarityWith deref xs) = set xs"
  using mset_sortBySimilarityWith [of deref xs] by (metis set_mset_mset)

lemma length_sortBySimilarityWith: "length (sortBySimilarityWith deref xs) = length xs"
  using mset_sortBySimilarityWith [of deref xs] by (metis size_mset)

lemma mset_sortBySimilarity: "mset (sortBySimilarity xs) = mset xs"
  by (simp add: sortBySimilarity_def mset_sortBySimilarityWith)

lemma set_sortBySimilarity: "set (sortBySimilarity xs) = set xs"
  by (simp add: sortBySimilarity_def set_sortBySimilarityWith)

lemma length_sortBySimilarity: "length (sortBySimilarity xs) = length xs"
  by (simp add: sortBySimilarity_def length_sortBySimilarityWith)

lemma sortBySimilarity_Nil: "sortBySimilarity [] = []"
  by (simp add: sortBySimilarity_def sortBySimilarityWith_def)

lemma sortBySimilarity_single: "sortBySimilarity [x] = [x]"
  by (simp add: sortBySimilarity_def sortBySimilarityWith_def)

lemma insertBySimilarity_map:
  "map f (insertBySimilarity (\<lambda>x. g (f x)) x xs) = insertBySimilarity g (f x) (map f xs)"
  by (induction xs) simp_all

lemma sortBySimilarityWith_map:
  "map f (sortBySimilarityWith (\<lambda>x. g (f x)) xs) = sortBySimilarityWith g (map f xs)"
  by (induction xs) (simp_all add: sortBySimilarityWith_def insertBySimilarity_map)

lemma hasNumericSimilarity_Num:
  "hasNumericSimilarity d \<Longrightarrow>
   similarity d = Some (Num (similarityValue d)) \<and> \<bar>similarityValue d\<bar> \<le> maxValue"
  by (auto simp: hasNumericSimilarity_def similarityValue_def isFiniteNumber_Num
      split: option.splits)

lemma similarityOf_numeric:
  "hasNumericSimilarity d \<Longrightarrow> similarityOf d = Num (similarityValue d)"
  by (simp add: similarityOf_def hasNumericSimilarity_Num)

lemma similarityOrder_numeric:
  "hasNumericSimilarity a \<Longrightarrow> hasNumericSimilarity b \<Longrightarrow>
   numGreater (similarityOrder a b) (Num 0) \<longleftrightarrow> similarityValue a < similarityValue b"
  by (simp add: similarityOrder_def similarityOf_numeric numGreater_overflow_0)

lemma descending_insertBySimilarity:
  assumes "hasNumericSimilarity x" and "\<forall>y\<in>set ys. hasNumericSimilarity y"
    and "descending ys"
  shows "descending (insertBySimilarity (\<lambda>d. d) x ys)"
  using assms(2,3)
proof (induction ys)
  case Nil
  then show ?case by (simp add: descending_def)
next
  case (Cons y ys)
  have o: "numGreater (similarityOrder x y) (Num 0) \<longleftrightarrow> similarityValue x < similarityValue y"
    using assms(1) Cons.prems(1) by (simp add: similarityOrder_numeric)
  show ?case
  proof (cases "similarityValue x < similarityValue y")
    case True
    have "descending (insertBySimilarity (\<lambda>d. d) x ys)"
      using Cons by (simp add: descending_def)
    moreover have "\<forall>z\<in>set (insertBySimilarity (\<lambda>d. d) x ys). similarityValue z \<le> similarityValue y"
    proof -
      have "set (insertBySimilarity (\<lambda>d. d) x ys) = insert x (set ys)"
        using mset_insertBySimilarity [of "\<lambda>d. d" x ys] by (metis set_mset_add_mset_insert set_mset_mset)
      then show ?thesis using True Cons.prems(2) by (auto simp: descending_def)
    qed
    ultimately show ?thesis using True o by (simp add: descending_def)
  next
    case False
    then have "\<forall>z\<in>set (y # ys). similarityValue z \<le> similarityValue x"
      using Cons.prems(2) by (auto simp: descending_def)
    then show ?thesis using False o Cons.prems(2) by (simp add: descending_def)
  qed
qed

lemma descending_sortBySimilarity:
  "\<forall>x\<in>set xs. hasNumericSimilarity x \<Longrightarrow> descending (sortBySimilarity xs)"
proof (induction xs)
  case Nil
  then show ?case by (simp add: sortBySimilarity_Nil descending_def)
next
  case (Cons x xs)
  have "sortBySimilarity (x # xs) = insertBySimilarity (\<lambda>d. d) x (sortBySimilarity xs)"
    by (simp add: sortBySimilarity_def sortBySimilarityWith_def)
  then show ?case
    using Cons descending_insertBySimilarity [of x "sortBySimilarity xs"]
    by (simp add: set_sortBySimilarity)
qed

section \<open>Properties of the diversity selector\<close>

lemma those_map_Some: "those (map Some xs) = Some xs"
  by (induction xs) simp_all

lemma those_append_None: "those (xs @ [None]) = None"
  by (induction xs) (simp_all split: option.splits)

lemma those_append_Some:
  "those xs = Some ys \<Longrightarrow> those (xs @ [Some x]) = Some (ys @ [x])"
  by (induction xs arbitrary: ys) (auto split: option.splits)

lemma definedEntries_append:
  "definedEntries (xs @ ys) = definedEntries xs @ definedEntries ys"
  by (induction xs rule: definedEntries.induct) simp_all

lemma definedEntries_map_Some: "definedEntries (map Some xs) = xs"
  by (induction xs) simp_all

lemma bestFrom_lt:
  "bestFrom score 0 (NegInf, None) ds = (s, Some k) \<Longrightarrow> k < length ds"
  using bestFrom_index [of score 0 "(NegInf, None)" ds s k] by simp

lemma mset_splice1:
  "i < length xs \<Longrightarrow> add_mset (xs ! i) (mset (splice1 i xs)) = mset xs"
proof -
  assume "i < length xs"
  then have "xs = take i xs @ xs ! i # drop (Suc i) xs" by (rule id_take_nth_drop)
  then have "mset xs = mset (take i xs @ xs ! i # drop (Suc i) xs)" by simp
  then show ?thesis by (simp add: splice1_def)
qed

lemma length_splice1: "i < length xs \<Longrightarrow> length (splice1 i xs) = length xs - 1"
  by (simp add: splice1_def)

lemma mset_butlast: "xs \<noteq> [] \<Longrightarrow> mset (butlast xs) \<subseteq># mset xs"
  by (induction xs) (auto intro: subset_mset.order_trans)

lemma mmrLoop_stop:
  "\<not> (length selected < topK \<and> remaining \<noteq> []) \<Longrightarrow>
   mmrLoop lambda topK selected remaining = Inr selected"
  by (subst mmrLoop.simps) auto

lemma mmrLoop_raise:
  "length selected < topK \<and> remaining \<noteq> [] \<Longrightarrow> those selected = None \<Longrightarrow>
   mmrLoop lambda topK selected remaining = Inl TypeError"
  by (subst mmrLoop.simps) simp

lemma mmrLoop_undefined:
  "length selected < topK \<and> remaining \<noteq> [] \<Longrightarrow> those selected = Some selectedDocs \<Longrightarrow>
   bestFrom (mmrScore lambda selectedDocs) 0 (NegInf, None) remaining = (s, None) \<Longrightarrow>
   mmrLoop lambda topK selected remaining =
     mmrLoop lambda topK (selected @ [None]) (butlast remaining)"
  by (subst mmrLoop.simps) simp

lemma mmrLoop_pick:
  "length selected < topK \<and> remaining \<noteq> [] \<Longrightarrow> those selected = Some selectedDocs \<Longrightarrow>
   bestFrom (mmrScore lambda selectedDocs) 0 (NegInf, None) remaining = (s, Some k) \<Longrightarrow>
   mmrLoop lambda topK selected remaining =
     mmrLoop lambda topK (selected @ [Some (remaining ! k)]) (splice1 k remaining)"
  by (subst mmrLoop.simps) simp

lemma mmrLoop_length:
  "mmrLoop lambda topK selected remaining = Inr result \<Longrightarrow> length selected \<le> topK \<Longrightarrow>
   length result = min topK (length selected + length remaining)"
proof (induction lambda topK selected remaining rule: mmrLoop.induct)
  case (1 lambda topK selected remaining)
  show ?case
  proof (cases "length selected < topK \<and> remaining \<noteq> []")
    case False
    then have "result = selected" using "1.prems"(1) by (simp add: mmrLoop_stop)
    then show ?thesis using False "1.prems"(2) by auto
  next
    case True
    show ?thesis
    proof (cases "those selected")
      case None
      then show ?thesis using True "1.prems"(1) by (simp add: mmrLoop_raise)
    next
      case (Some selectedDocs)
      obtain s found where b:
        "bestFrom (mmrScore lambda selectedDocs) 0 (NegInf, None) remaining = (s, found)"
        by (cases "bestFrom (mmrScore lambda selectedDocs) 0 (NegInf, None) remaining")
      show ?thesis
      proof (cases found)
        case None
        from b None have b': "bestFrom (mmrScore lambda selectedDocs) 0 (NegInf, None) remaining = (s, None)"
          by simp
        have r: "mmrLoop lambda topK (selected @ [None]) (butlast remaining) = Inr result"
          using "1.prems"(1) mmrLoop_undefined [OF True Some b'] by simp
        have "length result = min topK (length (selected @ [None]) + length (butlast remaining))"
          using "1.IH"(1) [OF True Some b [symmetric] None r] True by simp
        then show ?thesis using True by (cases remaining) auto
      next
        case (Some k)
        from b Some have b': "bestFrom (mmrScore lambda selectedDocs) 0 (NegInf, None) remaining = (s, Some k)"
          by simp
        then have k: "k < length remaining" by (rule bestFrom_lt)
        have r: "mmrLoop lambda topK (selected @ [Some (remaining ! k)]) (splice1 k remaining)
                 = Inr result"
          using "1.prems"(1) mmrLoop_pick [OF True \<open>those selected = Some selectedDocs\<close> b'] by simp
        have "length result = min topK (length (selected @ [Some (remaining ! k)]) +
                 length (splice1 k remaining))"
          using "1.IH"(2) [OF True \<open>those selected = Some selectedDocs\<close> b [symmetric] Some r] True
          by simp
        then show ?thesis using k by (simp add: length_splice1)
      qed
    qed
  qed
qed

lemma mmrLoop_defined_mset:
  "mmrLoop lambda topK selected remaining = Inr result \<Longrightarrow>
   mset (definedEntries result) \<subseteq># mset (definedEntries selected) + mset remaining"
proof (induction lambda topK selected remaining rule: mmrLoop.induct)
  case (1 lambda topK selected remaining)
  show ?case
  proof (cases "length selected < topK \<and> remaining \<noteq> []")
    case False
    then have "result = selected" using "1.prems"(1) by (simp add: mmrLoop_stop)
    then show ?thesis by simp
  next
    case True
    show ?thesis
    proof (cases "those selected")
      case None
      then show ?thesis using True "1.prems"(1) by (simp add: mmrLoop_raise)
    next
      case (Some selectedDocs)
      obtain s found where b:
        "bestFrom (mmrScore lambda selectedDocs) 0 (NegInf, None) remaining = (s, found)"
        by (cases "bestFrom (mmrScore lambda selectedDocs) 0 (NegInf, None) remaining")
      show ?thesis
      proof (cases found)
        case None
        from b None have b': "bestFrom (mmrScore lambda selectedDocs) 0 (NegInf, None) remaining = (s, None)"
          by simp
        have r: "mmrLoop lambda topK (selected @ [None]) (butlast remaining) = Inr result"
          using "1.prems"(1) mmrLoop_undefined [OF True Some b'] by simp
        have "mset (definedEntries result)
                \<subseteq># mset (definedEntries (selected @ [None])) + mset (butlast remaining)"
          using "1.IH"(1) [OF True Some b [symmetric] None r] .
        also have "\<dots> \<subseteq># mset (definedEntries selected) + mset remaining"
          using True mset_butlast [of remaining] by (simp add: definedEntries_append)
        finally show ?thesis .
      next
        case (Some k)
        from b Some have b': "bestFrom (mmrScore lambda selectedDocs) 0 (NegInf, None) remaining = (s, Some k)"
          by simp
        then have k: "k < length remaining" by (rule bestFrom_lt)
        have r: "mmrLoop lambda topK (selected @ [Some (remaining ! k)]) (splice1 k remaining)
                 = Inr result"
          using "1.prems"(1) mmrLoop_pick [OF True \<open>those selected = Some selectedDocs\<close> b'] by simp
        have "mset (definedEntries result)
                \<subseteq># mset (definedEntries (selected @ [Some (remaining ! k)])) +
                    mset (splice1 k remaining)"
          using "1.IH"(2) [OF True \<open>those selected = Some selectedDocs\<close> b [symmetric] Some r] .
        also have "\<dots> = mset (definedEntries selected) + mset remaining"
          using mset_splice1 [OF k] by (simp add: definedEntries_append)
        finally show ?thesis .
      qed
    qed
  qed
qed

lemma foldl_numMax_finite:
  "isFiniteNumber m \<Longrightarrow> \<forall>s\<in>set selected. isFiniteNumber (f s) \<Longrightarrow>
   isFiniteNumber (foldl (\<lambda>m s. numMax m (f s)) m selected)"
  by (induction selected arbitrary: m) (simp_all add: isFiniteNumber_numMax)

lemma maxSimilarityToSelected_finite:
  "\<forall>s\<in>set selected. isFiniteNumber (cosineSimilarity (embedding d) (embedding s)) \<Longrightarrow>
   isFiniteNumber (maxSimilarityToSelected d selected)"
  unfolding maxSimilarityToSelected_def
  by (rule foldl_numMax_finite) (simp_all add: isFiniteNumber_0)

lemma abs_scaled:
  fixes l x M :: real
  assumes "0 \<le> l" and "l \<le> 1" and "\<bar>x\<bar> \<le> M"
  shows "\<bar>l * x\<bar> \<le> l * M" and "\<bar>l * x\<bar> \<le> M"
proof -
  have "\<bar>l * x\<bar> = l * \<bar>x\<bar>" using assms(1) by (simp add: abs_mult)
  also have "\<dots> \<le> l * M" using assms(1,3) by (rule mult_left_mono [rotated])
  finally show a: "\<bar>l * x\<bar> \<le> l * M" .
  have "0 \<le> M" using assms(3) by linarith
  then have "l * M \<le> 1 * M" using assms(2) by (intro mult_right_mono)
  with a show "\<bar>l * x\<bar> \<le> M" by simp
qed

lemma mmrScore_numeric:
  assumes "0 \<le> lambda" and "lambda \<le> 1" and "hasNumericSimilarity d"
    and "isFiniteNumber (maxSimilarityToSelected d selected)"
  shows "\<exists>r. mmrScore lambda selected d = Num r"
proof -
  obtain m where m: "maxSimilarityToSelected d selected = Num m" and mb: "\<bar>m\<bar> \<le> maxValue"
    using assms(4) by (auto simp: isFiniteNumber_Num)
  let ?s = "similarityValue d"
  have s: "similarityOf d = Num ?s" and sb: "\<bar>?s\<bar> \<le> maxValue"
    using assms(3) by (simp_all add: similarityOf_numeric hasNumericSimilarity_Num)
  have l1: "0 \<le> 1 - lambda" "1 - lambda \<le> 1" using assms(1,2) by simp_all
  have a: "\<bar>lambda * ?s\<bar> \<le> lambda * maxValue" "\<bar>lambda * ?s\<bar> \<le> maxValue"
    using abs_scaled [OF assms(1,2) sb] by simp_all
  have b: "\<bar>(1 - lambda) * m\<bar> \<le> (1 - lambda) * maxValue" "\<bar>(1 - lambda) * m\<bar> \<le> maxValue"
    using abs_scaled [OF l1 mb] by simp_all
  have c: "\<bar>1 - lambda\<bar> \<le> maxValue" using l1 maxValue_ge by linarith
  have "\<bar>lambda * ?s - (1 - lambda) * m\<bar> \<le> lambda * maxValue + (1 - lambda) * maxValue"
    using a(1) b(1) by linarith
  also have "\<dots> = maxValue" by (simp add: algebra_simps)
  finally have d: "\<bar>lambda * ?s - (1 - lambda) * m\<bar> \<le> maxValue" .
  have "mmrScore lambda selected d = Num (lambda * ?s - (1 - lambda) * m)"
    by (simp add: mmrScore_def s m overflow_finite a(2) b(2) c d)
  then show ?thesis by blast
qed

lemma mmrScore_lambda_1:
  assumes "hasNumericSimilarity d"
    and "isFiniteNumber (maxSimilarityToSelected d selected)"
  shows "mmrScore 1 selected d = Num (similarityValue d)"
proof -
  obtain m where m: "maxSimilarityToSelected d selected = Num m"
    using assms(2) by (auto simp: isFiniteNumber_Num)
  have s: "similarityOf d = Num (similarityValue d)"
    and sb: "\<bar>similarityValue d\<bar> \<le> maxValue"
    using assms(1) by (simp_all add: similarityOf_numeric hasNumericSimilarity_Num)
  have z: "overflow 0 = Num 0" by (simp add: overflow_small)
  show ?thesis
    by (simp add: mmrScore_def s m z overflow_finite sb)
qed

lemma bestFrom_found:
  "\<exists>s k. bestFrom score i (b, Some j) ds = (s, Some k)"
  by (induction ds arbitrary: i b j) auto

lemma bestFrom_numeric:
  assumes "ds \<noteq> []" and "\<forall>d\<in>set ds. \<exists>r. score d = Num r"
  shows "\<exists>s k. bestFrom score 0 (NegInf, None) ds = (s, Some k)"
proof -
  obtain d ds' where ds: "ds = d # ds'" using assms(1) by (cases ds) auto
  obtain r where r: "score d = Num r" using assms(2) ds by auto
  show ?thesis
    using bestFrom_found [of score "Suc 0" "Num r" 0 ds'] by (simp add: ds r)
qed

lemma those_Some_map: "those xs = Some ys \<Longrightarrow> xs = map Some ys"
  by (induction xs arbitrary: ys) (auto split: option.splits)

lemma set_splice1: "set (splice1 k xs) \<subseteq> set xs"
  by (auto simp: splice1_def dest: in_set_takeD in_set_dropD)

lemma mmrLoop_numeric:
  "0 \<le> lambda \<Longrightarrow> lambda \<le> 1 \<Longrightarrow> those selected = Some sel \<Longrightarrow>
   \<forall>d\<in>set remaining. hasNumericSimilarity d \<and>
      (\<forall>s\<in>set sel \<union> set remaining.
         isFiniteNumber (cosineSimilarity (embedding d) (embedding s))) \<Longrightarrow>
   \<exists>docs. mmrLoop lambda topK selected remaining = Inr (map Some docs)"
proof (induction lambda topK selected remaining arbitrary: sel rule: mmrLoop.induct)
  case (1 lambda topK selected remaining)
  note lam = "1.prems"(1,2) and sel = "1.prems"(3) and num = "1.prems"(4)
  show ?case
  proof (cases "length selected < topK \<and> remaining \<noteq> []")
    case False
    then have "mmrLoop lambda topK selected remaining = Inr (map Some sel)"
      using those_Some_map [OF sel] by (simp add: mmrLoop_stop)
    then show ?thesis by blast
  next
    case True
    have "\<forall>d\<in>set remaining. \<exists>r. mmrScore lambda sel d = Num r"
    proof
      fix d assume d: "d \<in> set remaining"
      have "isFiniteNumber (maxSimilarityToSelected d sel)"
        using num d by (intro maxSimilarityToSelected_finite) auto
      then show "\<exists>r. mmrScore lambda sel d = Num r"
        using lam num d by (intro mmrScore_numeric) auto
    qed
    then obtain s k where b: "bestFrom (mmrScore lambda sel) 0 (NegInf, None) remaining = (s, Some k)"
      using True bestFrom_numeric [of remaining "mmrScore lambda sel"] by blast
    then have k: "k < length remaining" by (rule bestFrom_lt)
    have step: "mmrLoop lambda topK selected remaining =
                mmrLoop lambda topK (selected @ [Some (remaining ! k)]) (splice1 k remaining)"
      using True sel b by (rule mmrLoop_pick)
    have t: "those (selected @ [Some (remaining ! k)]) = Some (sel @ [remaining ! k])"
      using sel by (rule those_append_Some)
    have sub: "set (splice1 k remaining) \<subseteq> set remaining"
      by (rule set_splice1)
    have mem: "remaining ! k \<in> set remaining" using k by simp
    have inv: "\<forall>d\<in>set (splice1 k remaining). hasNumericSimilarity d \<and>
      (\<forall>s\<in>set (sel @ [remaining ! k]) \<union> set (splice1 k remaining).
         isFiniteNumber (cosineSimilarity (embedding d) (embedding s)))"
      using num sub mem by auto
    have "\<exists>docs. mmrLoop lambda topK (selected @ [Some (remaining ! k)]) (splice1 k remaining)
            = Inr (map Some docs)"
      using "1.IH"(2) [OF True sel b [symmetric] refl lam t inv] .
    then show ?thesis by (simp add: step)
  qed
qed

lemma applyMMR_numeric:
  assumes "1 \<le> topK" and "0 \<le> lambda" and "lambda \<le> 1"
    and "list_all hasNumericSimilarity candidates"
    and "cosinesNumeric candidates"
  shows "\<exists>docs. applyMMR candidates qe topK lambda = Inr (map Some docs) \<and>
           length docs = min topK (length candidates) \<and> mset docs \<subseteq># mset candidates"
proof (cases "length candidates \<le> topK")
  case True
  then have "applyMMR candidates qe topK lambda = Inr (map Some candidates)"
    by (simp add: applyMMR_def)
  then show ?thesis using True by auto
next
  case False
  then obtain first remaining where sorted: "sortBySimilarity candidates = first # remaining"
    using length_sortBySimilarity [of candidates] by (cases "sortBySimilarity candidates") auto
  have sets: "set (first # remaining) = set candidates"
    using set_sortBySimilarity [of candidates] by (simp add: sorted)
  have inv: "\<forall>d\<in>set remaining. hasNumericSimilarity d \<and>
      (\<forall>s\<in>set [first] \<union> set remaining.
         isFiniteNumber (cosineSimilarity (embedding d) (embedding s)))"
    using assms(4,5) sets by (auto simp: cosinesNumeric_iff list_all_iff)
  have "those [Some first] = Some [first]" by simp
  from mmrLoop_numeric [OF assms(2,3) this inv]
  obtain docs where docs: "mmrLoop lambda topK [Some first] remaining = Inr (map Some docs)"
    by blast
  have "length (map Some docs) = min topK (length [Some first] + length remaining)"
    using docs assms(1) by (intro mmrLoop_length [of lambda]) simp_all
  then have len: "length docs = min topK (length candidates)"
    using length_sortBySimilarity [of candidates] by (simp add: sorted)
  have "mset (definedEntries (map Some docs)) \<subseteq># mset (definedEntries [Some first]) + mset remaining"
    using docs by (rule mmrLoop_defined_mset)
  also have "\<dots> = mset (sortBySimilarity candidates)" by (simp add: sorted)
  finally have sub: "mset docs \<subseteq># mset candidates"
    by (simp add: definedEntries_map_Some mset_sortBySimilarity)
  have "applyMMR candidates qe topK lambda = Inr (map Some docs)"
    using False by (simp add: applyMMR_def sorted docs)
  then show ?thesis using len sub by blast
qed

lemma bestFrom_keeps:
  "\<forall>x\<in>set ds. \<not> numGreater (score x) b \<Longrightarrow> bestFrom score i (b, j) ds = (b, j)"
  by (induction ds arbitrary: i) auto

lemma bestFrom_descending_head:
  assumes "\<forall>x\<in>set (d # ds). score x = Num (similarityValue x)"
    and "descending (d # ds)"
  shows "bestFrom score 0 (NegInf, None) (d # ds) = (Num (similarityValue d), Some 0)"
proof -
  have "\<forall>x\<in>set ds. \<not> numGreater (score x) (Num (similarityValue d))"
    using assms by (auto simp: descending_def)
  then show ?thesis using assms(1) by (simp add: bestFrom_keeps)
qed

lemma mmrLoop_lambda_1:
  "those selected = Some sel \<Longrightarrow> descending remaining \<Longrightarrow>
   \<forall>d\<in>set remaining. hasNumericSimilarity d \<and>
      (\<forall>s\<in>set sel \<union> set remaining.
         isFiniteNumber (cosineSimilarity (embedding d) (embedding s))) \<Longrightarrow>
   mmrLoop 1 topK selected remaining =
     Inr (selected @ map Some (take (topK - length selected) remaining))"
proof (induction remaining arbitrary: selected sel)
  case Nil
  then show ?case by (simp add: mmrLoop_stop)
next
  case (Cons d ds)
  show ?case
  proof (cases "length selected < topK")
    case False
    then show ?thesis by (simp add: mmrLoop_stop)
  next
    case True
    then have cond: "length selected < topK \<and> d # ds \<noteq> []" by simp
    have score: "\<forall>x\<in>set (d # ds). mmrScore 1 sel x = Num (similarityValue x)"
    proof
      fix x assume x: "x \<in> set (d # ds)"
      have "isFiniteNumber (maxSimilarityToSelected x sel)"
        using Cons.prems(3) x by (intro maxSimilarityToSelected_finite) auto
      then show "mmrScore 1 sel x = Num (similarityValue x)"
        using Cons.prems(3) x by (intro mmrScore_lambda_1) auto
    qed
    have best: "bestFrom (mmrScore 1 sel) 0 (NegInf, None) (d # ds) =
                (Num (similarityValue d), Some 0)"
      using score Cons.prems(2) by (rule bestFrom_descending_head)
    have step: "mmrLoop 1 topK selected (d # ds) = mmrLoop 1 topK (selected @ [Some d]) ds"
      using mmrLoop_pick [OF cond Cons.prems(1) best] by (simp add: splice1_def)
    have t: "those (selected @ [Some d]) = Some (sel @ [d])"
      using Cons.prems(1) by (rule those_append_Some)
    have desc: "descending ds" using Cons.prems(2) by (simp add: descending_def)
    have inv: "\<forall>x\<in>set ds. hasNumericSimilarity x \<and>
      (\<forall>s\<in>set (sel @ [d]) \<union> set ds.
         isFiniteNumber (cosineSimilarity (embedding x) (embedding s)))"
      using Cons.prems(3) by auto
    have "mmrLoop 1 topK (selected @ [Some d]) ds =
          Inr ((selected @ [Some d]) @ map Some (take (topK - length (selected @ [Some d])) ds))"
      using t desc inv by (rule Cons.IH)
    also have "(selected @ [Some d]) @ map Some (take (topK - length (selected @ [Some d])) ds) =
               selected @ map Some (take (topK - length selected) (d # ds))"
    proof -
      from True obtain n where n: "topK - length selected = Suc n"
        by (cases "topK - length selected") auto
      then have "topK - Suc (length selected) = n" by arith
      then show ?thesis by (simp add: n)
    qed
    finally show ?thesis by (simp only: step)
  qed
qed

lemma applyMMR_at_lambda_one:
  assumes "1 \<le> topK" and "topK < length candidates"
    and "list_all hasNumericSimilarity candidates"
    and "cosinesNumeric candidates"
  shows "applyMMR candidates qe topK 1 = Inr (map Some (topKBySimilarity topK candidates))"
proof -
  obtain first remaining where sorted: "sortBySimilarity candidates = first # remaining"
    using assms(2) length_sortBySimilarity [of candidates]
    by (cases "sortBySimilarity candidates") auto
  have sets: "set (first # remaining) = set candidates"
    using set_sortBySimilarity [of candidates] by (simp add: sorted)
  have inv: "\<forall>d\<in>set remaining. hasNumericSimilarity d \<and>
      (\<forall>s\<in>set [first] \<union> set remaining.
         isFiniteNumber (cosineSimilarity (embedding d) (embedding s)))"
    using assms(3,4) sets by (auto simp: cosinesNumeric_iff list_all_iff)
  have "descending (first # remaining)"
    using descending_sortBySimilarity [of candidates] assms(3)
    by (simp add: sorted list_all_iff)
  then have desc: "descending remaining" by (simp add: descending_def)
  have t: "those [Some first] = Some [first]" by simp
  have "mmrLoop 1 topK [Some first] remaining =
        Inr ([Some first] @ map Some (take (topK - length [Some first]) remaining))"
    using t desc inv by (rule mmrLoop_lambda_1)
  also have "[Some first] @ map Some (take (topK - length [Some first]) remaining) =
             map Some (take topK (first # remaining))"
    using assms(1) by (cases topK) auto
  finally show ?thesis
    using assms(2) by (simp add: applyMMR_def topKBySimilarity_def sorted)
qed

lemma similarityOrder_example [simp]:
  "similarityOrder (exampleDoc i c ty (Some (Num a))) (exampleDoc j e tz (Some (Num b)))
     = overflow (b - a)"
  "similarityOrder shortDoc (exampleDoc j e tz (Some (Num b))) = overflow (b - 1)"
  "similarityOrder (exampleDoc i c ty (Some (Num a))) shortDoc = overflow (1 - a)"
  by (simp_all add: similarityOrder_def similarityOf_def exampleDoc_def shortDoc_def)

lemma sort_short_3:
  "sortBySimilarity
     [shortDoc, exampleDoc ''b'' ''x'' None (Some (Num 0)),
      exampleDoc ''c'' ''x'' None (Some (Num 0))]
   = [shortDoc, exampleDoc ''b'' ''x'' None (Some (Num 0)),
      exampleDoc ''c'' ''x'' None (Some (Num 0))]"
  by (simp add: sortBySimilarity_def sortBySimilarityWith_def overflow_small)

lemma sort_short_4:
  "sortBySimilarity
     [shortDoc, exampleDoc ''b'' ''x'' None (Some (Num 0)),
      exampleDoc ''c'' ''x'' None (Some (Num 0)), exampleDoc ''d'' ''x'' None (Some (Num 0))]
   = [shortDoc, exampleDoc ''b'' ''x'' None (Some (Num 0)),
      exampleDoc ''c'' ''x'' None (Some (Num 0)), exampleDoc ''d'' ''x'' None (Some (Num 0))]"
  by (simp add: sortBySimilarity_def sortBySimilarityWith_def overflow_small)

lemma numTimes_NaN: "numTimes a NaN = NaN"
  by (cases a) simp_all

lemma numMinus_NaN: "numMinus a NaN = NaN"
  by (cases a) simp_all

lemma mmrScore_short:
  "mmrScore lambda [shortDoc] (exampleDoc i c ty s) = NaN"
proof -
  have "maxSimilarityToSelected (exampleDoc i c ty s) [shortDoc] = NaN"
    by (simp add: maxSimilarityToSelected_def exampleDoc_def shortDoc_def
        cosineSimilarity_short_1)
  then show ?thesis by (simp add: mmrScore_def numTimes_NaN numMinus_NaN)
qed

lemma bestFrom_all_NaN:
  "\<forall>d\<in>set ds. score d = NaN \<Longrightarrow> bestFrom score i (b, j) ds = (b, j)"
  by (rule bestFrom_keeps) simp

lemma mmrLoop_short_2:
  "mmrLoop lambda 2 [Some shortDoc]
     [exampleDoc ''b'' ''x'' None (Some (Num 0)), exampleDoc ''c'' ''x'' None (Some (Num 0))]
   = Inr [Some shortDoc, None]"
proof -
  let ?rem = "[exampleDoc ''b'' ''x'' None (Some (Num 0)), exampleDoc ''c'' ''x'' None (Some (Num 0))]"
  have b: "bestFrom (mmrScore lambda [shortDoc]) 0 (NegInf, None) ?rem = (NegInf, None)"
    by (rule bestFrom_all_NaN) (simp add: mmrScore_short)
  have "mmrLoop lambda 2 [Some shortDoc] ?rem =
        mmrLoop lambda 2 ([Some shortDoc] @ [None]) (butlast ?rem)"
    by (rule mmrLoop_undefined [OF _ _ b]) simp_all
  also have "\<dots> = Inr [Some shortDoc, None]"
    by (simp add: mmrLoop_stop)
  finally show ?thesis .
qed

lemma mmrLoop_short_3:
  "mmrLoop lambda 3 [Some shortDoc]
     [exampleDoc ''b'' ''x'' None (Some (Num 0)), exampleDoc ''c'' ''x'' None (Some (Num 0)),
      exampleDoc ''d'' ''x'' None (Some (Num 0))]
   = Inl TypeError"
proof -
  let ?rem = "[exampleDoc ''b'' ''x'' None (Some (Num 0)), exampleDoc ''c'' ''x'' None (Some (Num 0)),
               exampleDoc ''d'' ''x'' None (Some (Num 0))]"
  have b: "bestFrom (mmrScore lambda [shortDoc]) 0 (NegInf, None) ?rem = (NegInf, None)"
    by (rule bestFrom_all_NaN) (simp add: mmrScore_short)
  have "mmrLoop lambda 3 [Some shortDoc] ?rem =
        mmrLoop lambda 3 ([Some shortDoc] @ [None]) (butlast ?rem)"
    by (rule mmrLoop_undefined [OF _ _ b]) simp_all
  also have "\<dots> = Inl TypeError"
    by (rule mmrLoop_raise) simp_all
  finally show ?thesis .
qed

lemma example_numeric:
  "hasNumericSimilarity (exampleDoc i c ty (Some (Num 0)))"
  "hasNumericSimilarity (exampleDoc i c ty (Some (Num 1)))"
  using maxValue_ge
  by (simp_all add: hasNumericSimilarity_def isFiniteNumber_def exampleDoc_def)

lemma example_cosine:
  "isFiniteNumber (cosineSimilarity (embedding (exampleDoc i c ty s))
     (embedding (exampleDoc j e tz t)))"
  using maxValue_ge
  by (simp add: exampleDoc_def cosineSimilarity_unit isFiniteNumber_def)

text \<open>
  Claim C4, as stated, for every list of candidates that carry a numeric similarity and
  an embedding: it fails where the embeddings differ in length. The first candidate
  below has a one-dimensional embedding and the highest similarity, the others have
  two dimensions. Every cosine against the selected first candidate reads beyond the
  end of its embedding and is \<open>NaN\<close>, so is every score, \<open>bestIndex\<close> stays \<open>-1\<close>, and
  the selector pushes \<open>remaining[-1]\<close>: with \<open>K = 2\<close> it returns the first candidate
  and \<open>undefined\<close>, which is no candidate; with \<open>K = 3\<close> and four candidates the next
  round reads \<open>embedding\<close> of that \<open>undefined\<close> and the call raises \<open>TypeError\<close>.
\<close>

theorem applyMMR_undefined_entry_counterexample:
  "applyMMR
     [shortDoc, exampleDoc ''b'' ''x'' None (Some (Num 0)),
      exampleDoc ''c'' ''x'' None (Some (Num 0))] [1, 0] 2 (7 / 10)
   = Inr [Some shortDoc, None] \<and>
   applyMMR
     [shortDoc, exampleDoc ''b'' ''x'' None (Some (Num 0)),
      exampleDoc ''c'' ''x'' None (Some (Num 0)), exampleDoc ''d'' ''x'' None (Some (Num 0))]
     [1, 0] 3 (7 / 10)
   = Inl TypeError"
  by (simp add: applyMMR_def sort_short_3 sort_short_4 mmrLoop_short_2 mmrLoop_short_3)

text \<open>
  Claim C4, amended. For every candidate list in which each candidate carries a finite
  numeric similarity and the cosine similarity of every two candidate embeddings is a
  finite number (as when all embeddings have one dimension and no sum of squares
  overflows, by \<open>cosinesNumeric_same_dimension\<close>), every query embedding, every
  \<open>K \<ge> 1\<close> and every \<open>\<lambda>\<close> in \<open>[0, 1]\<close>,
  \<open>applyMMR\<close> returns without raising exactly \<open>min K (length candidates)\<close> entries, all
  of them documents, and they are candidates: as a multiset the result is contained in
  the input, so no candidate is returned more often than it was given.
\<close>

theorem applyMMR_size_and_subset:
  assumes "1 \<le> topK" and "0 \<le> lambda" and "lambda \<le> 1"
    and "list_all hasNumericSimilarity candidates"
    and "cosinesNumeric candidates"
  shows "\<exists>docs. applyMMR candidates queryEmbedding topK lambda = Inr (map Some docs) \<and>
           length docs = min topK (length candidates) \<and>
           mset docs \<subseteq># mset candidates \<and>
           set docs \<subseteq> set candidates"
proof -
  obtain docs where d: "applyMMR candidates queryEmbedding topK lambda = Inr (map Some docs)"
    "length docs = min topK (length candidates)" "mset docs \<subseteq># mset candidates"
    using applyMMR_numeric [OF assms] by blast
  from d(3) have "set docs \<subseteq> set candidates"
    using set_mset_mono by fastforce
  with d show ?thesis by blast
qed

theorem applyMMR_size_and_subset_witness:
  "\<exists>docs. applyMMR
     [exampleDoc ''a'' ''x'' None (Some (Num 0)), exampleDoc ''b'' ''x'' None (Some (Num 1)),
      exampleDoc ''c'' ''x'' None (Some (Num 0))] [1, 0] 2 (7 / 10) = Inr (map Some docs) \<and>
     length docs = 2"
proof -
  let ?cs = "[exampleDoc ''a'' ''x'' None (Some (Num 0)), exampleDoc ''b'' ''x'' None (Some (Num 1)),
              exampleDoc ''c'' ''x'' None (Some (Num 0))]"
  have h: "list_all hasNumericSimilarity ?cs" by (simp add: example_numeric)
  have c: "cosinesNumeric ?cs" by (simp add: cosinesNumeric_def example_cosine)
  show ?thesis
    using applyMMR_size_and_subset [of 2 "7 / 10" ?cs "[1, 0]", OF _ _ _ h c] by auto
qed

text \<open>
  Claim C6, as stated, for any candidate list with more than K members: it fails where
  the embeddings differ in length. With \<open>\<lambda> = 1\<close> the score is
  \<open>1 * similarity - 0 * maxSimilarityToSelected\<close>, and \<open>0 * NaN\<close> is \<open>NaN\<close>: the penalty
  does not vanish. For the three candidates below and \<open>K = 2\<close> the selector returns the
  first candidate and \<open>undefined\<close>, while the top 2 by similarity are the first and the
  second candidate.
\<close>

theorem applyMMR_lambda_1_counterexample:
  "applyMMR
     [shortDoc, exampleDoc ''b'' ''x'' None (Some (Num 0)),
      exampleDoc ''c'' ''x'' None (Some (Num 0))] [1, 0] 2 1
   = Inr [Some shortDoc, None] \<and>
   topKBySimilarity 2
     [shortDoc, exampleDoc ''b'' ''x'' None (Some (Num 0)),
      exampleDoc ''c'' ''x'' None (Some (Num 0))]
   = [shortDoc, exampleDoc ''b'' ''x'' None (Some (Num 0))]"
  by (simp add: applyMMR_def topKBySimilarity_def sort_short_3 mmrLoop_short_2)

text \<open>
  Claim C6, amended. With \<open>\<lambda> = 1\<close> and \<open>K \<ge> 1\<close>, over any list of more than K
  candidates in which each candidate carries a finite numeric similarity and the cosine
  similarity of every two candidate embeddings is a finite number (as when all
  embeddings have one dimension and no sum of squares overflows), \<open>applyMMR\<close> returns
  the top K by similarity, in the same order and with ties resolved the same way (the
  stable descending sort, first K kept).
\<close>

theorem applyMMR_lambda_1_is_topK:
  assumes "1 \<le> topK" and "topK < length candidates"
    and "list_all hasNumericSimilarity candidates"
    and "cosinesNumeric candidates"
  shows "applyMMR candidates queryEmbedding topK 1 =
           Inr (map Some (topKBySimilarity topK candidates))"
  using assms by (rule applyMMR_at_lambda_one)

theorem applyMMR_lambda_1_is_topK_witness:
  "applyMMR
     [exampleDoc ''a'' ''x'' None (Some (Num 0)), exampleDoc ''b'' ''x'' None (Some (Num 1)),
      exampleDoc ''c'' ''x'' None (Some (Num 1))] [1, 0] 2 1
   = Inr [Some (exampleDoc ''b'' ''x'' None (Some (Num 1))),
          Some (exampleDoc ''c'' ''x'' None (Some (Num 1)))]"
proof -
  let ?cs = "[exampleDoc ''a'' ''x'' None (Some (Num 0)), exampleDoc ''b'' ''x'' None (Some (Num 1)),
              exampleDoc ''c'' ''x'' None (Some (Num 1))]"
  have h: "list_all hasNumericSimilarity ?cs" by (simp add: example_numeric)
  have c: "cosinesNumeric ?cs" by (simp add: cosinesNumeric_def example_cosine)
  have "applyMMR ?cs [1, 0] 2 1 = Inr (map Some (topKBySimilarity 2 ?cs))"
    using applyMMR_lambda_1_is_topK [of 2 ?cs "[1, 0]", OF _ _ h c] by simp
  then show ?thesis
    by (simp add: topKBySimilarity_def sortBySimilarity_def sortBySimilarityWith_def
        overflow_small)
qed

section \<open>Properties of deduplication and of the level-scoped filter\<close>

lemma keysOf_simps [simp]:
  "keysOf deref [] = []"
  "keysOf deref (x # xs) = docKey (deref x) # keysOf deref xs"
  "keysOf deref (xs @ ys) = keysOf deref xs @ keysOf deref ys"
  by (simp_all add: keysOf_def)

lemma set_keysOf: "set (keysOf deref xs) = (\<lambda>x. docKey (deref x)) ` set xs"
  by (simp add: keysOf_def)

lemma sameKey_docKey: "sameKey d m \<longleftrightarrow> docKey d = docKey m"
  by (auto simp: sameKey_def docKey_def)

lemma pushIfNew_cases:
  "pushIfNew deref results m =
     (if docKey (deref m) \<in> set (keysOf deref results) then results else results @ [m])"
proof -
  have "list_ex (\<lambda>d. sameKey (deref d) (deref m)) results \<longleftrightarrow>
        (\<exists>d\<in>set results. docKey (deref m) = docKey (deref d))"
    by (simp add: list_ex_iff sameKey_docKey eq_commute)
  then show ?thesis
    by (simp add: pushIfNew_def set_keysOf image_iff)
qed

lemma pushIfNew_distinct:
  "distinct (keysOf deref results) \<Longrightarrow>
   distinct (keysOf deref (pushIfNew deref results m))"
  by (simp add: pushIfNew_cases)

lemma foldl_pushIfNew_distinct:
  "distinct (keysOf deref results) \<Longrightarrow>
   distinct (keysOf deref (foldl (pushIfNew deref) results ms))"
  by (induction ms arbitrary: results) (simp_all add: pushIfNew_distinct)

lemma foldl_pushIfNew_set:
  "set results \<subseteq> set (foldl (pushIfNew deref) results ms) \<and>
   set (foldl (pushIfNew deref) results ms) \<subseteq> set results \<union> set ms"
proof (induction ms arbitrary: results)
  case Nil
  then show ?case by simp
next
  case (Cons m ms)
  have "set results \<subseteq> set (pushIfNew deref results m)"
    and "set (pushIfNew deref results m) \<subseteq> set results \<union> {m}"
    by (auto simp: pushIfNew_cases)
  with Cons.IH [of "pushIfNew deref results m"] show ?case by auto
qed

lemma foldl_pushIfNew_keys:
  "set (keysOf deref (foldl (pushIfNew deref) results ms)) =
   set (keysOf deref results) \<union> set (keysOf deref ms)"
proof (induction ms arbitrary: results)
  case Nil
  then show ?case by simp
next
  case (Cons m ms)
  have "set (keysOf deref (pushIfNew deref results m)) =
        set (keysOf deref results) \<union> {docKey (deref m)}"
    by (auto simp: pushIfNew_cases)
  with Cons.IH [of "pushIfNew deref results m"] show ?case by auto
qed

lemma combinedMatches_keys:
  "set (keysOf h (combinedMatches h t embeddings)) =
   set (keysOf h (exactMatches h t embeddings)) \<union> set (keysOf h (nearbyMatches h t embeddings))"
  by (simp add: combinedMatches_def foldl_pushIfNew_keys)

lemma combinedMatches_set:
  assumes "distinct (keysOf h embeddings)"
  shows "set (combinedMatches h t embeddings) =
         set (exactMatches h t embeddings) \<union> set (nearbyMatches h t embeddings)"
proof
  show "set (combinedMatches h t embeddings)
          \<subseteq> set (exactMatches h t embeddings) \<union> set (nearbyMatches h t embeddings)"
    using foldl_pushIfNew_set [of "exactMatches h t embeddings" h "nearbyMatches h t embeddings"]
    by (simp add: combinedMatches_def)
next
  have inj: "inj_on (\<lambda>r. docKey (h r)) (set embeddings)"
    using assms by (simp add: keysOf_def distinct_map)
  show "set (exactMatches h t embeddings) \<union> set (nearbyMatches h t embeddings)
          \<subseteq> set (combinedMatches h t embeddings)"
  proof
    fix r assume r: "r \<in> set (exactMatches h t embeddings) \<union> set (nearbyMatches h t embeddings)"
    then have "docKey (h r) \<in> set (keysOf h (combinedMatches h t embeddings))"
      unfolding combinedMatches_keys by (auto simp: set_keysOf)
    then obtain r' where r': "r' \<in> set (combinedMatches h t embeddings)"
      and eq: "docKey (h r) = docKey (h r')" by (auto simp: set_keysOf)
    from r' have "r' \<in> set (exactMatches h t embeddings) \<union> set (nearbyMatches h t embeddings)"
      using foldl_pushIfNew_set [of "exactMatches h t embeddings" h "nearbyMatches h t embeddings"]
      by (auto simp: combinedMatches_def)
    then have "r' \<in> set embeddings" by (auto simp: exactMatches_def nearbyMatches_def)
    moreover from r have "r \<in> set embeddings" by (auto simp: exactMatches_def nearbyMatches_def)
    ultimately have "r = r'" using inj eq by (auto dest: inj_onD)
    with r' show "r \<in> set (combinedMatches h t embeddings)" by simp
  qed
qed

lemma combinedMatches_length:
  assumes "distinct (keysOf h (exactMatches h t embeddings))"
  shows "length (combinedMatches h t embeddings) = dedupUnionSize_spec h t embeddings"
proof -
  let ?c = "combinedMatches h t embeddings"
  have d: "distinct (keysOf h ?c)"
    using assms by (simp add: combinedMatches_def foldl_pushIfNew_distinct)
  have "length ?c = length (keysOf h ?c)" by (simp add: keysOf_def)
  also have "\<dots> = card (set (keysOf h ?c))" using d by (simp add: distinct_card)
  also have "set (keysOf h ?c) =
             set (keysOf h (exactMatches h t embeddings @ nearbyMatches h t embeddings))"
    by (simp add: combinedMatches_keys)
  also have "card \<dots> = dedupUnionSize_spec h t embeddings"
    by (simp add: dedupUnionSize_spec_def length_remdups_card_conv)
  finally show ?thesis .
qed

text \<open>
  Claim C5, as stated, for every corpus: it fails where two exact matches share their
  \<open>(id, category)\<close> key. The source copies the exact matches into the union without
  comparing their keys, and only the nearby matches are checked against it. In the
  corpus below four documents mention Town Hall 9, two of them under one key, and one
  mentions Town Hall 10: the exact matches number 4 and the union deduplicated by key
  has 4 members, yet the list the source builds has 5 entries and is returned, not
  the corpus of 6.
\<close>

theorem filterByTownHallLevel_duplicate_key_counterexample:
  "length (exactMatches (storeOf duplicateKeyCorpus) 9 [0, 1, 2, 3, 4, 5]) = 4 \<and>
   dedupUnionSize_spec (storeOf duplicateKeyCorpus) 9 [0, 1, 2, 3, 4, 5] = 4 \<and>
   filterByTownHallLevel (storeOf duplicateKeyCorpus) (Some 9) [0, 1, 2, 3, 4, 5]
     = [0, 1, 2, 3, 4]"
  by code_simp

text \<open>
  Claim C5, amended. For every corpus in which no two exact matches of tier \<open>T\<close> share
  their \<open>(id, category)\<close> key (as in every corpus whose keys are pairwise distinct):
  when the union of the exact and the nearby matches, deduplicated by key, has fewer
  than 5 members and the exact matches number fewer than 5, the filter returns the
  corpus array it was given, whole and in its order.
\<close>

theorem filterByTownHallLevel_full_fallback:
  assumes "distinct (keysOf h (exactMatches h t embeddings))"
    and "dedupUnionSize_spec h t embeddings < 5"
    and "length (exactMatches h t embeddings) < 5"
  shows "filterByTownHallLevel h (Some t) embeddings = embeddings"
  using assms(2,3) combinedMatches_length [OF assms(1)]
  by (simp add: filterByTownHallLevel_def)

theorem filterByTownHallLevel_full_fallback_witness:
  "distinct (keysOf
     (storeOf [exampleDoc ''1'' ''TH9 base'' None None, exampleDoc ''2'' ''th10 army'' None None,
               exampleDoc ''3'' ''walls'' None None])
     (exactMatches
        (storeOf [exampleDoc ''1'' ''TH9 base'' None None, exampleDoc ''2'' ''th10 army'' None None,
                  exampleDoc ''3'' ''walls'' None None]) 9 [0, 1, 2])) \<and>
   dedupUnionSize_spec
     (storeOf [exampleDoc ''1'' ''TH9 base'' None None, exampleDoc ''2'' ''th10 army'' None None,
               exampleDoc ''3'' ''walls'' None None]) 9 [0, 1, 2] = 2 \<and>
   length (exactMatches
     (storeOf [exampleDoc ''1'' ''TH9 base'' None None, exampleDoc ''2'' ''th10 army'' None None,
               exampleDoc ''3'' ''walls'' None None]) 9 [0, 1, 2]) = 1 \<and>
   filterByTownHallLevel
     (storeOf [exampleDoc ''1'' ''TH9 base'' None None, exampleDoc ''2'' ''th10 army'' None None,
               exampleDoc ''3'' ''walls'' None None]) (Some 9) [0, 1, 2] = [0, 1, 2]"
proof -
  let ?h = "storeOf [exampleDoc ''1'' ''TH9 base'' None None, exampleDoc ''2'' ''th10 army'' None None,
                     exampleDoc ''3'' ''walls'' None None]"
  have k: "distinct (keysOf ?h (exactMatches ?h 9 [0, 1, 2]))" by code_simp
  have u: "dedupUnionSize_spec ?h 9 [0, 1, 2] = 2" by code_simp
  have e: "length (exactMatches ?h 9 [0, 1, 2]) = 1" by code_simp
  have u5: "dedupUnionSize_spec ?h 9 [0, 1, 2] < 5" unfolding u by simp
  have e5: "length (exactMatches ?h 9 [0, 1, 2]) < 5" unfolding e by simp
  show ?thesis
    using k u e filterByTownHallLevel_full_fallback [OF k u5 e5] by blast
qed

section \<open>Properties of retrieval on the empty corpus and of the prompt\<close>

lemma startsWith_iff: "startsWith s t \<longleftrightarrow> (\<exists>ss. s = t @ ss)"
  by (induction s t rule: startsWith.induct) auto

lemma includesStr_iff: "includesStr s t \<longleftrightarrow> (\<exists>ps ss. s = ps @ t @ ss)"
proof (induction s)
  case Nil
  then show ?case by auto
next
  case (Cons c cs)
  show ?case
  proof
    assume "includesStr (c # cs) t"
    then consider "startsWith (c # cs) t" | "includesStr cs t" by auto
    then show "\<exists>ps ss. c # cs = ps @ t @ ss"
    proof cases
      case 1
      then obtain ss where "c # cs = t @ ss" by (auto simp: startsWith_iff)
      then have "c # cs = [] @ t @ ss" by simp
      then show ?thesis by blast
    next
      case 2
      then obtain ps ss where "cs = ps @ t @ ss" using Cons.IH by blast
      then have "c # cs = (c # ps) @ t @ ss" by simp
      then show ?thesis by blast
    qed
  next
    assume "\<exists>ps ss. c # cs = ps @ t @ ss"
    then obtain ps ss where eq: "c # cs = ps @ t @ ss" by blast
    show "includesStr (c # cs) t"
    proof (cases ps)
      case Nil
      then have "startsWith (c # cs) t" using eq by (auto simp: startsWith_iff)
      then show ?thesis by simp
    next
      case (Cons p ps')
      then have "cs = ps' @ t @ ss" using eq by simp
      then have "includesStr cs t" using Cons.IH by blast
      then show ?thesis by simp
    qed
  qed
qed

lemma inc_skip: "includesStr b t \<Longrightarrow> includesStr (a @ b) t"
  unfolding includesStr_iff by (metis append.assoc)

lemma inc_pre1: "includesStr (a @ r) a"
  unfolding includesStr_iff by (metis append_Nil)

lemma inc_pre2: "includesStr (a @ b @ r) (a @ b)"
  using inc_pre1 [of "a @ b" r] by simp

lemma inc_pre3: "includesStr (a @ b @ c @ r) (a @ b @ c)"
  using inc_pre1 [of "a @ b @ c" r] by simp

lemma inc_pre4: "includesStr (a @ b @ c @ d @ r) (a @ b @ c @ d)"
  using inc_pre1 [of "a @ b @ c @ d" r] by simp

lemma filterByTownHallLevel_empty: "filterByTownHallLevel h thLevel [] = []"
  by (simp add: filterByTownHallLevel_def exactMatches_def combinedMatches_def nearbyMatches_def
      split: option.splits)

lemma mergeTop_empty: "mergeTop qe matches n [] filtered h = (filtered, h)"
  by (simp add: mergeTop_def)

lemma gatherCandidates_empty: "gatherCandidates qe query qa h [] = ([], h)"
  by (simp add: gatherCandidates_def findSimilarDocuments_def findKeywordMatches_def
      combineResults_def sortBySimilarity_Nil sortByKeywordScore_def mergeTop_empty Let_def
      split: option.splits)

lemma applyMMR_empty: "applyMMR [] qe topK lambda = Inr []"
  by (simp add: applyMMR_def)

lemma retrieveContext_empty:
  "generateQueryEmbedding query = Inr qe \<Longrightarrow>
   retrieveContext generateQueryEmbedding query qa h [] = Inr ([], h)"
  by (simp add: retrieveContext_def filterByTownHallLevel_empty gatherCandidates_empty applyMMR_empty)

lemma contextInfo_empty: "contextInfo [] = []"
  by (simp add: contextInfo_def enumerate_eq_zip)

lemma prompt_intent:
  "includesStr (generateAdvisorPrompt query qa docs)
     (''- Intent: '' @ replaceUnderscores (intent qa) @ ''\<newline>'')"
  unfolding generateAdvisorPrompt_def promptHeader_def append_assoc
  by (rule inc_pre3 | rule inc_skip)+

lemma prompt_thLevel:
  "includesStr (generateAdvisorPrompt query qa docs)
     (''- Town Hall Level: '' @ natOr (thLevelOf (params qa)) ''Unknown'' @ ''\<newline>'')"
  unfolding generateAdvisorPrompt_def promptHeader_def append_assoc
  by (rule inc_pre3 | rule inc_skip)+

lemma prompt_optLines:
  "includesStr (generateAdvisorPrompt query qa docs) (optLine ''- Focus Troop: '' (focusTroop (params qa)))"
  "includesStr (generateAdvisorPrompt query qa docs) (optLine ''- Attack Type: '' (attackType (params qa)))"
  "includesStr (generateAdvisorPrompt query qa docs) (optLine ''- Base Type: '' (baseType (params qa)))"
  "includesStr (generateAdvisorPrompt query qa docs) (optLine ''- Item Type: '' (itemType (params qa)))"
  unfolding generateAdvisorPrompt_def promptHeader_def append_assoc
  by (rule inc_pre1 | rule inc_skip)+

lemma prompt_instructions:
  "includesStr (generateAdvisorPrompt query qa docs) (intentInstructions qa)"
  unfolding generateAdvisorPrompt_def promptHeader_def promptFooter_def append_assoc
  by (rule inc_pre1 | rule inc_skip)+

lemma prompt_no_excerpts:
  "includesStr (generateAdvisorPrompt query qa [])
     (''RELEVANT CLASH OF CLANS INFORMATION:\<newline>'' @ ''\<newline>'' @ ''\<newline>'' @ ''INSTRUCTIONS:\<newline>'')"
  unfolding generateAdvisorPrompt_def promptHeader_def promptFooter_def contextInfo_empty
    append_assoc append_Nil
  by (rule inc_pre4 | rule inc_skip)+

lemma optLine_Some: "t \<noteq> [] \<Longrightarrow> optLine label (Some t) = label @ t"
  by (simp add: optLine_def)

text \<open>
  Claim C9. On the empty corpus, for any query and any query analysis, once the embedding
  service has answered, \<open>retrieveContext\<close> returns the empty list (and leaves the
  store as it was); no branch raises. \<open>generateAdvisorPrompt\<close> on that empty list
  yields the prompt whose excerpt section is empty (the heading is followed directly
  by the blank lines before the instructions), and the prompt still carries the
  intent line, the Town Hall level line, the focus troop, attack type, base type and
  item type lines for the parameters that are set, and the instruction block of the
  intent.
\<close>

theorem empty_corpus_gives_empty_context:
  assumes "generateQueryEmbedding query = Inr queryEmbedding"
  shows "retrieveContext generateQueryEmbedding query queryAnalysis h [] = Inr ([], h) \<and>
         contextInfo [] = [] \<and>
         generateAdvisorPrompt query queryAnalysis [] =
           promptHeader query queryAnalysis @ promptFooter queryAnalysis \<and>
         includesStr (generateAdvisorPrompt query queryAnalysis [])
           (''RELEVANT CLASH OF CLANS INFORMATION:\<newline>'' @ ''\<newline>'' @ ''\<newline>'' @
            ''INSTRUCTIONS:\<newline>'') \<and>
         includesStr (generateAdvisorPrompt query queryAnalysis [])
           (''- Intent: '' @ replaceUnderscores (intent queryAnalysis) @ ''\<newline>'') \<and>
         includesStr (generateAdvisorPrompt query queryAnalysis [])
           (''- Town Hall Level: '' @ natOr (thLevelOf (params queryAnalysis)) ''Unknown'' @
            ''\<newline>'') \<and>
         (focusTroop (params queryAnalysis) = Some t1 \<and> t1 \<noteq> [] \<longrightarrow>
            includesStr (generateAdvisorPrompt query queryAnalysis []) (''- Focus Troop: '' @ t1)) \<and>
         (attackType (params queryAnalysis) = Some t2 \<and> t2 \<noteq> [] \<longrightarrow>
            includesStr (generateAdvisorPrompt query queryAnalysis []) (''- Attack Type: '' @ t2)) \<and>
         (baseType (params queryAnalysis) = Some t3 \<and> t3 \<noteq> [] \<longrightarrow>
            includesStr (generateAdvisorPrompt query queryAnalysis []) (''- Base Type: '' @ t3)) \<and>
         (itemType (params queryAnalysis) = Some t4 \<and> t4 \<noteq> [] \<longrightarrow>
            includesStr (generateAdvisorPrompt query queryAnalysis []) (''- Item Type: '' @ t4)) \<and>
         includesStr (generateAdvisorPrompt query queryAnalysis [])
           (intentInstructions queryAnalysis)"
proof -
  have r: "retrieveContext generateQueryEmbedding query queryAnalysis h [] = Inr ([], h)"
    using assms by (rule retrieveContext_empty)
  have p: "generateAdvisorPrompt query queryAnalysis [] =
             promptHeader query queryAnalysis @ promptFooter queryAnalysis"
    by (simp add: generateAdvisorPrompt_def contextInfo_empty)
  have o1: "includesStr (generateAdvisorPrompt query queryAnalysis []) (''- Focus Troop: '' @ t1)"
    if "focusTroop (params queryAnalysis) = Some t1 \<and> t1 \<noteq> []"
    using prompt_optLines(1) [of query queryAnalysis "[]"] that by (simp add: optLine_Some)
  have o2: "includesStr (generateAdvisorPrompt query queryAnalysis []) (''- Attack Type: '' @ t2)"
    if "attackType (params queryAnalysis) = Some t2 \<and> t2 \<noteq> []"
    using prompt_optLines(2) [of query queryAnalysis "[]"] that by (simp add: optLine_Some)
  have o3: "includesStr (generateAdvisorPrompt query queryAnalysis []) (''- Base Type: '' @ t3)"
    if "baseType (params queryAnalysis) = Some t3 \<and> t3 \<noteq> []"
    using prompt_optLines(3) [of query queryAnalysis "[]"] that by (simp add: optLine_Some)
  have o4: "includesStr (generateAdvisorPrompt query queryAnalysis []) (''- Item Type: '' @ t4)"
    if "itemType (params queryAnalysis) = Some t4 \<and> t4 \<noteq> []"
    using prompt_optLines(4) [of query queryAnalysis "[]"] that by (simp add: optLine_Some)
  show ?thesis
    using r p contextInfo_empty prompt_no_excerpts [of query queryAnalysis]
      prompt_intent [of query queryAnalysis "[]"] prompt_thLevel [of query queryAnalysis "[]"]
      prompt_instructions [of query queryAnalysis "[]"] o1 o2 o3 o4
    by blast
qed

theorem empty_corpus_gives_empty_context_witness:
  "retrieveContext (\<lambda>q. Inr [1, 0]) ''upgrade troops at th9'' (analyzeQuery ''upgrade troops at th9'')
     (storeOf []) [] = Inr ([], storeOf []) \<and>
   includesStr
     (generateAdvisorPrompt ''upgrade troops at th9'' (analyzeQuery ''upgrade troops at th9'') [])
     ''- Intent: upgrade priority\<newline>'' \<and>
   includesStr
     (generateAdvisorPrompt ''upgrade troops at th9'' (analyzeQuery ''upgrade troops at th9'') [])
     ''- Town Hall Level: 9\<newline>'' \<and>
   includesStr
     (generateAdvisorPrompt ''upgrade troops at th9'' (analyzeQuery ''upgrade troops at th9'') [])
     ''- Item Type: troop''"
proof -
  let ?q = "''upgrade troops at th9''"
  let ?P = "generateAdvisorPrompt ?q (analyzeQuery ?q) []"
  have a: "analyzeQuery ?q =
      \<lparr>intent = ''upgrade_priority'',
       params = emptyParams\<lparr>townHallLevel := Some 9, itemType := Some ''troop'', focus := Some ''offense''\<rparr>\<rparr>"
    by code_simp
  have e: "(\<lambda>q. Inr [1, 0 :: real]) ?q = (Inr [1, 0] :: error + real list)" by simp
  note t = empty_corpus_gives_empty_context
             [of "\<lambda>q. Inr [1, 0]" ?q "[1, 0]" "analyzeQuery ?q" "storeOf []"
                 "''x''" "''x''" "''x''" "''troop''", OF e]
  have i: "itemType (params (analyzeQuery ?q)) = Some ''troop''" by (simp add: a emptyParams_def)
  have n: "intent (analyzeQuery ?q) = ''upgrade_priority''" by (simp add: a)
  have l: "natOr (thLevelOf (params (analyzeQuery ?q))) ''Unknown'' = ''9''"
    by (simp add: a emptyParams_def thLevelOf_def natOr_def)
  from t have "retrieveContext (\<lambda>q. Inr [1, 0]) ?q (analyzeQuery ?q) (storeOf []) [] = Inr ([], storeOf [])"
    by blast
  moreover from t have "includesStr ?P (''- Intent: '' @ replaceUnderscores (intent (analyzeQuery ?q)) @ ''\<newline>'')"
    by blast
  then have "includesStr ?P ''- Intent: upgrade priority\<newline>''"
    by (simp add: n replaceUnderscores_def)
  moreover from t have "includesStr ?P
      (''- Town Hall Level: '' @ natOr (thLevelOf (params (analyzeQuery ?q))) ''Unknown'' @ ''\<newline>'')"
    by blast
  then have "includesStr ?P ''- Town Hall Level: 9\<newline>''"
    by (simp add: l)
  moreover from t have "itemType (params (analyzeQuery ?q)) = Some ''troop'' \<and> ''troop'' \<noteq> [] \<longrightarrow>
      includesStr ?P (''- Item Type: '' @ ''troop'')"
    by blast
  then have "includesStr ?P ''- Item Type: troop''"
    by (simp add: i)
  ultimately show ?thesis by blast
qed

section \<open>Properties of the hybrid retriever\<close>

lemma docKey_updates [simp]:
  "docKey (d\<lparr>similarity := s\<rparr>) = docKey d"
  "docKey (d\<lparr>keywordScore := k\<rparr>) = docKey d"
  by (simp_all add: docKey_def)

lemma docKey_fillSimilarity [simp]: "docKey (fillSimilarity qe d) = docKey d"
  by (simp add: fillSimilarity_def)

lemma keysOf_map: "keysOf deref (map f xs) = keysOf (\<lambda>x. deref (f x)) xs"
  by (simp add: keysOf_def comp_def)

lemma keysOf_take: "keysOf deref (take n xs) = take n (keysOf deref xs)"
  by (simp add: keysOf_def take_map)

lemma distinct_keysOf_filter:
  "distinct (keysOf deref xs) \<Longrightarrow> distinct (keysOf deref (filter P xs))"
  by (simp add: keysOf_def distinct_map_filter)

lemma distinct_keysOf_sortBySimilarityWith:
  "distinct (keysOf deref (sortBySimilarityWith g xs)) = distinct (keysOf deref xs)"
proof -
  have "mset (keysOf deref (sortBySimilarityWith g xs)) = mset (keysOf deref xs)"
    by (simp add: keysOf_def mset_sortBySimilarityWith)
  then show ?thesis by (rule mset_eq_imp_distinct_iff)
qed

lemma distinct_mset_subset:
  assumes "mset xs \<subseteq># mset ys" and "distinct ys"
  shows "distinct xs"
proof -
  obtain C where C: "mset ys = mset xs + C"
    using assms(1) by (auto simp: mset_subset_eq_exists_conv)
  obtain zs where "mset zs = C" using ex_mset by blast
  then have "mset ys = mset (xs @ zs)" using C by simp
  then have "distinct (xs @ zs)" using assms(2) mset_eq_imp_distinct_iff by blast
  then show ?thesis by simp
qed

lemma distinct_keysOf_mset_subset:
  assumes "mset xs \<subseteq># mset ys" and "distinct (keysOf deref ys)"
  shows "distinct (keysOf deref xs)"
proof -
  have "image_mset (\<lambda>x. docKey (deref x)) (mset xs) \<subseteq># image_mset (\<lambda>x. docKey (deref x)) (mset ys)"
    using assms(1) by (rule image_mset_subseteq_mono)
  then have "mset (keysOf deref xs) \<subseteq># mset (keysOf deref ys)"
    by (simp add: keysOf_def)
  then show ?thesis using assms(2) by (rule distinct_mset_subset)
qed

lemma keysOf_fillSimilarity: "keysOf (fillSimilarity qe) xs = keysOf (\<lambda>d. d) xs"
  by (simp add: keysOf_def)

lemma filterByTownHallLevel_distinct:
  assumes "distinct (keysOf h embeddings)"
  shows "distinct (keysOf h (filterByTownHallLevel h thLevel embeddings))"
proof -
  have e: "distinct (keysOf h (exactMatches h t embeddings))" for t
    using assms by (simp add: exactMatches_def distinct_keysOf_filter)
  then have c: "distinct (keysOf h (combinedMatches h t embeddings))" for t
    by (simp add: combinedMatches_def foldl_pushIfNew_distinct)
  show ?thesis
    using assms e c by (simp add: filterByTownHallLevel_def split: option.splits)
qed

lemma findSimilarDocuments_distinct:
  assumes "distinct (keysOf (\<lambda>d. d) docs)"
  shows "distinct (keysOf (\<lambda>d. d) (findSimilarDocuments qe docs topK))"
proof -
  let ?scored = "map (\<lambda>d. d\<lparr>similarity := Some (cosineSimilarity qe (embedding d))\<rparr>) docs"
  have "keysOf (\<lambda>d. d) ?scored = keysOf (\<lambda>d. d) docs"
    by (simp add: keysOf_def)
  then have "distinct (keysOf (\<lambda>d. d) (sortBySimilarity ?scored))"
    using assms by (simp add: sortBySimilarity_def distinct_keysOf_sortBySimilarityWith)
  then have "distinct (take topK (keysOf (\<lambda>d. d) (sortBySimilarity ?scored)))"
    by (rule distinct_take)
  then show ?thesis
    by (simp add: findSimilarDocuments_def keysOf_take)
qed

lemma combineResults_distinct:
  assumes "distinct (keysOf (\<lambda>d. d) semanticMatches)"
  shows "distinct (keysOf (\<lambda>d. d) (combineResults qe semanticMatches keywordMatches))"
  using foldl_pushIfNew_distinct [OF assms, of keywordMatches]
  by (simp add: combineResults_def keysOf_map keysOf_fillSimilarity)

lemma mergeTop_distinct:
  assumes "distinct (keysOf (\<lambda>d. d) filtered)"
  shows "distinct (keysOf (\<lambda>d. d) (fst (mergeTop qe matches n fe filtered h)))"
  using assms by (simp add: mergeTop_def Let_def foldl_pushIfNew_distinct)

lemma gatherCandidates_distinct:
  assumes "distinct (keysOf h fe)"
  shows "distinct (keysOf (\<lambda>d. d) (fst (gatherCandidates qe query qa h fe)))"
proof -
  have "distinct (keysOf (\<lambda>d. d) (map h fe))" using assms by (simp add: keysOf_map)
  then have "distinct (keysOf (\<lambda>d. d) (findSimilarDocuments qe (map h fe) 7))"
    by (rule findSimilarDocuments_distinct)
  then have c: "distinct (keysOf (\<lambda>d. d)
      (combineResults qe (findSimilarDocuments qe (map h fe) 7)
         (findKeywordMatches (extractKeywords query) (map h fe) 7)))"
    by (rule combineResults_distinct)
  show ?thesis
    using c mergeTop_distinct [OF c]
    by (simp add: gatherCandidates_def Let_def split: option.splits)
qed

lemma mmrLoop_error:
  "mmrLoop lambda topK selected remaining = Inl e \<Longrightarrow> e = TypeError"
proof (induction lambda topK selected remaining rule: mmrLoop.induct)
  case (1 lambda topK selected remaining)
  show ?case
  proof (cases "length selected < topK \<and> remaining \<noteq> []")
    case False
    then show ?thesis using "1.prems" by (simp add: mmrLoop_stop)
  next
    case True
    show ?thesis
    proof (cases "those selected")
      case None
      then show ?thesis using True "1.prems" by (simp add: mmrLoop_raise)
    next
      case (Some selectedDocs)
      obtain s found where b:
        "bestFrom (mmrScore lambda selectedDocs) 0 (NegInf, None) remaining = (s, found)"
        by (cases "bestFrom (mmrScore lambda selectedDocs) 0 (NegInf, None) remaining")
      show ?thesis
      proof (cases found)
        case None
        from b None have b': "bestFrom (mmrScore lambda selectedDocs) 0 (NegInf, None) remaining = (s, None)"
          by simp
        have "mmrLoop lambda topK (selected @ [None]) (butlast remaining) = Inl e"
          using "1.prems" mmrLoop_undefined [OF True Some b'] by simp
        then show ?thesis
          using "1.IH"(1) [OF True Some b [symmetric] None] by simp
      next
        case (Some k)
        from b Some have b': "bestFrom (mmrScore lambda selectedDocs) 0 (NegInf, None) remaining = (s, Some k)"
          by simp
        have "mmrLoop lambda topK (selected @ [Some (remaining ! k)]) (splice1 k remaining) = Inl e"
          using "1.prems" mmrLoop_pick [OF True \<open>those selected = Some selectedDocs\<close> b'] by simp
        then show ?thesis
          using "1.IH"(2) [OF True \<open>those selected = Some selectedDocs\<close> b [symmetric] Some] by simp
      qed
    qed
  qed
qed

lemma filter_None_map_Some: "filter (\<lambda>x. x = None) (map Some xs) = []"
  by (induction xs) simp_all

lemma mmrLoop_one_undefined:
  "mmrLoop lambda topK selected remaining = Inr result \<Longrightarrow> those selected = Some sel \<Longrightarrow>
   length (filter (\<lambda>x. x = None) result) \<le> 1"
proof (induction lambda topK selected remaining arbitrary: sel rule: mmrLoop.induct)
  case (1 lambda topK selected remaining)
  note res = "1.prems"(1) and sel = "1.prems"(2)
  have selected: "selected = map Some sel" using sel by (rule those_Some_map)
  show ?case
  proof (cases "length selected < topK \<and> remaining \<noteq> []")
    case False
    then have "result = selected" using res by (simp add: mmrLoop_stop)
    then show ?thesis by (simp add: selected filter_None_map_Some)
  next
    case True
    obtain s found where b:
      "bestFrom (mmrScore lambda sel) 0 (NegInf, None) remaining = (s, found)"
      by (cases "bestFrom (mmrScore lambda sel) 0 (NegInf, None) remaining")
    show ?thesis
    proof (cases found)
      case None
      from b None have b': "bestFrom (mmrScore lambda sel) 0 (NegInf, None) remaining = (s, None)"
        by simp
      have r: "mmrLoop lambda topK (selected @ [None]) (butlast remaining) = Inr result"
        using res mmrLoop_undefined [OF True sel b'] by simp
      show ?thesis
      proof (cases "length (selected @ [None]) < topK \<and> butlast remaining \<noteq> []")
        case True
        then have "mmrLoop lambda topK (selected @ [None]) (butlast remaining) = Inl TypeError"
          by (rule mmrLoop_raise) (rule those_append_None)
        then show ?thesis using r by simp
      next
        case False
        then have "result = selected @ [None]" using r by (simp add: mmrLoop_stop)
        then show ?thesis by (simp add: selected filter_None_map_Some)
      qed
    next
      case (Some k)
      from b Some have b': "bestFrom (mmrScore lambda sel) 0 (NegInf, None) remaining = (s, Some k)"
        by simp
      have r: "mmrLoop lambda topK (selected @ [Some (remaining ! k)]) (splice1 k remaining)
               = Inr result"
        using res mmrLoop_pick [OF True sel b'] by simp
      have t: "those (selected @ [Some (remaining ! k)]) = Some (sel @ [remaining ! k])"
        using sel by (rule those_append_Some)
      show ?thesis
        using "1.IH"(2) [OF True sel b [symmetric] Some r t] .
    qed
  qed
qed

lemma applyMMR_error: "applyMMR candidates qe topK lambda = Inl e \<Longrightarrow> e = TypeError"
proof (cases "sortBySimilarity candidates")
  case Nil
  then have "candidates = []" using length_sortBySimilarity [of candidates] by simp
  then show "applyMMR candidates qe topK lambda = Inl e \<Longrightarrow> e = TypeError"
    by (simp add: applyMMR_def)
next
  case (Cons first remaining)
  then show "applyMMR candidates qe topK lambda = Inl e \<Longrightarrow> e = TypeError"
    using mmrLoop_error [of lambda topK "[Some first]" remaining e]
    by (simp add: applyMMR_def split: if_splits)
qed

lemma applyMMR_result:
  assumes "applyMMR candidates qe topK lambda = Inr result" and "1 \<le> topK"
  shows "length result = min topK (length candidates)"
    and "mset (definedEntries result) \<subseteq># mset candidates"
    and "length (filter (\<lambda>x. x = None) result) \<le> 1"
proof -
  have "length result = min topK (length candidates) \<and>
        mset (definedEntries result) \<subseteq># mset candidates \<and>
        length (filter (\<lambda>x. x = None) result) \<le> 1"
  proof (cases "length candidates \<le> topK")
    case True
    then have "result = map Some candidates" using assms(1) by (simp add: applyMMR_def)
    then show ?thesis using True by (simp add: definedEntries_map_Some filter_None_map_Some)
  next
    case False
    then obtain first remaining where sorted: "sortBySimilarity candidates = first # remaining"
      using length_sortBySimilarity [of candidates] by (cases "sortBySimilarity candidates") auto
    have r: "mmrLoop lambda topK [Some first] remaining = Inr result"
      using assms(1) False by (simp add: applyMMR_def sorted)
    have "length result = min topK (length [Some first] + length remaining)"
      using r assms(2) by (intro mmrLoop_length [of lambda]) simp_all
    then have len: "length result = min topK (length candidates)"
      using length_sortBySimilarity [of candidates] by (simp add: sorted)
    have "mset (definedEntries result) \<subseteq># mset (definedEntries [Some first]) + mset remaining"
      using r by (rule mmrLoop_defined_mset)
    also have "\<dots> = mset (sortBySimilarity candidates)" by (simp add: sorted)
    finally have sub: "mset (definedEntries result) \<subseteq># mset candidates"
      by (simp add: mset_sortBySimilarity)
    have "length (filter (\<lambda>x. x = None) result) \<le> 1"
      using r by (rule mmrLoop_one_undefined) simp
    with len sub show ?thesis by blast
  qed
  then show "length result = min topK (length candidates)"
    and "mset (definedEntries result) \<subseteq># mset candidates"
    and "length (filter (\<lambda>x. x = None) result) \<le> 1"
    by blast+
qed

lemma retrieveContext_result:
  "retrieveContext gqe query qa h embeddings =
     (case gqe query of
        Inl e \<Rightarrow> Inl e
      | Inr qe \<Rightarrow>
          (case applyMMR (fst (gatherCandidates qe query qa h
                                 (filterByTownHallLevel h (thLevelOf (params qa)) embeddings)))
                  qe 5 (7 / 10) of
             Inl e \<Rightarrow> Inl e
           | Inr diverseResults \<Rightarrow>
               Inr (diverseResults,
                    snd (gatherCandidates qe query qa h
                           (filterByTownHallLevel h (thLevelOf (params qa)) embeddings)))))"
  by (simp add: retrieveContext_def Let_def split: sum.splits prod.splits)

lemma fillSimilarity_idem: "fillSimilarity qe (fillSimilarity qe d) = fillSimilarity qe d"
  by (simp add: fillSimilarity_def)

lemma fillStore_Cons:
  "fillStore qe h (a # refs) = fillStore qe (h(a := fillSimilarity qe (h a))) refs"
  by (simp only: fillStore_def foldl.simps)

lemma fillStore_apply:
  "fillStore qe h refs r = (if r \<in> set refs then fillSimilarity qe (h r) else h r)"
proof (induction refs arbitrary: h)
  case Nil
  then show ?case by (simp add: fillStore_def)
next
  case (Cons a refs)
  let ?h = "h(a := fillSimilarity qe (h a))"
  have "fillStore qe h (a # refs) r = fillStore qe ?h refs r"
    by (simp only: fillStore_Cons)
  also have "\<dots> = (if r \<in> set refs then fillSimilarity qe (?h r) else ?h r)"
    by (rule Cons.IH)
  also have "\<dots> = (if r \<in> set (a # refs) then fillSimilarity qe (h r) else h r)"
    by (simp add: fillSimilarity_idem)
  finally show ?case .
qed

lemma mergeTop_store:
  "snd (mergeTop qe matches n fe filtered h) = fillStore qe h (filter (\<lambda>r. matches (h r)) fe)"
proof (cases "filter (\<lambda>r. matches (h r)) fe")
  case Nil
  then show ?thesis by (simp add: mergeTop_def fillStore_def)
next
  case (Cons a list)
  then show ?thesis by (simp add: mergeTop_def Let_def)
qed

lemma gatherCandidates_store:
  "snd (gatherCandidates qe query qa h fe) =
     (if intent qa = ''upgrade_priority'' \<and> truthy (itemType (params qa))
      then fillStore qe h (filter (\<lambda>r. typeMatch (the (itemType (params qa))) (h r)) fe)
      else if intent qa = ''attack_strategy'' \<and> truthy (focusTroop (params qa))
      then fillStore qe h (filter (\<lambda>r. troopMatch (the (focusTroop (params qa))) (h r)) fe)
      else h)"
  by (auto simp: gatherCandidates_def Let_def mergeTop_store truthy_def split: option.splits)

lemma filterByTownHallLevel_subset:
  "set (filterByTownHallLevel h thLevel embeddings) \<subseteq> set embeddings"
proof -
  have "set (combinedMatches h t embeddings) \<subseteq> set embeddings" for t
    using foldl_pushIfNew_set [of "exactMatches h t embeddings" h "nearbyMatches h t embeddings"]
    by (auto simp: combinedMatches_def exactMatches_def nearbyMatches_def)
  moreover have "set (exactMatches h t embeddings) \<subseteq> set embeddings" for t
    by (auto simp: exactMatches_def)
  ultimately show ?thesis
    by (simp add: filterByTownHallLevel_def split: option.splits)
qed

lemma corpusNumeric_iff:
  "corpusNumeric qe h embeddings \<longleftrightarrow>
   (\<forall>r\<in>set embeddings.
      (similarity (h r) = None \<or> hasNumericSimilarity (h r)) \<and>
      isFiniteNumber (cosineSimilarity qe (embedding (h r))) \<and>
      (\<forall>r'\<in>set embeddings.
         isFiniteNumber (cosineSimilarity (embedding (h r)) (embedding (h r')))))"
  by (auto simp: corpusNumeric_def list_all_iff hasNumericSimilarity_def split: option.splits)

lemma hasNumericSimilarity_updates [simp]:
  "hasNumericSimilarity (d\<lparr>similarity := Some s\<rparr>) = isFiniteNumber s"
  "hasNumericSimilarity (d\<lparr>keywordScore := k\<rparr>) = hasNumericSimilarity d"
  by (simp_all add: hasNumericSimilarity_def)

lemma fillSimilarity_numeric:
  assumes "isFiniteNumber (cosineSimilarity qe (embedding d))"
    and "similarity d = None \<or> hasNumericSimilarity d"
  shows "hasNumericSimilarity (fillSimilarity qe d)"
  using assms by (auto simp: fillSimilarity_def hasNumericSimilarity_def)

lemma embedding_fillSimilarity [simp]: "embedding (fillSimilarity qe d) = embedding d"
  by (simp add: fillSimilarity_def)

lemma set_findSimilarDocuments:
  "set (findSimilarDocuments qe docs topK)
     \<subseteq> (\<lambda>d. d\<lparr>similarity := Some (cosineSimilarity qe (embedding d))\<rparr>) ` set docs"
  using set_take_subset
    [of topK "sortBySimilarity
       (map (\<lambda>d. d\<lparr>similarity := Some (cosineSimilarity qe (embedding d))\<rparr>) docs)"]
  by (simp add: findSimilarDocuments_def set_sortBySimilarity)

lemma set_findKeywordMatches:
  "set (findKeywordMatches keywords docs topK)
     \<subseteq> (\<lambda>d. d\<lparr>keywordScore := Some (foldl (keywordScoreStep d) 0 keywords)\<rparr>) ` set docs"
  using set_take_subset
    [of topK "sortByKeywordScore (filter (\<lambda>d. keywordScoreOf d > 0)
       (map (\<lambda>d. d\<lparr>keywordScore := Some (foldl (keywordScoreStep d) 0 keywords)\<rparr>) docs))"]
  by (auto simp: findKeywordMatches_def sortByKeywordScore_def Let_def)

lemma gatherCandidates_numeric:
  assumes cn: "corpusNumeric qe h embeddings" and sub: "set fe \<subseteq> set embeddings"
  shows "\<forall>c\<in>set (fst (gatherCandidates qe query qa h fe)).
           hasNumericSimilarity c \<and> embedding c \<in> (\<lambda>r. embedding (h r)) ` set embeddings"
proof -
  let ?E = "(\<lambda>r. embedding (h r)) ` set embeddings"
  let ?P = "\<lambda>c. hasNumericSimilarity c \<and> embedding c \<in> ?E"
  let ?Q = "\<lambda>c. (similarity c = None \<or> hasNumericSimilarity c) \<and> embedding c \<in> ?E"
  have f1: "similarity (h r) = None \<or> hasNumericSimilarity (h r)"
    and f2: "isFiniteNumber (cosineSimilarity qe (embedding (h r)))" if "r \<in> set embeddings" for r
    using cn that by (auto simp: corpusNumeric_iff)
  have cosE: "isFiniteNumber (cosineSimilarity qe e)" if "e \<in> ?E" for e
    using that f2 by auto
  let ?sem = "findSimilarDocuments qe (map h fe) 7"
  let ?kw = "findKeywordMatches (extractKeywords query) (map h fe) 7"
  have sem: "\<forall>c\<in>set ?sem. ?P c"
  proof
    fix c assume "c \<in> set ?sem"
    then obtain r where r: "r \<in> set fe"
      and c: "c = (h r)\<lparr>similarity := Some (cosineSimilarity qe (embedding (h r)))\<rparr>"
      using set_findSimilarDocuments [of qe "map h fe" 7] by auto
    from r sub have "r \<in> set embeddings" by auto
    then show "?P c" using f2 [of r] by (auto simp: c)
  qed
  have kw: "\<forall>c\<in>set ?kw. ?Q c"
  proof
    fix c assume "c \<in> set ?kw"
    then obtain r where r: "r \<in> set fe"
      and c: "c = (h r)\<lparr>keywordScore := Some (foldl (keywordScoreStep (h r)) 0 (extractKeywords query))\<rparr>"
      using set_findKeywordMatches [of "extractKeywords query" "map h fe" 7] by auto
    from r sub have "r \<in> set embeddings" by auto
    then show "?Q c" using f1 [of r] by (auto simp: c)
  qed
  let ?comb = "combineResults qe ?sem ?kw"
  have comb: "\<forall>c\<in>set ?comb. ?P c"
  proof
    fix c assume "c \<in> set ?comb"
    then obtain d where d: "d \<in> set (foldl (pushIfNew (\<lambda>d. d)) ?sem ?kw)"
      and c: "c = fillSimilarity qe d"
      by (auto simp: combineResults_def)
    from d have "d \<in> set ?sem \<union> set ?kw"
      using foldl_pushIfNew_set [of ?sem "\<lambda>d. d" ?kw] by auto
    then have q: "?Q d" using sem kw by auto
    then have "hasNumericSimilarity (fillSimilarity qe d)"
      using cosE [of "embedding d"] by (intro fillSimilarity_numeric) auto
    then show "?P c" using q by (simp add: c)
  qed
  have merge: "\<forall>c\<in>set (fst (mergeTop qe matches n fe ?comb h)). ?P c" for matches n
  proof (cases "filter (\<lambda>r. matches (h r)) fe = []")
    case True
    then show ?thesis using comb by (simp add: mergeTop_def)
  next
    case False
    let ?tm = "filter (\<lambda>r. matches (h r)) fe"
    let ?h' = "fillStore qe h ?tm"
    let ?top = "map ?h' (take n (sortRefsBySimilarity ?h' ?tm))"
    have top: "\<forall>c\<in>set ?top. ?P c"
    proof
      fix c assume "c \<in> set ?top"
      then obtain r where r: "r \<in> set (take n (sortRefsBySimilarity ?h' ?tm))" and c: "c = ?h' r"
        by auto
      from r have "r \<in> set (sortRefsBySimilarity ?h' ?tm)" by (rule in_set_takeD)
      then have rtm: "r \<in> set ?tm"
        by (simp add: sortRefsBySimilarity_def set_sortBySimilarityWith)
      then have re: "r \<in> set embeddings" using sub by auto
      have c': "c = fillSimilarity qe (h r)" using rtm by (simp add: c fillStore_apply)
      have "hasNumericSimilarity (fillSimilarity qe (h r))"
        using f1 [OF re] f2 [OF re] by (intro fillSimilarity_numeric)
      then show "?P c" using re by (simp add: c')
    qed
    have "fst (mergeTop qe matches n fe ?comb h) = foldl (pushIfNew (\<lambda>d. d)) ?comb ?top"
      using False by (simp add: mergeTop_def Let_def)
    then have "set (fst (mergeTop qe matches n fe ?comb h)) \<subseteq> set ?comb \<union> set ?top"
      using foldl_pushIfNew_set [of ?comb "\<lambda>d. d" ?top] by simp
    then show ?thesis using comb top by blast
  qed
  show ?thesis
    using comb merge
    by (simp add: gatherCandidates_def Let_def split: option.splits)
qed

lemma retrieveContext_numeric:
  assumes "gqe query = Inr qe" and "corpusNumeric qe h embeddings"
  shows "\<exists>docs. retrieveContext gqe query qa h embeddings =
           Inr (map Some docs,
                snd (gatherCandidates qe query qa h
                       (filterByTownHallLevel h (thLevelOf (params qa)) embeddings))) \<and>
           mset docs \<subseteq># mset (fst (gatherCandidates qe query qa h
                       (filterByTownHallLevel h (thLevelOf (params qa)) embeddings))) \<and>
           length docs \<le> 5"
proof -
  let ?fe = "filterByTownHallLevel h (thLevelOf (params qa)) embeddings"
  let ?c = "fst (gatherCandidates qe query qa h ?fe)"
  have g: "\<forall>c\<in>set ?c. hasNumericSimilarity c \<and>
             embedding c \<in> (\<lambda>r. embedding (h r)) ` set embeddings"
    using assms(2) filterByTownHallLevel_subset by (rule gatherCandidates_numeric)
  have n: "list_all hasNumericSimilarity ?c" using g by (simp add: list_all_iff)
  have "\<forall>a\<in>set ?c. \<forall>b\<in>set ?c. isFiniteNumber (cosineSimilarity (embedding a) (embedding b))"
  proof (intro ballI)
    fix a b assume "a \<in> set ?c" and "b \<in> set ?c"
    then have "embedding a \<in> (\<lambda>r. embedding (h r)) ` set embeddings"
      and "embedding b \<in> (\<lambda>r. embedding (h r)) ` set embeddings"
      using g by blast+
    then obtain r r' where "r \<in> set embeddings" "embedding a = embedding (h r)"
      "r' \<in> set embeddings" "embedding b = embedding (h r')"
      by (elim imageE) blast
    then show "isFiniteNumber (cosineSimilarity (embedding a) (embedding b))"
      using assms(2) by (auto simp: corpusNumeric_iff)
  qed
  then have c: "cosinesNumeric ?c" by (simp add: cosinesNumeric_iff)
  obtain docs where d: "applyMMR ?c qe 5 (7 / 10) = Inr (map Some docs)"
    "length docs = min 5 (length ?c)" "mset docs \<subseteq># mset ?c"
    using applyMMR_numeric [of 5 "7 / 10" ?c qe, OF _ _ _ n c] by auto
  show ?thesis
    using d assms(1) by (auto simp: retrieveContext_result)
qed

lemma storeOf_embedding:
  "embedding (storeOf [exampleDoc i1 c1 t1 s1, exampleDoc i2 c2 t2 s2] r) = [1, 0]"
  "embedding (storeOf [exampleDoc i1 c1 t1 s1] r) = [1, 0]"
  by (simp_all add: storeOf_def exampleDoc_def nth_Cons split: nat.splits)

lemma isFiniteNumber_1: "isFiniteNumber (Num 1)"
  using maxValue_ge by (simp add: isFiniteNumber_def)

text \<open>
  Claim C1. For every corpus whose documents have pairwise distinct
  \<open>(metadata.id, metadata.category)\<close> keys, and every query the embedding service
  answers: a list returned by \<open>retrieveContext\<close> has at most 5 entries, no two of its
  documents have the same key, and at most one entry is \<open>undefined\<close>; the only error
  the call can end with is the \<open>TypeError\<close> of the diversity selector. Where every
  similarity that the call reads or computes is a finite number, the call returns, and
  every entry of the list is a document.
\<close>

theorem retrieveContext_no_duplicates_at_most_5:
  assumes "distinct (keysOf h embeddings)"
    and "generateQueryEmbedding query = Inr queryEmbedding"
  shows "(case retrieveContext generateQueryEmbedding query queryAnalysis h embeddings of
            Inl e \<Rightarrow> e = TypeError
          | Inr (result, h') \<Rightarrow>
              distinct (keysOf (\<lambda>d. d) (definedEntries result)) \<and>
              length (filter (\<lambda>x. x = None) result) \<le> 1 \<and>
              length result \<le> 5) \<and>
         (corpusNumeric queryEmbedding h embeddings \<longrightarrow>
            (\<exists>docs h'.
               retrieveContext generateQueryEmbedding query queryAnalysis h embeddings
                 = Inr (map Some docs, h') \<and>
               distinct (keysOf (\<lambda>d. d) docs) \<and> length docs \<le> 5))"
proof -
  let ?fe = "filterByTownHallLevel h (thLevelOf (params queryAnalysis)) embeddings"
  let ?c = "fst (gatherCandidates queryEmbedding query queryAnalysis h ?fe)"
  have "distinct (keysOf h ?fe)" using assms(1) by (rule filterByTownHallLevel_distinct)
  then have dc: "distinct (keysOf (\<lambda>d. d) ?c)" by (rule gatherCandidates_distinct)
  have a: "case retrieveContext generateQueryEmbedding query queryAnalysis h embeddings of
            Inl e \<Rightarrow> e = TypeError
          | Inr (result, h') \<Rightarrow>
              distinct (keysOf (\<lambda>d. d) (definedEntries result)) \<and>
              length (filter (\<lambda>x. x = None) result) \<le> 1 \<and>
              length result \<le> 5"
  proof (cases "applyMMR ?c queryEmbedding 5 (7 / 10)")
    case (Inl e)
    then have "e = TypeError" by (rule applyMMR_error)
    then show ?thesis using Inl assms(2) by (simp add: retrieveContext_result)
  next
    case (Inr result)
    have "mset (definedEntries result) \<subseteq># mset ?c"
      using Inr by (rule applyMMR_result(2)) simp
    then have "distinct (keysOf (\<lambda>d. d) (definedEntries result))"
      using dc by (rule distinct_keysOf_mset_subset)
    moreover have "length (filter (\<lambda>x. x = None) result) \<le> 1"
      using Inr by (rule applyMMR_result(3)) simp
    moreover have "length result \<le> 5"
      using applyMMR_result(1) [OF Inr] by simp
    ultimately show ?thesis using Inr assms(2) by (simp add: retrieveContext_result)
  qed
  have b: "\<exists>docs h'.
             retrieveContext generateQueryEmbedding query queryAnalysis h embeddings
               = Inr (map Some docs, h') \<and>
             distinct (keysOf (\<lambda>d. d) docs) \<and> length docs \<le> 5"
    if cn: "corpusNumeric queryEmbedding h embeddings"
  proof -
    obtain docs where d:
      "retrieveContext generateQueryEmbedding query queryAnalysis h embeddings =
         Inr (map Some docs, snd (gatherCandidates queryEmbedding query queryAnalysis h ?fe))"
      "mset docs \<subseteq># mset ?c" "length docs \<le> 5"
      using retrieveContext_numeric
              [where gqe = generateQueryEmbedding and query = query and qa = queryAnalysis,
               OF assms(2) cn]
      by blast
    have "distinct (keysOf (\<lambda>d. d) docs)"
      using d(2) dc by (rule distinct_keysOf_mset_subset)
    then show ?thesis using d(1,3) by blast
  qed
  show ?thesis using a b by blast
qed

theorem retrieveContext_no_duplicates_at_most_5_witness:
  "distinct (keysOf
     (storeOf [exampleDoc ''1'' ''TH9 base'' None None, exampleDoc ''2'' ''th10 army'' None None])
     [0, 1]) \<and>
   corpusNumeric [1, 0]
     (storeOf [exampleDoc ''1'' ''TH9 base'' None None, exampleDoc ''2'' ''th10 army'' None None])
     [0, 1] \<and>
   (\<exists>docs h'.
      retrieveContext (\<lambda>q. Inr [1, 0]) ''best army for th9'' (analyzeQuery ''best army for th9'')
        (storeOf [exampleDoc ''1'' ''TH9 base'' None None, exampleDoc ''2'' ''th10 army'' None None])
        [0, 1] = Inr (map Some docs, h') \<and>
      distinct (keysOf (\<lambda>d. d) docs) \<and> length docs \<le> 5)"
proof -
  let ?h = "storeOf [exampleDoc ''1'' ''TH9 base'' None None, exampleDoc ''2'' ''th10 army'' None None]"
  have d: "distinct (keysOf ?h [0, 1])"
    by (simp add: keysOf_def docKey_def storeOf_def exampleDoc_def)
  have s: "similarity (?h r) = None" for r
    by (simp add: storeOf_def exampleDoc_def nth_Cons split: nat.splits)
  have n: "corpusNumeric [1, 0] ?h [0, 1]"
    unfolding corpusNumeric_iff
    by (simp only: storeOf_embedding cosineSimilarity_unit isFiniteNumber_1 s) simp
  have e: "(\<lambda>q. Inr [1, 0 :: real]) ''best army for th9'' = (Inr [1, 0] :: error + real list)"
    by simp
  show ?thesis
    using d n retrieveContext_no_duplicates_at_most_5
              [OF d e, where queryAnalysis = "analyzeQuery ''best army for th9''"]
    by blast
qed

text \<open>
  Claim C2 says that no document of the corpus is changed by a retrieval call. The
  intent branches of \<open>retrieveContext\<close> filter \<open>filteredEmbeddings\<close>, whose elements are
  the corpus objects themselves, and assign \<open>doc.similarity\<close> on each match. For a
  one-document corpus of type \<open>troop\<close> and the query \<open>upgrade troops\<close>, the document has
  no similarity before the call and similarity 1 after it.
\<close>

theorem retrieveContext_writes_similarity_into_corpus:
  "similarity
     (storeOf [exampleDoc ''1'' ''barracks'' (Some ''troop'') None] 0) = None \<and>
   (case retrieveContext (\<lambda>q. Inr [1, 0]) ''upgrade troops'' (analyzeQuery ''upgrade troops'')
           (storeOf [exampleDoc ''1'' ''barracks'' (Some ''troop'') None]) [0] of
      Inl e \<Rightarrow> None
    | Inr (result, h') \<Rightarrow> similarity (h' 0)) = Some (Num 1)"
proof -
  let ?d = "exampleDoc ''1'' ''barracks'' (Some ''troop'') None"
  let ?q = "''upgrade troops''"
  have a: "analyzeQuery ?q =
      \<lparr>intent = ''upgrade_priority'',
       params = emptyParams\<lparr>itemType := Some ''troop'', focus := Some ''offense''\<rparr>\<rparr>"
    by code_simp
  have f: "filterByTownHallLevel (storeOf [?d]) (thLevelOf (params (analyzeQuery ?q))) [0] = [0]"
    by (simp add: a emptyParams_def thLevelOf_def filterByTownHallLevel_def)
  have m: "typeMatch ''troop'' (storeOf [?d] 0)"
    by (simp add: typeMatch_def storeOf_def exampleDoc_def)
  have s: "snd (gatherCandidates [1, 0] ?q (analyzeQuery ?q) (storeOf [?d]) [0]) =
           fillStore [1, 0] (storeOf [?d]) [0]"
    using m by (simp add: gatherCandidates_store a emptyParams_def truthy_def)
  have w: "similarity (fillStore [1, 0] (storeOf [?d]) [0] 0) = Some (Num 1)"
    by (simp add: fillStore_apply fillSimilarity_def storeOf_def exampleDoc_def
        cosineSimilarity_unit)
  have s0: "similarity (storeOf [?d] r) = None" for r
    by (simp add: storeOf_def exampleDoc_def)
  have n: "corpusNumeric [1, 0] (storeOf [?d]) [0]"
    unfolding corpusNumeric_iff
    by (simp only: storeOf_embedding cosineSimilarity_unit isFiniteNumber_1 s0) simp
  have e: "(\<lambda>q. Inr [1, 0 :: real]) ?q = (Inr [1, 0] :: error + real list)" by simp
  obtain docs where
    "retrieveContext (\<lambda>q. Inr [1, 0]) ?q (analyzeQuery ?q) (storeOf [?d]) [0] =
       Inr (map Some docs,
            snd (gatherCandidates [1, 0] ?q (analyzeQuery ?q) (storeOf [?d])
                   (filterByTownHallLevel (storeOf [?d]) (thLevelOf (params (analyzeQuery ?q))) [0])))"
    using retrieveContext_numeric
            [where gqe = "\<lambda>q. Inr [1, 0]" and query = ?q and qa = "analyzeQuery ?q", OF e n]
    by blast
  then have "retrieveContext (\<lambda>q. Inr [1, 0]) ?q (analyzeQuery ?q) (storeOf [?d]) [0] =
       Inr (map Some docs, fillStore [1, 0] (storeOf [?d]) [0])"
    by (simp only: f s)
  then show ?thesis
    using w by (simp add: storeOf_def exampleDoc_def)
qed

section \<open>Properties of the intent boost\<close>

lemma fillSimilarity_fresh:
  "similarity d = None \<Longrightarrow>
   fillSimilarity qe d = d\<lparr>similarity := Some (cosineSimilarity qe (embedding d))\<rparr>"
  by (simp add: fillSimilarity_def)

lemma mergeTop_candidates:
  assumes "\<forall>r\<in>set fe. similarity (h r) = None"
  shows "fst (mergeTop qe matches n fe filtered h) = mergeTop_spec qe matches n (map h fe) filtered"
proof -
  let ?tm = "filter (\<lambda>r. matches (h r)) fe"
  let ?h' = "fillStore qe h ?tm"
  let ?score = "\<lambda>d. d\<lparr>similarity := Some (cosineSimilarity qe (embedding d))\<rparr>"
  have vals: "map ?h' ?tm = map ?score (filter matches (map h fe))"
  proof -
    have "map ?h' ?tm = map (\<lambda>r. fillSimilarity qe (h r)) ?tm"
      by (rule map_cong) (simp_all add: fillStore_apply)
    also have "\<dots> = map (\<lambda>r. ?score (h r)) ?tm"
      using assms by (intro map_cong) (auto simp: fillSimilarity_fresh)
    also have "\<dots> = map ?score (filter matches (map h fe))"
      by (simp add: filter_map comp_def)
    finally show ?thesis .
  qed
  have top: "map ?h' (take n (sortRefsBySimilarity ?h' ?tm)) =
             topKBySimilarity n (map ?score (filter matches (map h fe)))"
  proof -
    have "map ?h' (take n (sortRefsBySimilarity ?h' ?tm)) =
          take n (map ?h' (sortBySimilarityWith (\<lambda>r. ?h' r) ?tm))"
      by (simp add: sortRefsBySimilarity_def take_map)
    also have "\<dots> = take n (sortBySimilarityWith (\<lambda>d. d) (map ?h' ?tm))"
      using sortBySimilarityWith_map [of ?h' "\<lambda>d. d" ?tm] by simp
    finally show ?thesis
      by (simp only: vals topKBySimilarity_def sortBySimilarity_def)
  qed
  show ?thesis
  proof (cases "?tm = []")
    case True
    then have "filter matches (map h fe) = []"
      by (simp add: filter_map comp_def)
    then show ?thesis
      using True
      by (simp add: mergeTop_def mergeTop_spec_def topKBySimilarity_def sortBySimilarity_Nil)
  next
    case False
    then have "fst (mergeTop qe matches n fe filtered h) =
               foldl (pushIfNew (\<lambda>d. d)) filtered (map ?h' (take n (sortRefsBySimilarity ?h' ?tm)))"
      by (simp add: mergeTop_def Let_def)
    then show ?thesis by (simp only: top mergeTop_spec_def)
  qed
qed

lemma gatherCandidates_boosted:
  assumes "\<forall>r\<in>set fe. similarity (h r) = None"
  shows "fst (gatherCandidates qe query qa h fe) =
         boostedCandidates_spec qe qa (map h fe) (hybridResults qe query (map h fe))"
  using mergeTop_candidates [OF assms]
  by (simp add: gatherCandidates_def boostedCandidates_spec_def hybridResults_def Let_def
      split: option.splits)

lemma set_keysOf_mono: "set xs \<subseteq> set ys \<Longrightarrow> set (keysOf deref xs) \<subseteq> set (keysOf deref ys)"
  by (auto simp: set_keysOf)

lemma findSimilarDocuments_keys:
  "set (keysOf (\<lambda>d. d) (findSimilarDocuments qe docs topK)) \<subseteq> set (keysOf (\<lambda>d. d) docs)"
proof -
  let ?scored = "map (\<lambda>d. d\<lparr>similarity := Some (cosineSimilarity qe (embedding d))\<rparr>) docs"
  have "set (findSimilarDocuments qe docs topK) \<subseteq> set ?scored"
    using set_take_subset [of topK "sortBySimilarity ?scored"]
    by (simp add: findSimilarDocuments_def set_sortBySimilarity)
  then have "set (keysOf (\<lambda>d. d) (findSimilarDocuments qe docs topK)) \<subseteq> set (keysOf (\<lambda>d. d) ?scored)"
    by (rule set_keysOf_mono)
  also have "keysOf (\<lambda>d. d) ?scored = keysOf (\<lambda>d. d) docs" by (simp add: keysOf_def)
  finally show ?thesis .
qed

lemma findKeywordMatches_keys:
  "set (keysOf (\<lambda>d. d) (findKeywordMatches keywords docs topK)) \<subseteq> set (keysOf (\<lambda>d. d) docs)"
proof -
  let ?scored = "map (\<lambda>d. d\<lparr>keywordScore := Some (foldl (keywordScoreStep d) 0 keywords)\<rparr>) docs"
  have "set (findKeywordMatches keywords docs topK) \<subseteq> set ?scored"
    using set_take_subset [of topK "sortByKeywordScore (filter (\<lambda>d. keywordScoreOf d > 0) ?scored)"]
    by (auto simp: findKeywordMatches_def sortByKeywordScore_def Let_def)
  then have "set (keysOf (\<lambda>d. d) (findKeywordMatches keywords docs topK)) \<subseteq> set (keysOf (\<lambda>d. d) ?scored)"
    by (rule set_keysOf_mono)
  also have "keysOf (\<lambda>d. d) ?scored = keysOf (\<lambda>d. d) docs" by (simp add: keysOf_def)
  finally show ?thesis .
qed

lemma hybridResults_keys:
  "set (keysOf (\<lambda>d. d) (hybridResults qe query docs)) \<subseteq> set (keysOf (\<lambda>d. d) docs)"
  using findSimilarDocuments_keys [of qe docs 7] findKeywordMatches_keys [of "extractKeywords query" docs 7]
  by (simp add: hybridResults_def combineResults_def keysOf_map keysOf_fillSimilarity
      foldl_pushIfNew_keys)

lemma mergeTop_spec_keys:
  "set (keysOf (\<lambda>d. d) (mergeTop_spec qe matches n pool results)) =
   set (keysOf (\<lambda>d. d) results) \<union>
   set (keysOf (\<lambda>d. d) (topKBySimilarity n
          (map (\<lambda>d. d\<lparr>similarity := Some (cosineSimilarity qe (embedding d))\<rparr>)
             (filter matches pool))))"
  by (simp add: mergeTop_spec_def foldl_pushIfNew_keys)

lemma topKBySimilarity_singleton: "0 < n \<Longrightarrow> topKBySimilarity n [x] = [x]"
  by (cases n) (simp_all add: topKBySimilarity_def sortBySimilarity_single)

lemma ex_analysis:
  "analyzeQuery ''upgrade troops th9'' =
     \<lparr>intent = ''upgrade_priority'',
      params = emptyParams\<lparr>townHallLevel := Some 9, itemType := Some ''troop'',
                           focus := Some ''offense''\<rparr>\<rparr>"
  by code_simp

lemma ex_filter:
  "filterByTownHallLevel (storeOf exampleCorpus) (Some 9) [0, 1, 2, 3, 4, 5] = [0, 1, 2, 3, 4]"
  by code_simp

lemma ex_thLevel: "thLevelOf (params (analyzeQuery ''upgrade troops th9'')) = Some 9"
  by (simp add: ex_analysis thLevelOf_def emptyParams_def)

lemma ex_typeMatches_filtered:
  "filter (typeMatch ''troop'') (map (storeOf exampleCorpus) [0, 1, 2, 3, 4]) = []"
  by code_simp

lemma ex_typeMatches_all:
  "filter (typeMatch ''troop'') (map (storeOf exampleCorpus) [0, 1, 2, 3, 4, 5]) =
     [exampleDoc ''6'' ''Barracks'' (Some ''troop'') None]"
  by code_simp

lemma ex_keys_filtered:
  "keysOf (storeOf exampleCorpus) [0, 1, 2, 3, 4] =
     [(''1'', ''basic_info''), (''2'', ''basic_info''), (''3'', ''basic_info''),
      (''4'', ''basic_info''), (''5'', ''basic_info'')]"
  by code_simp

lemma ex_fresh: "list_all (\<lambda>r. similarity (storeOf exampleCorpus r) = None) [0, 1, 2, 3, 4, 5]"
  by code_simp

text \<open>
  Claim C3, as stated: the boost draws its documents from the unfiltered corpus. The
  source filters \<open>filteredEmbeddings\<close>, the output of the Town Hall filter. In the example
  corpus the filter for level 9 keeps the five documents that mention it; the only
  document of type \<open>troop\<close> is the sixth, so the candidate list of the source does not
  contain its key, while the boost from the whole corpus would have merged it in.
\<close>

theorem boost_from_unfiltered_corpus_counterexample:
  "(''6'', ''basic_info'') \<notin> set (keysOf (\<lambda>d. d)
      (fst (gatherCandidates [1, 0] ''upgrade troops th9'' (analyzeQuery ''upgrade troops th9'')
              (storeOf exampleCorpus)
              (filterByTownHallLevel (storeOf exampleCorpus)
                 (thLevelOf (params (analyzeQuery ''upgrade troops th9''))) [0, 1, 2, 3, 4, 5])))) \<and>
   (''6'', ''basic_info'') \<in> set (keysOf (\<lambda>d. d)
      (boostedCandidates_spec [1, 0] (analyzeQuery ''upgrade troops th9'')
         (map (storeOf exampleCorpus) [0, 1, 2, 3, 4, 5])
         (hybridResults [1, 0] ''upgrade troops th9''
            (map (storeOf exampleCorpus)
               (filterByTownHallLevel (storeOf exampleCorpus)
                  (thLevelOf (params (analyzeQuery ''upgrade troops th9'')))
                  [0, 1, 2, 3, 4, 5])))))"
proof -
  let ?h = "storeOf exampleCorpus"
  let ?q = "''upgrade troops th9''"
  let ?qa = "analyzeQuery ?q"
  let ?fe = "[0, 1, 2, 3, 4] :: nat list"
  let ?k = "(''6'', ''basic_info'')"
  have i: "intent ?qa = ''upgrade_priority''" and t: "itemType (params ?qa) = Some ''troop''"
    by (simp_all add: ex_analysis emptyParams_def)
  have fresh: "\<forall>r\<in>set ?fe. similarity (?h r) = None"
    using ex_fresh by (simp add: list_all_iff)
  have b: "boostedCandidates_spec [1, 0] ?qa pool R = mergeTop_spec [1, 0] (typeMatch ''troop'') 3 pool R"
    for pool R
    by (simp add: boostedCandidates_spec_def i t truthy_def)
  have code: "fst (gatherCandidates [1, 0] ?q ?qa ?h ?fe) = hybridResults [1, 0] ?q (map ?h ?fe)"
  proof -
    have m: "mergeTop_spec [1, 0] (typeMatch ''troop'') 3 (map ?h ?fe) R = R" for R
      unfolding mergeTop_spec_def ex_typeMatches_filtered
      by (simp add: topKBySimilarity_def sortBySimilarity_Nil)
    show ?thesis
      unfolding gatherCandidates_boosted [OF fresh] b m ..
  qed
  have "set (keysOf (\<lambda>d. d) (hybridResults [1, 0] ?q (map ?h ?fe))) \<subseteq> set (keysOf ?h ?fe)"
    using hybridResults_keys [of "[1, 0]" ?q "map ?h ?fe"] by (simp add: keysOf_map)
  then have absent: "?k \<notin> set (keysOf (\<lambda>d. d) (fst (gatherCandidates [1, 0] ?q ?qa ?h ?fe)))"
    unfolding code ex_keys_filtered by auto
  have new: "?k \<in> set (keysOf (\<lambda>d. d)
          (topKBySimilarity 3
             (map (\<lambda>d. d\<lparr>similarity := Some (cosineSimilarity [1, 0] (embedding d))\<rparr>)
                (filter (typeMatch ''troop'') (map ?h [0, 1, 2, 3, 4, 5])))))"
    unfolding ex_typeMatches_all
    by (simp add: topKBySimilarity_singleton docKey_def exampleDoc_def)
  have present: "?k \<in> set (keysOf (\<lambda>d. d)
      (boostedCandidates_spec [1, 0] ?qa (map ?h [0, 1, 2, 3, 4, 5])
         (hybridResults [1, 0] ?q (map ?h ?fe))))"
    unfolding b mergeTop_spec_keys using new by (rule UnI2)
  show ?thesis
    using absent present by (simp only: ex_thLevel ex_filter) blast
qed

text \<open>
  Claim C3, amended. For a corpus whose documents carry no similarity before the call:
  the candidate list that \<open>retrieveContext\<close> hands to \<open>applyMMR\<close> is the hybrid result
  over the tier-filtered corpus and, when the intent is \<open>upgrade_priority\<close> and
  \<open>itemType\<close> is set, additionally the top 3 by cosine similarity to the query
  embedding of the documents of the tier-filtered corpus whose \<open>metadata.type\<close> equals
  \<open>itemType\<close> or whose lower-cased content contains it, each pushed unless its
  \<open>(id, category)\<close> key is present; for \<open>attack_strategy\<close> with \<open>focusTroop\<close> set, the
  top 2 of the documents of the tier-filtered corpus whose lower-cased name or content
  contains \<open>focusTroop\<close>.
\<close>

theorem retrieveContext_boost_from_filtered_corpus:
  assumes "generateQueryEmbedding query = Inr queryEmbedding"
    and "list_all (\<lambda>r. similarity (h r) = None) embeddings"
  shows "\<exists>h'. retrieveContext generateQueryEmbedding query queryAnalysis h embeddings =
           (case applyMMR
                   (boostedCandidates_spec queryEmbedding queryAnalysis
                      (map h (filterByTownHallLevel h (thLevelOf (params queryAnalysis)) embeddings))
                      (hybridResults queryEmbedding query
                         (map h (filterByTownHallLevel h (thLevelOf (params queryAnalysis))
                                   embeddings))))
                   queryEmbedding 5 (7 / 10) of
              Inl e \<Rightarrow> Inl e
            | Inr diverseResults \<Rightarrow> Inr (diverseResults, h'))"
proof -
  let ?fe = "filterByTownHallLevel h (thLevelOf (params queryAnalysis)) embeddings"
  have "\<forall>r\<in>set ?fe. similarity (h r) = None"
    using assms(2) filterByTownHallLevel_subset [of h "thLevelOf (params queryAnalysis)" embeddings]
    by (auto simp: list_all_iff)
  then have "fst (gatherCandidates queryEmbedding query queryAnalysis h ?fe) =
             boostedCandidates_spec queryEmbedding queryAnalysis (map h ?fe)
               (hybridResults queryEmbedding query (map h ?fe))"
    by (rule gatherCandidates_boosted)
  then have "retrieveContext generateQueryEmbedding query queryAnalysis h embeddings =
           (case applyMMR
                   (boostedCandidates_spec queryEmbedding queryAnalysis (map h ?fe)
                      (hybridResults queryEmbedding query (map h ?fe)))
                   queryEmbedding 5 (7 / 10) of
              Inl e \<Rightarrow> Inl e
            | Inr diverseResults \<Rightarrow>
                Inr (diverseResults,
                     snd (gatherCandidates queryEmbedding query queryAnalysis h ?fe)))"
    using assms(1) by (simp add: retrieveContext_result)
  then show ?thesis by blast
qed

theorem retrieveContext_boost_from_filtered_corpus_witness:
  "list_all (\<lambda>r. similarity (storeOf exampleCorpus r) = None) [0, 1, 2, 3, 4, 5] \<and>
   (\<exists>h'. retrieveContext (\<lambda>q. Inr [1, 0]) ''upgrade troops th9''
            (analyzeQuery ''upgrade troops th9'') (storeOf exampleCorpus) [0, 1, 2, 3, 4, 5] =
          (case applyMMR
                  (boostedCandidates_spec [1, 0] (analyzeQuery ''upgrade troops th9'')
                     (map (storeOf exampleCorpus) [0, 1, 2, 3, 4])
                     (hybridResults [1, 0] ''upgrade troops th9''
                        (map (storeOf exampleCorpus) [0, 1, 2, 3, 4])))
                  [1, 0] 5 (7 / 10) of
             Inl e \<Rightarrow> Inl e
           | Inr diverseResults \<Rightarrow> Inr (diverseResults, h')))"
proof -
  have e: "(\<lambda>q. Inr [1, 0 :: real]) ''upgrade troops th9'' = (Inr [1, 0] :: error + real list)"
    by simp
  show ?thesis
    using ex_fresh
      retrieveContext_boost_from_filtered_corpus
        [OF e ex_fresh, where queryAnalysis = "analyzeQuery ''upgrade troops th9''"]
    by (simp only: ex_thLevel ex_filter)
qed

end
